(* ===== verification/Prelude.thy ===== *)
theory Prelude
  imports Main "HOL-Library.AList"
begin

text \<open>
  What every component shares.

  A Python method of the service reads and writes some state, returns a value or raises.
  It is modelled as a function of type \<open>('s, 'a) exec\<close>: from the state before the call to
  the outcome (\<open>Inl\<close> the exception, \<open>Inr\<close> the value) and the state after it. The state
  after a raise is kept: what a method wrote before it raised stays written, as in Python.

  The exceptions the source raises, catches or lets through are the constructors of
  \<open>py_error\<close>. A dictionary is an association list in insertion order;
  \<open>AList.update\<close> is \<open>d[k] = v\<close> (in place for a key that is there, at the end for a new
  one) and \<open>map_of\<close> is the lookup.
\<close>

named_theorems exec_simps \<open>equations of the combinators of the exec functions\<close>

section \<open>Exceptions\<close>

datatype py_error =
    ValueError string
  | JSONDecodeError string
  | KeyError string
  | TypeError string
  | AttributeError string
  | RuntimeError string
  | InvalidOperation
  | PaymentGatewayError string "int option" "string option"
  | DatabaseError string
  | BrokerError string
  | BrokerValueError string
  | HTTPException int string
  | SystemExit string
  | EnvValidationError string
  | OSError string
  | ConfigError string
  | IndexError string

text \<open>
  \<open>except ValueError\<close> catches \<open>ValueError\<close> and its subclasses
  \<open>json.JSONDecodeError\<close> and \<open>EnvValidationError\<close>. \<open>BrokerValueError\<close> is a plain \<open>ValueError\<close>
  of Python that the broker client raised, as it does for a malformed URL; \<open>BrokerError\<close> stands
  for its own exceptions. \<open>decimal.InvalidOperation\<close> is an \<open>ArithmeticError\<close>, so it is not
  caught there; neither is \<open>PaymentGatewayError\<close>, a direct subclass of \<open>Exception\<close>.
\<close>

fun is_value_error :: "py_error \<Rightarrow> bool" where
  "is_value_error (ValueError _) = True"
| "is_value_error (JSONDecodeError _) = True"
| "is_value_error (EnvValidationError _) = True"
| "is_value_error (BrokerValueError _) = True"
| "is_value_error _ = False"

fun is_key_error :: "py_error \<Rightarrow> bool" where
  "is_key_error (KeyError _) = True"
| "is_key_error _ = False"

fun is_gateway_error :: "py_error \<Rightarrow> bool" where
  "is_gateway_error (PaymentGatewayError _ _ _) = True"
| "is_gateway_error _ = False"

section \<open>Executions\<close>

type_synonym ('s, 'a) exec = "'s \<Rightarrow> (py_error + 'a) \<times> 's"

definition ret :: "'a \<Rightarrow> ('s, 'a) exec" where
  "ret x s = (Inr x, s)"

definition raise :: "py_error \<Rightarrow> ('s, 'a) exec" where
  "raise e s = (Inl e, s)"

definition andthen :: "('s, 'a) exec \<Rightarrow> ('a \<Rightarrow> ('s, 'b) exec) \<Rightarrow> ('s, 'b) exec" where
  "andthen m f s = (case m s of (Inl e, s') \<Rightarrow> (Inl e, s') | (Inr x, s') \<Rightarrow> f x s')"

definition from_result :: "py_error + 'a \<Rightarrow> ('s, 'a) exec" where
  "from_result r s = (r, s)"

definition reads :: "('s \<Rightarrow> 'a) \<Rightarrow> ('s, 'a) exec" where
  "reads f s = (Inr (f s), s)"

definition writes :: "('s \<Rightarrow> 's) \<Rightarrow> ('s, unit) exec" where
  "writes f s = (Inr (), f s)"

text \<open>\<open>try: m / except: h\<close>, where \<open>h e = None\<close> when no handler matches the exception.\<close>

definition try_except ::
    "('s, 'a) exec \<Rightarrow> (py_error \<Rightarrow> ('s, 'a) exec option) \<Rightarrow> ('s, 'a) exec" where
  "try_except m h s =
     (case m s of
        (Inr x, s') \<Rightarrow> (Inr x, s')
      | (Inl e, s') \<Rightarrow> (case h e of None \<Rightarrow> (Inl e, s') | Some k \<Rightarrow> k s'))"

text \<open>
  \<open>try: m / finally: f\<close>: the clean-up runs on both paths, and its own exception, if it
  raises, replaces the outcome.
\<close>

definition try_finally :: "('s, 'a) exec \<Rightarrow> ('s, unit) exec \<Rightarrow> ('s, 'a) exec" where
  "try_finally m f s =
     (case m s of (r, s') \<Rightarrow>
        (case f s' of (Inl e, s'') \<Rightarrow> (Inl e, s'') | (Inr _, s'') \<Rightarrow> (r, s'')))"

text \<open>A method of a part, run on the whole through the part's selector and update.\<close>

definition zoom ::
    "('w \<Rightarrow> 's) \<Rightarrow> ('s \<Rightarrow> 'w \<Rightarrow> 'w) \<Rightarrow> ('s, 'a) exec \<Rightarrow> ('w, 'a) exec" where
  "zoom get put m w = (case m (get w) of (r, s') \<Rightarrow> (r, put s' w))"

lemmas exec_defs =
  ret_def raise_def andthen_def from_result_def reads_def writes_def
  try_except_def try_finally_def zoom_def

lemma ret_apply [simp, exec_simps]: "ret x s = (Inr x, s)"
  by (simp add: ret_def)

lemma raise_apply [simp, exec_simps]: "raise e s = (Inl e, s)"
  by (simp add: raise_def)

lemma from_result_apply [simp, exec_simps]: "from_result r s = (r, s)"
  by (simp add: from_result_def)

lemma reads_apply [simp, exec_simps]: "reads f s = (Inr (f s), s)"
  by (simp add: reads_def)

lemma writes_apply [simp, exec_simps]: "writes f s = (Inr (), f s)"
  by (simp add: writes_def)

lemma andthen_Inr [simp, exec_simps]: "m s = (Inr x, s') \<Longrightarrow> andthen m f s = f x s'"
  by (simp add: andthen_def)

lemma andthen_Inl [simp, exec_simps]: "m s = (Inl e, s') \<Longrightarrow> andthen m f s = (Inl e, s')"
  by (simp add: andthen_def)

lemma zoom_apply [simp, exec_simps]:
  "m (get w) = (r, s') \<Longrightarrow> zoom get put m w = (r, put s' w)"
  by (simp add: zoom_def)

lemma try_except_Inr [simp, exec_simps]:
  "m s = (Inr x, s') \<Longrightarrow> try_except m h s = (Inr x, s')"
  by (simp add: try_except_def)

lemma try_except_Inl [simp, exec_simps]:
  "m s = (Inl e, s') \<Longrightarrow>
     try_except m h s = (case h e of None \<Rightarrow> (Inl e, s') | Some k \<Rightarrow> k s')"
  by (simp add: try_except_def)

text \<open>Inversion: what a composed execution that ended says about its two halves.\<close>

lemma andthen_cases:
  assumes "andthen m f s = (r, t)"
  obtains (raised) e where "m s = (Inl e, t)" and "r = Inl e"
        | (returned) x s' where "m s = (Inr x, s')" and "f x s' = (r, t)"
  using assms by (cases "m s"; cases "fst (m s)") (auto simp: andthen_def)

lemma andthen_InrE:
  assumes "andthen m f s = (Inr y, t)"
  obtains x s' where "m s = (Inr x, s')" and "f x s' = (Inr y, t)"
  using assms by (cases "m s"; cases "fst (m s)") (auto simp: andthen_def)

lemma andthen_assoc: "andthen (andthen m f) g = andthen m (\<lambda>x. andthen (f x) g)"
  by (rule ext) (auto simp: andthen_def split: prod.splits sum.splits)

lemma zoomE:
  assumes "zoom get put m w = (r, w')"
  obtains s' where "m (get w) = (r, s')" and "w' = put s' w"
  using assms by (auto simp: zoom_def split: prod.splits)

section \<open>Weakest preconditions\<close>

text \<open>
  \<open>wp m Q E s\<close>: run from \<open>s\<close>, \<open>m\<close> returns a value and a state with \<open>Q\<close>, or raises an
  exception in a state with \<open>E\<close>.
\<close>

definition wp :: "('s, 'a) exec \<Rightarrow> ('a \<Rightarrow> 's \<Rightarrow> bool) \<Rightarrow> (py_error \<Rightarrow> 's \<Rightarrow> bool) \<Rightarrow> 's \<Rightarrow> bool" where
  "wp m Q E s = (case m s of (Inr x, s') \<Rightarrow> Q x s' | (Inl e, s') \<Rightarrow> E e s')"

lemma wp_andthen: "wp (andthen m f) Q E = wp m (\<lambda>x. wp (f x) Q E) E"
  by (rule ext) (auto simp: wp_def andthen_def split: prod.splits sum.splits)

lemma wp_simple [simp]:
  "wp (raise e) Q E s = E e s" "wp (reads f) Q E s = Q (f s) s"
  "wp (from_result r) Q E s = (case r of Inr x \<Rightarrow> Q x s | Inl e \<Rightarrow> E e s)"
  by (simp_all add: wp_def split: sum.splits)

lemma wp_ret [simp]: "wp (ret x) Q E = Q x"
  by (rule ext) (simp add: wp_def)

lemma wp_writes [simp]: "wp (writes f) Q E s = Q () (f s)"
  by (simp add: wp_def)

lemma wp_zoom: "wp (zoom g u m) Q E w = wp m (\<lambda>x s. Q x (u s w)) (\<lambda>e s. E e (u s w)) (g w)"
  by (auto simp: wp_def zoom_def split: prod.splits sum.splits)

lemma wpI:
  assumes "\<And>x s'. m s = (Inr x, s') \<Longrightarrow> Q x s'" and "\<And>e s'. m s = (Inl e, s') \<Longrightarrow> E e s'"
  shows "wp m Q E s"
  using assms by (auto simp: wp_def split: prod.splits sum.splits)

lemma wpD:
  assumes "wp m Q E s" and "m s = (r, s')"
  shows "case r of Inr x \<Rightarrow> Q x s' | Inl e \<Rightarrow> E e s'"
  using assms by (simp add: wp_def split: sum.splits)

lemma wp_mono:
  assumes "wp m Q E s" and "\<And>x s'. Q x s' \<Longrightarrow> Q' x s'" and "\<And>e s'. E e s' \<Longrightarrow> E' e s'"
  shows "wp m Q' E' s"
  using assms by (auto simp: wp_def split: prod.splits sum.splits)

section \<open>Results\<close>

text \<open>A computation that can raise but touches no state.\<close>

definition bind_sum :: "'e + 'a \<Rightarrow> ('a \<Rightarrow> 'e + 'b) \<Rightarrow> 'e + 'b" where
  "bind_sum r f = (case r of Inl e \<Rightarrow> Inl e | Inr x \<Rightarrow> f x)"

lemma bind_sum_simps [simp, exec_simps]:
  "bind_sum (Inl e) f = Inl e" "bind_sum (Inr x) f = f x"
  by (simp_all add: bind_sum_def)

section \<open>Dictionaries\<close>

lemma map_of_update: "map_of (AList.update k v d) = (map_of d)(k \<mapsto> v)"
  by (rule ext) (simp add: update_conv')

lemma set_update_subset: "set (AList.update k v d) \<subseteq> insert (k, v) (set d)"
  by (induction d) auto

lemma distinct_keys_update [intro]:
  "distinct (map fst d) \<Longrightarrow> distinct (map fst (AList.update k v d))"
  by (rule AList.distinct_update)

section \<open>Loops over a list\<close>

fun for_each :: "('k \<Rightarrow> ('s, 'a) exec) \<Rightarrow> 'k list \<Rightarrow> ('s, unit) exec" where
  "for_each f [] = ret ()"
| "for_each f (k # ks) = andthen (f k) (\<lambda>_. for_each f ks)"

end
