(* ===== verification/Py_Decimal.thy ===== *)
theory Py_Decimal
  imports Complex_Main Py_Text
begin

text \<open>
  \<open>decimal.Decimal\<close> as the source uses it: the constructor on text, \<open>str\<close>, the comparison
  with zero of \<open>Money.__post_init__\<close> and the equality test of the payment adapter. A finite
  decimal is a sign, a coefficient and an exponent, so \<open>120\<close>, \<open>120.0\<close> and \<open>120.00\<close> are
  three values with one numeric value, as in Python. Left out are the limits of the C
  implementation on exponents and digits (about \<open>10 ^ 18\<close>).
\<close>

datatype decimal =
    Finite bool nat int
  | Infinite bool
  | NaN bool bool nat

text \<open>
  \<open>Finite neg c e\<close> is \<open>(-1)^neg * c * 10^e\<close>; \<open>NaN neg signaling payload\<close>, a zero payload
  meaning none.
\<close>

section \<open>str\<close>

definition sign_text :: "bool \<Rightarrow> string" where
  "sign_text neg = (if neg then ''-'' else [])"

definition show_signed :: "int \<Rightarrow> string" where
  "show_signed i = (if i < 0 then CHR ''-'' # show_nat (nat (- i)) else CHR ''+'' # show_nat (nat i))"

definition finite_text :: "string \<Rightarrow> int \<Rightarrow> string" where
  "finite_text ds e =
     (let n = int (length ds);
          leftdigits = e + n;
          dotplace = (if e \<le> 0 \<and> leftdigits > -6 then leftdigits else 1);
          mantissa =
            (if dotplace \<le> 0 then ''0.'' @ replicate (nat (- dotplace)) CHR ''0'' @ ds
             else if dotplace \<ge> n then ds @ replicate (nat (dotplace - n)) CHR ''0''
             else take (nat dotplace) ds @ ''.'' @ drop (nat dotplace) ds)
      in mantissa @
         (if leftdigits = dotplace then [] else CHR ''E'' # show_signed (leftdigits - dotplace)))"

fun decimal_str :: "decimal \<Rightarrow> string" where
  "decimal_str (Finite neg c e) = sign_text neg @ finite_text (show_nat c) e"
| "decimal_str (Infinite neg) = sign_text neg @ ''Infinity''"
| "decimal_str (NaN neg signaling p) =
     sign_text neg @ (if signaling then ''sNaN'' else ''NaN'') @ (if p = 0 then [] else show_nat p)"

section \<open>The constructor on text\<close>

text \<open>
  \<open>Decimal(text)\<close> strips white space, drops underscores and reads, in either case, an
  optional sign and then digits with an optional fraction and exponent, \<open>Inf\<close> or
  \<open>Infinity\<close>, or \<open>NaN\<close> / \<open>sNaN\<close> with optional digits. Anything else raises
  \<open>InvalidOperation\<close>, here \<open>None\<close>.
\<close>

definition exponent_of :: "string \<Rightarrow> int option" where
  "exponent_of s =
     (case s of
        [] \<Rightarrow> Some 0
      | c # r \<Rightarrow>
          if c = CHR ''e'' then
            (let (neg, ds) =
                 (case r of d # ds \<Rightarrow> if d = CHR ''-'' then (True, ds)
                                    else if d = CHR ''+'' then (False, ds) else (False, r)
                          | [] \<Rightarrow> (False, []))
             in if ds \<noteq> [] \<and> list_all is_digit ds
                then Some (if neg then - int (digits_val ds) else int (digits_val ds))
                else None)
          else None)"

definition number_of :: "bool \<Rightarrow> string \<Rightarrow> decimal option" where
  "number_of neg s =
     (let ip = takeWhile is_digit s;
          r = dropWhile is_digit s;
          (fp, r') = (case r of c # t \<Rightarrow> if c = CHR ''.'' then (takeWhile is_digit t, dropWhile is_digit t)
                                       else ([], r)
                              | [] \<Rightarrow> ([], []))
      in if ip @ fp = [] then None
         else (case exponent_of r' of
                 None \<Rightarrow> None
               | Some x \<Rightarrow> Some (Finite neg (digits_val (ip @ fp)) (x - int (length fp)))))"

definition unsigned_of :: "bool \<Rightarrow> string \<Rightarrow> decimal option" where
  "unsigned_of neg s =
     (if s = ''inf'' \<or> s = ''infinity'' then Some (Infinite neg)
      else if startswith s ''nan'' \<and> list_all is_digit (drop 3 s)
        then Some (NaN neg False (digits_val (drop 3 s)))
      else if startswith s ''snan'' \<and> list_all is_digit (drop 4 s)
        then Some (NaN neg True (digits_val (drop 4 s)))
      else number_of neg s)"

definition decimal_of_text :: "string \<Rightarrow> decimal option" where
  "decimal_of_text text =
     (let s = lower (filter (\<lambda>c. c \<noteq> CHR ''_'') (strip text)) in
      case s of
        [] \<Rightarrow> None
      | c # r \<Rightarrow> if c = CHR ''-'' then unsigned_of True r
                 else if c = CHR ''+'' then unsigned_of False r
                 else unsigned_of False s)"

definition Decimal :: "string \<Rightarrow> py_error + decimal" where
  "Decimal text = (case decimal_of_text text of None \<Rightarrow> Inl InvalidOperation | Some d \<Rightarrow> Inr d)"

section \<open>Comparisons\<close>

text \<open>\<open>d <= Decimal("0")\<close>: an ordering comparison with a NaN raises.\<close>

fun le_zero :: "decimal \<Rightarrow> py_error + bool" where
  "le_zero (Finite neg c e) = Inr (neg \<or> c = 0)"
| "le_zero (Infinite neg) = Inr neg"
| "le_zero (NaN _ _ _) = Inl InvalidOperation"

text \<open>
  \<open>a != b\<close>: finite values are compared as numbers, a quiet NaN differs from everything,
  a signaling NaN raises.
\<close>

definition finite_eq :: "bool \<Rightarrow> nat \<Rightarrow> int \<Rightarrow> bool \<Rightarrow> nat \<Rightarrow> int \<Rightarrow> bool" where
  "finite_eq s c e s' c' e' =
     (if c = 0 \<or> c' = 0 then c = c'
      else s = s' \<and>
        (let m = min e e' in c * 10 ^ nat (e - m) = c' * 10 ^ nat (e' - m)))"

fun is_snan :: "decimal \<Rightarrow> bool" where
  "is_snan (NaN _ signaling _) = signaling"
| "is_snan _ = False"

definition decimal_ne :: "decimal \<Rightarrow> decimal \<Rightarrow> py_error + bool" where
  "decimal_ne a b =
     (if is_snan a \<or> is_snan b then Inl InvalidOperation
      else Inr (case (a, b) of
          (Finite s c e, Finite s' c' e') \<Rightarrow> \<not> finite_eq s c e s' c' e'
        | (Infinite s, Infinite s') \<Rightarrow> s \<noteq> s'
        | _ \<Rightarrow> True))"

text \<open>The number a finite decimal stands for; equality of finite decimals is equality of numbers.\<close>

definition finite_value :: "bool \<Rightarrow> nat \<Rightarrow> int \<Rightarrow> rat" where
  "finite_value neg c e = (if neg then -1 else 1) * of_nat c * power_int 10 e"

lemma finite_value_scaled:
  assumes "m \<le> e"
  shows "of_nat c * power_int 10 e = of_nat (c * 10 ^ nat (e - m)) * (power_int 10 m :: rat)"
proof -
  have "power_int 10 e = power_int 10 (e - m) * (power_int 10 m :: rat)"
    by (simp add: power_int_diff)
  moreover have "power_int 10 (e - m) = (10 ^ nat (e - m) :: rat)"
    using assms by (simp add: power_int_def)
  ultimately show ?thesis by simp
qed

lemma finite_eq_value:
  "finite_eq s c e s' c' e' \<longleftrightarrow> finite_value s c e = finite_value s' c' e'"
proof -
  define m where "m = min e e'"
  define a b where "a = of_nat (c * 10 ^ nat (e - m)) * (power_int 10 m :: rat)"
    and "b = of_nat (c' * 10 ^ nat (e' - m)) * (power_int 10 m :: rat)"
  have "of_nat c * power_int 10 e = a" "of_nat c' * power_int 10 e' = b"
    unfolding a_def b_def by (rule finite_value_scaled, simp add: m_def)+
  then have v: "finite_value s c e = (if s then - a else a)"
    "finite_value s' c' e' = (if s' then - b else b)"
    by (auto simp: finite_value_def)
  have pos: "a \<ge> 0" "b \<ge> 0" "a = 0 \<longleftrightarrow> c = 0" "b = 0 \<longleftrightarrow> c' = 0"
    by (simp_all add: a_def b_def)
  have "a = b \<longleftrightarrow> c * 10 ^ nat (e - m) = c' * 10 ^ nat (e' - m)"
    unfolding a_def b_def by (simp del: of_nat_mult of_nat_power)
  then show ?thesis
    using pos unfolding v finite_eq_def Let_def m_def [symmetric] by auto
qed

section \<open>What str prints, the constructor reads back\<close>

lemma takeWhile_digits:
  "list_all is_digit ds \<Longrightarrow> (r = [] \<or> \<not> is_digit (hd r)) \<Longrightarrow> takeWhile is_digit (ds @ r) = ds"
  by (cases r) (auto simp: list_all_iff takeWhile_append)

lemma dropWhile_digits:
  "list_all is_digit ds \<Longrightarrow> (r = [] \<or> \<not> is_digit (hd r)) \<Longrightarrow> dropWhile is_digit (ds @ r) = r"
  by (cases r) (auto simp: list_all_iff dropWhile_append)

lemma show_nat_all_digits [simp]: "list_all is_digit (show_nat n)"
  by (simp add: list_all_iff show_nat_digits)

lemma not_digit [simp]:
  "\<not> is_digit CHR ''.''" "\<not> is_digit CHR ''e''" "\<not> is_digit CHR ''-''" "\<not> is_digit CHR ''+''"
  "\<not> is_digit CHR ''E''" "\<not> is_digit CHR ''_''" "\<not> is_digit CHR ''i''" "\<not> is_digit CHR ''n''"
  "\<not> is_digit CHR ''s''"
  by (simp_all add: is_digit_def code_point_def)

lemma list_all_replicate_zero [simp]: "list_all is_digit (replicate n CHR ''0'')"
  by (simp add: list_all_iff)

lemma exponent_of_Nil [simp]: "exponent_of [] = Some 0"
  by (simp add: exponent_of_def)

lemma exponent_of_signed [simp]: "exponent_of (CHR ''e'' # show_signed i) = Some i"
  by (cases "i < 0") (auto simp: exponent_of_def show_signed_def)

text \<open>A mantissa without a point, and one with, followed by an exponent part.\<close>

definition exponent_part :: "string \<Rightarrow> int \<Rightarrow> bool" where
  "exponent_part r x \<longleftrightarrow> (r = [] \<and> x = 0) \<or> r = CHR ''e'' # show_signed x"

lemma exponent_of_part: "exponent_part r x \<Longrightarrow> exponent_of r = Some x"
  by (auto simp: exponent_part_def)

lemma exponent_part_hd: "exponent_part r x \<Longrightarrow> r = [] \<or> hd r = CHR ''e''"
  by (auto simp: exponent_part_def)

lemma number_of_integer:
  assumes "list_all is_digit ds" and "ds \<noteq> []" and "exponent_part r x"
  shows "number_of neg (ds @ r) = Some (Finite neg (digits_val ds) x)"
proof -
  have r: "r = [] \<or> (\<exists>t. r = CHR ''e'' # t)"
    using assms(3) by (auto simp: exponent_part_def)
  then have "takeWhile is_digit (ds @ r) = ds" and "dropWhile is_digit (ds @ r) = r"
    using assms(1) by (auto intro: takeWhile_digits dropWhile_digits)
  then show ?thesis
    using assms(2) r exponent_of_part [OF assms(3)] by (auto simp: number_of_def)
qed

lemma number_of_fraction:
  assumes "list_all is_digit ip" and "list_all is_digit fp" and "ip \<noteq> []" and "exponent_part r x"
  shows "number_of neg (ip @ CHR ''.'' # fp @ r) =
           Some (Finite neg (digits_val (ip @ fp)) (x - int (length fp)))"
proof -
  have "takeWhile is_digit (ip @ CHR ''.'' # fp @ r) = ip"
    and "dropWhile is_digit (ip @ CHR ''.'' # fp @ r) = CHR ''.'' # fp @ r"
    using assms(1) takeWhile_digits [of ip "CHR ''.'' # fp @ r"]
      dropWhile_digits [of ip "CHR ''.'' # fp @ r"] by simp_all
  moreover have "takeWhile is_digit (fp @ r) = fp" and "dropWhile is_digit (fp @ r) = r"
    using assms(2) exponent_part_hd [OF assms(4)]
    by (auto intro: takeWhile_digits dropWhile_digits)
  ultimately show ?thesis
    using assms(3) exponent_of_part [OF assms(4)] by (simp add: number_of_def)
qed

text \<open>Lower case changes the letter of the exponent only, and underscores never occur.\<close>

lemma lower_char_digit [simp]: "is_digit c \<Longrightarrow> lower_char c = c"
  by (auto simp: lower_char_def is_digit_def Let_def)

lemma lower_digits [simp]: "list_all is_digit ds \<Longrightarrow> lower ds = ds"
  by (induction ds) (auto simp: lower_def)

lemma lower_append [simp]: "lower (xs @ ys) = lower xs @ lower ys"
  by (simp add: lower_def)

lemma lower_Cons [simp]: "lower (x # xs) = lower_char x # lower xs"
  by (simp add: lower_def)

lemma lower_Nil [simp]: "lower [] = []"
  by (simp add: lower_def)

lemma lower_char_marks [simp]:
  "lower_char CHR ''E'' = CHR ''e''" "lower_char CHR ''.'' = CHR ''.''"
  "lower_char CHR ''-'' = CHR ''-''" "lower_char CHR ''+'' = CHR ''+''"
  "lower_char CHR ''I'' = CHR ''i''" "lower_char CHR ''N'' = CHR ''n''"
  "lower_char CHR ''n'' = CHR ''n''" "lower_char CHR ''f'' = CHR ''f''"
  "lower_char CHR ''i'' = CHR ''i''" "lower_char CHR ''t'' = CHR ''t''"
  "lower_char CHR ''y'' = CHR ''y''" "lower_char CHR ''a'' = CHR ''a''"
  "lower_char CHR ''s'' = CHR ''s''"
  by code_simp+

lemma lower_signed [simp]: "lower (show_signed i) = show_signed i"
  by (simp add: show_signed_def)

definition plain :: "char \<Rightarrow> bool" where
  "plain c \<longleftrightarrow> is_digit c \<or> c \<in> set ''.+-EInfityasN''"

lemma plain_not_space: "plain c \<Longrightarrow> \<not> is_space c \<and> c \<noteq> CHR ''_''"
  by (auto simp: plain_def digit_not_space) (simp_all add: is_space_def code_point_def Let_def)

lemma plain_read:
  assumes "\<forall>c\<in>set s. plain c"
  shows "filter (\<lambda>c. c \<noteq> CHR ''_'') (strip s) = s"
proof -
  have "strip s = s" using assms by (intro strip_no_space) (auto dest: plain_not_space)
  moreover have "filter (\<lambda>c. c \<noteq> CHR ''_'') s = s"
    using assms by (auto intro!: filter_True dest: plain_not_space)
  ultimately show ?thesis by simp
qed

lemma digit_plain: "list_all is_digit ds \<Longrightarrow> c \<in> set ds \<Longrightarrow> plain c"
  by (auto simp: plain_def list_all_iff)

lemma show_nat_plain: "c \<in> set (show_nat n) \<Longrightarrow> plain c"
  by (auto simp: plain_def show_nat_digits)

lemma show_signed_plain: "c \<in> set (show_signed n) \<Longrightarrow> plain c"
  by (auto simp: show_signed_def show_nat_plain split: if_splits) (simp_all add: plain_def)

text \<open>The three shapes of \<open>finite_text\<close>.\<close>

lemma finite_text_plain: "list_all is_digit ds \<Longrightarrow> c \<in> set (finite_text ds e) \<Longrightarrow> plain c"
  by (auto simp: finite_text_def Let_def plain_def [of "CHR ''0''"] plain_def [of "CHR ''.''"]
      plain_def [of "CHR ''E''"] split: if_splits
      dest: digit_plain show_signed_plain in_set_takeD in_set_dropD)

lemma finite_text_read:
  assumes ds: "list_all is_digit ds" and ne: "ds \<noteq> []"
  shows "number_of neg (lower (finite_text ds e)) = Some (Finite neg (digits_val ds) e)"
proof -
  define n left where "n = int (length ds)" and "left = e + n"
  have n: "1 \<le> n" using ne by (cases ds) (simp_all add: n_def)
  have cut: "list_all is_digit (take k ds)" "list_all is_digit (drop k ds)" for k
    using ds by (auto simp: list_all_iff dest: in_set_takeD in_set_dropD)
  show ?thesis
  proof (cases "e \<le> 0 \<and> left > -6")
    case True
    consider (zeros) "left \<le> 0" | (whole) "left \<ge> n" | (point) "0 < left" "left < n" by linarith
    then show ?thesis
    proof cases
      case zeros
      have shape: "finite_text ds e = ''0'' @ CHR ''.'' # (replicate (nat (- left)) CHR ''0'' @ ds) @ []"
        using True zeros by (simp add: finite_text_def Let_def left_def n_def)
      have "number_of neg (''0'' @ CHR ''.'' # (replicate (nat (- left)) CHR ''0'' @ ds) @ []) =
          Some (Finite neg (digits_val (''0'' @ replicate (nat (- left)) CHR ''0'' @ ds))
            (0 - int (length (replicate (nat (- left)) CHR ''0'' @ ds))))"
        by (rule number_of_fraction) (use ds in \<open>auto simp: exponent_part_def\<close>)
      moreover have "digits_val (''0'' @ replicate (nat (- left)) CHR ''0'' @ ds) = digits_val ds"
        by (simp add: digits_val_Cons digits_val_append)
      moreover have "0 - int (length (replicate (nat (- left)) CHR ''0'' @ ds)) = e"
        using zeros by (simp add: left_def n_def)
      ultimately show ?thesis using ds unfolding shape by simp
    next
      case whole
      then have "e = 0" using True by (simp add: left_def)
      then have "finite_text ds e = ds @ []"
        using n ne True by (simp add: finite_text_def Let_def n_def left_def)
      then show ?thesis
        using number_of_integer [of ds "[]" 0 neg] ds ne \<open>e = 0\<close> by (simp add: exponent_part_def)
    next
      case point
      let ?k = "nat left"
      have shape: "finite_text ds e = take ?k ds @ CHR ''.'' # drop ?k ds @ []"
        using True point by (simp add: finite_text_def Let_def left_def n_def)
      have "number_of neg (take ?k ds @ CHR ''.'' # drop ?k ds @ []) =
          Some (Finite neg (digits_val (take ?k ds @ drop ?k ds)) (0 - int (length (drop ?k ds))))"
        by (rule number_of_fraction) (use cut point ne in \<open>auto simp: exponent_part_def\<close>)
      moreover have "0 - int (length (drop ?k ds)) = e"
        using point by (simp add: left_def n_def)
      ultimately show ?thesis using cut unfolding shape by simp
    qed
  next
    case False
    then have left: "left \<noteq> 1" using n by (auto simp: left_def)
    let ?x = "CHR ''e'' # show_signed (left - 1)"
    show ?thesis
    proof (cases "n = 1")
      case True
      then have shape: "finite_text ds e = ds @ CHR ''E'' # show_signed (left - 1)"
        using False left by (simp add: finite_text_def Let_def left_def n_def)
      have "number_of neg (ds @ ?x) = Some (Finite neg (digits_val ds) (left - 1))"
        by (rule number_of_integer) (use ds ne in \<open>auto simp: exponent_part_def\<close>)
      then show ?thesis using ds True unfolding shape by (simp add: left_def)
    next
      case many: False
      then have shape: "finite_text ds e =
          take 1 ds @ CHR ''.'' # drop 1 ds @ CHR ''E'' # show_signed (left - 1)"
        using False left n many by (auto simp: finite_text_def Let_def left_def n_def)
      have "number_of neg (take 1 ds @ CHR ''.'' # drop 1 ds @ ?x) =
          Some (Finite neg (digits_val (take 1 ds @ drop 1 ds)) (left - 1 - int (length (drop 1 ds))))"
        by (rule number_of_fraction) (use cut ne in \<open>auto simp: exponent_part_def\<close>)
      moreover have "left - 1 - int (length (drop 1 ds)) = e"
        using n by (simp add: left_def n_def)
      ultimately show ?thesis using cut unfolding shape by simp
    qed
  qed
qed

lemma finite_text_head:
  assumes "list_all is_digit ds" and "ds \<noteq> []"
  shows "\<exists>c t. lower (finite_text ds e) = c # t \<and> is_digit c"
proof -
  obtain d ds' where d: "ds = d # ds'" "is_digit d" using assms by (cases ds) auto
  then show ?thesis
    by (auto simp: finite_text_def Let_def take_Cons' split: if_splits)
qed

lemma unsigned_of_number:
  assumes "s = c # t" and "is_digit c"
  shows "unsigned_of neg s = number_of neg s"
  using assms by (auto simp: unsigned_of_def startswith_def)

lemma unsigned_of_words [simp]:
  "unsigned_of neg ''infinity'' = Some (Infinite neg)"
  "list_all is_digit ds \<Longrightarrow> unsigned_of neg (''nan'' @ ds) = Some (NaN neg False (digits_val ds))"
  "list_all is_digit ds \<Longrightarrow> unsigned_of neg (''snan'' @ ds) = Some (NaN neg True (digits_val ds))"
  by (simp_all add: unsigned_of_def startswith_def)

text \<open>The body of a printed decimal: all but the sign.\<close>

fun decimal_body :: "decimal \<Rightarrow> string" where
  "decimal_body (Finite neg c e) = finite_text (show_nat c) e"
| "decimal_body (Infinite neg) = ''Infinity''"
| "decimal_body (NaN neg signaling p) =
     (if signaling then ''sNaN'' else ''NaN'') @ (if p = 0 then [] else show_nat p)"

fun decimal_sign :: "decimal \<Rightarrow> bool" where
  "decimal_sign (Finite neg _ _) = neg"
| "decimal_sign (Infinite neg) = neg"
| "decimal_sign (NaN neg _ _) = neg"

lemma decimal_str_split: "decimal_str d = sign_text (decimal_sign d) @ decimal_body d"
  by (cases d) auto

lemma decimal_body_plain: "c \<in> set (decimal_body d) \<Longrightarrow> plain c"
proof (cases d)
  case (Finite neg k e)
  then show "c \<in> set (decimal_body d) \<Longrightarrow> plain c"
    by (auto intro: finite_text_plain [OF show_nat_all_digits])
qed (auto simp: show_nat_plain split: if_splits, auto simp: plain_def)

lemma decimal_body_head:
  "\<exists>c t. lower (decimal_body d) = c # t \<and> c \<noteq> CHR ''-'' \<and> c \<noteq> CHR ''+''"
proof (cases d)
  case (Finite neg k e)
  then show ?thesis
    using finite_text_head [OF show_nat_all_digits [of k] show_nat_nonempty, of e] by force
qed auto

lemma decimal_body_read: "unsigned_of (decimal_sign d) (lower (decimal_body d)) = Some d"
proof (cases d)
  case (Finite neg k e)
  obtain c t where "lower (finite_text (show_nat k) e) = c # t" "is_digit c"
    using finite_text_head [OF show_nat_all_digits [of k] show_nat_nonempty, of e] by blast
  then show ?thesis
    using Finite finite_text_read [OF show_nat_all_digits show_nat_nonempty, of neg k e]
    by (simp add: unsigned_of_number)
next
  case (NaN neg signaling p)
  then show ?thesis
    using unsigned_of_words(2,3) [of "[]" neg] unsigned_of_words(2,3) [of "show_nat p" neg]
    by auto
qed simp

lemma decimal_read: "decimal_of_text (decimal_str d) = Some d"
proof -
  have "\<forall>c\<in>set (decimal_str d). plain c"
    by (auto simp: decimal_str_split sign_text_def decimal_body_plain split: if_splits)
      (simp add: plain_def)
  then have *: "decimal_of_text (decimal_str d) =
      (case lower (decimal_str d) of
        [] \<Rightarrow> None
      | c # r \<Rightarrow> if c = CHR ''-'' then unsigned_of True r
                 else if c = CHR ''+'' then unsigned_of False r
                 else unsigned_of False (lower (decimal_str d)))"
    by (simp add: decimal_of_text_def plain_read Let_def)
  obtain c t where ct: "lower (decimal_body d) = c # t" "c \<noteq> CHR ''-''" "c \<noteq> CHR ''+''"
    using decimal_body_head by blast
  show ?thesis
    using decimal_body_read [of d] ct unfolding *
    by (cases "decimal_sign d") (simp_all add: decimal_str_split sign_text_def)
qed

lemma Decimal_str [simp]: "Decimal (decimal_str d) = Inr d"
  by (simp add: Decimal_def decimal_read)

lemma decimal_str_inj: "decimal_str a = decimal_str b \<Longrightarrow> a = b"
  by (metis decimal_read option.inject)

lemmas [text_eval] =
  Decimal_def decimal_of_text_def unsigned_of_def number_of_def exponent_of_def
  finite_text_def sign_text_def show_signed_def finite_eq_def decimal_ne_def

end
