(* ===== verification/Py_Json.thy ===== *)
theory Py_Json
  imports Py_Decimal
begin

text \<open>
  The dynamic values the source passes around as \<open>Any\<close>: event messages, provider
  responses, token claims, JSON columns. A float is carried as its \<open>repr\<close> text, which
  determines it; the source only prints floats and tests their truth. An object is a
  dictionary with text keys, in insertion order.
\<close>

datatype json =
    JNull
  | JBool bool
  | JInt int
  | JFloat string
  | JStr string
  | JArr "json list"
  | JObj "(string \<times> json) list"

section \<open>str, repr, truth value\<close>

fun repr_json :: "json \<Rightarrow> string" where
  "repr_json JNull = ''None''"
| "repr_json (JBool b) = (if b then ''True'' else ''False'')"
| "repr_json (JInt i) = show_int i"
| "repr_json (JFloat r) = r"
| "repr_json (JStr s) = repr_str s"
| "repr_json (JArr xs) = ''['' @ join '', '' (map repr_json xs) @ '']''"
| "repr_json (JObj kvs) =
     ''{'' @ join '', '' (map (\<lambda>(k, v). repr_str k @ '': '' @ repr_json v) kvs) @ ''}''"

definition str_json :: "json \<Rightarrow> string" where
  "str_json v = (case v of JStr s \<Rightarrow> s | _ \<Rightarrow> repr_json v)"

lemma str_json_JStr [simp]: "str_json (JStr s) = s"
  by (simp add: str_json_def)

fun truthy :: "json \<Rightarrow> bool" where
  "truthy JNull = False"
| "truthy (JBool b) = b"
| "truthy (JInt i) = (i \<noteq> 0)"
| "truthy (JFloat r) = (r \<noteq> ''0.0'' \<and> r \<noteq> ''-0.0'')"
| "truthy (JStr s) = (s \<noteq> [])"
| "truthy (JArr xs) = (xs \<noteq> [])"
| "truthy (JObj kvs) = (kvs \<noteq> [])"

text \<open>\<open>a or b\<close>, and \<open>isinstance(v, int)\<close> with the value (a bool is an int).\<close>

definition or_else :: "json \<Rightarrow> json \<Rightarrow> json" where
  "or_else a b = (if truthy a then a else b)"

fun as_int :: "json \<Rightarrow> int option" where
  "as_int (JInt i) = Some i"
| "as_int (JBool b) = Some (if b then 1 else 0)"
| "as_int _ = None"

text \<open>The key and the message a handler sees in \<open>str(exc)\<close>: a \<open>KeyError\<close> prints its repr.\<close>

fun str_error :: "py_error \<Rightarrow> string" where
  "str_error (KeyError k) = repr_str k"
| "str_error (ValueError m) = m"
| "str_error (JSONDecodeError m) = m"
| "str_error (TypeError m) = m"
| "str_error (AttributeError m) = m"
| "str_error (RuntimeError m) = m"
| "str_error InvalidOperation = ''[<class 'decimal.ConversionSyntax'>]''"
| "str_error (PaymentGatewayError m _ _) = m"
| "str_error (DatabaseError m) = m"
| "str_error (BrokerError m) = m"
| "str_error (BrokerValueError m) = m"
| "str_error (HTTPException c m) = show_int c @ '': '' @ m"
| "str_error (SystemExit m) = m"
| "str_error (EnvValidationError m) = m"
| "str_error (OSError m) = m"
| "str_error (ConfigError m) = m"
| "str_error (IndexError m) = m"

section \<open>Dictionary operations\<close>

definition get_default :: "(string \<times> json) list \<Rightarrow> string \<Rightarrow> json \<Rightarrow> json" where
  "get_default d k v = (case map_of d k of None \<Rightarrow> v | Some w \<Rightarrow> w)"

definition item :: "(string \<times> json) list \<Rightarrow> string \<Rightarrow> py_error + json" where
  "item d k = (case map_of d k of None \<Rightarrow> Inl (KeyError k) | Some v \<Rightarrow> Inr v)"

definition dict_update :: "('k \<times> 'v) list \<Rightarrow> ('k \<times> 'v) list \<Rightarrow> ('k \<times> 'v) list" where
  "dict_update d e = foldl (\<lambda>acc (k, v). AList.update k v acc) d e"

lemma map_of_dict_update: "distinct (map fst e) \<Longrightarrow> map_of (dict_update d e) = map_of d ++ map_of e"
proof (induction e arbitrary: d)
  case (Cons p e)
  obtain k v where p: "p = (k, v)" by (cases p)
  have "map_of e k = None" using Cons.prems p by (simp add: map_of_eq_None_iff)
  then have "(map_of d)(k \<mapsto> v) ++ map_of e = map_of d ++ (map_of e)(k \<mapsto> v)"
    by (auto simp: map_add_def fun_eq_iff split: option.splits)
  moreover have "map_of (dict_update d (p # e)) = (map_of d)(k \<mapsto> v) ++ map_of e"
    using Cons p by (simp add: dict_update_def map_of_update)
  ultimately show ?case using p by (simp add: fun_eq_iff map_add_def)
qed (simp add: dict_update_def)

lemma distinct_dict_update:
  "distinct (map fst d) \<Longrightarrow> distinct (map fst (dict_update d e))"
  by (induction e arbitrary: d) (auto simp: dict_update_def)

text \<open>
  \<open>dict(v)\<close> on a dynamic value: a copy of an object; from a sequence, one entry for each
  two-element sequence in it. Text keys only are kept, the source looks up no others.
\<close>

fun sequence_of :: "json \<Rightarrow> json list option" where
  "sequence_of (JArr xs) = Some xs"
| "sequence_of (JStr s) = Some (map (\<lambda>c. JStr [c]) s)"
| "sequence_of (JObj kvs) = Some (map (\<lambda>(k, v). JStr k) kvs)"
| "sequence_of _ = None"

fun hashable :: "json \<Rightarrow> bool" where
  "hashable (JArr _) = False"
| "hashable (JObj _) = False"
| "hashable _ = True"

fun dict_pairs :: "json list \<Rightarrow> (string \<times> json) list \<Rightarrow> py_error + (string \<times> json) list" where
  "dict_pairs [] d = Inr d"
| "dict_pairs (x # xs) d =
     (case sequence_of x of
        None \<Rightarrow> Inl (TypeError ''cannot convert dictionary update sequence element to a sequence'')
      | Some [k, v] \<Rightarrow>
          if \<not> hashable k then Inl (TypeError ''unhashable type'')
          else dict_pairs xs (case k of JStr s \<Rightarrow> AList.update s v d | _ \<Rightarrow> d)
      | Some _ \<Rightarrow> Inl (ValueError ''dictionary update sequence element has wrong length; 2 is required''))"

definition dict_of :: "json \<Rightarrow> py_error + (string \<times> json) list" where
  "dict_of v =
     (case v of
        JObj kvs \<Rightarrow> Inr kvs
      | _ \<Rightarrow> (case sequence_of v of
               None \<Rightarrow> Inl (TypeError ''object is not iterable'')
             | Some xs \<Rightarrow> dict_pairs xs []))"

lemma dict_of_JObj [simp]: "dict_of (JObj kvs) = Inr kvs"
  by (simp add: dict_of_def)

end
