(* ===== verification/Json_Text.thy ===== *)
theory Json_Text
  imports Py_Json
begin

text \<open>
  \<open>json.dumps\<close>, \<open>json.loads\<close> and UTF-8 as the source uses them. \<open>dumps\<close> takes the two
  separators; it escapes everything but printable ASCII, the library's default. \<open>loads\<close>
  is a recursive-descent reader with fuel, one unit for each nested call: a call that opens a
  value, an element or a member has consumed a character of the text since the call two above
  it, so twice the length of the text is enough. The parameter \<open>flt\<close> is the printed form of \<open>float(text)\<close>.
  A \<open>\u\<close> escape of a code point above U+00FF is outside the model (theory Py_Text); the
  reader treats it as an error, and so it does with the UTF-8 of such a code point.
\<close>

section \<open>Writing\<close>

definition hex4 :: "nat \<Rightarrow> string" where
  "hex4 n = [hex_digit (n div 4096 mod 16), hex_digit (n div 256 mod 16),
             hex_digit (n div 16 mod 16), hex_digit (n mod 16)]"

definition escape_char :: "char \<Rightarrow> string" where
  "escape_char c =
     (let n = code_point c in
      if n = 34 \<or> n = 92 then [CHR 0x5C, c]
      else if n = 10 then [CHR 0x5C, CHR ''n'']
      else if n = 13 then [CHR 0x5C, CHR ''r'']
      else if n = 9 then [CHR 0x5C, CHR ''t'']
      else if n = 12 then [CHR 0x5C, CHR ''f'']
      else if n = 8 then [CHR 0x5C, CHR ''b'']
      else if n < 32 \<or> 126 < n then CHR 0x5C # CHR ''u'' # hex4 n
      else [c])"

definition dumps_str :: "string \<Rightarrow> string" where
  "dumps_str s = CHR 0x22 # concat (map escape_char s) @ [CHR 0x22]"

definition dumps_float :: "string \<Rightarrow> string" where
  "dumps_float r =
     (if r = ''nan'' then ''NaN'' else if r = ''inf'' then ''Infinity''
      else if r = ''-inf'' then ''-Infinity'' else r)"

fun dumps :: "string \<Rightarrow> string \<Rightarrow> json \<Rightarrow> string" where
  "dumps isep ksep JNull = ''null''"
| "dumps isep ksep (JBool b) = (if b then ''true'' else ''false'')"
| "dumps isep ksep (JInt i) = show_int i"
| "dumps isep ksep (JFloat r) = dumps_float r"
| "dumps isep ksep (JStr s) = dumps_str s"
| "dumps isep ksep (JArr xs) = ''['' @ join isep (map (dumps isep ksep) xs) @ '']''"
| "dumps isep ksep (JObj kvs) =
     ''{'' @ join isep (map (\<lambda>(k, v). dumps_str k @ ksep @ dumps isep ksep v) kvs) @ ''}''"

abbreviation dumps_compact :: "json \<Rightarrow> string" where
  "dumps_compact \<equiv> dumps '','' '':''"

section \<open>Reading\<close>

definition is_ws :: "char \<Rightarrow> bool" where
  "is_ws c = (code_point c \<in> {32, 9, 10, 13})"

definition skip_ws :: "string \<Rightarrow> string" where
  "skip_ws s = dropWhile is_ws s"

fun hex_val :: "char \<Rightarrow> nat option" where
  "hex_val c =
     (let n = code_point c in
      if 48 \<le> n \<and> n \<le> 57 then Some (n - 48)
      else if 97 \<le> n \<and> n \<le> 102 then Some (n - 87)
      else if 65 \<le> n \<and> n \<le> 70 then Some (n - 55)
      else None)"

declare hex_val.simps [simp del]

definition unescape_u :: "char \<Rightarrow> char \<Rightarrow> char \<Rightarrow> char \<Rightarrow> char option" where
  "unescape_u a b c d =
     (case (hex_val a, hex_val b, hex_val c, hex_val d) of
        (Some w, Some x, Some y, Some z) \<Rightarrow>
          (let n = w * 4096 + x * 256 + y * 16 + z in if n < 256 then Some (char_of n) else None)
      | _ \<Rightarrow> None)"

definition unescape :: "char \<Rightarrow> char option" where
  "unescape c =
     (let n = code_point c in
      if n = 34 \<or> n = 92 \<or> n = 47 then Some c
      else if c = CHR ''n'' then Some (char_of (10::nat))
      else if c = CHR ''r'' then Some (char_of (13::nat))
      else if c = CHR ''t'' then Some (char_of (9::nat))
      else if c = CHR ''f'' then Some (char_of (12::nat))
      else if c = CHR ''b'' then Some (char_of (8::nat))
      else None)"

text \<open>The rest of a string literal, after its opening quote: its text and what follows.\<close>

fun scan_str :: "string \<Rightarrow> (string \<times> string) option" where
  "scan_str [] = None"
| "scan_str (c # cs) =
     (if code_point c = 34 then Some ([], cs)
      else if code_point c < 32 then None
      else if code_point c \<noteq> 92 then map_option (\<lambda>(s, r). (c # s, r)) (scan_str cs)
      else (case cs of
          [] \<Rightarrow> None
        | d # ds \<Rightarrow>
            if d = CHR ''u'' then
              (case ds of
                 h1 # h2 # h3 # h4 # r \<Rightarrow>
                   (case unescape_u h1 h2 h3 h4 of
                      None \<Rightarrow> None
                    | Some x \<Rightarrow> map_option (\<lambda>(s, t). (x # s, t)) (scan_str r))
               | _ \<Rightarrow> None)
            else (case unescape d of
                None \<Rightarrow> None
              | Some x \<Rightarrow> map_option (\<lambda>(s, t). (x # s, t)) (scan_str ds))))"

text \<open>
  A number: an optional minus, an integer part without superfluous zeros, an optional
  fraction and an optional exponent; without the last two it is an int, which \<open>int\<close> refuses
  when it is too long (with a ValueError, of which JSONDecodeError is a kind).
\<close>

definition scan_frac :: "string \<Rightarrow> string \<times> string" where
  "scan_frac s =
     (case s of
        c # d # t \<Rightarrow> if c = CHR ''.'' \<and> is_digit d
          then (c # takeWhile is_digit (d # t), dropWhile is_digit (d # t)) else ([], s)
      | _ \<Rightarrow> ([], s))"

definition scan_exp :: "string \<Rightarrow> string \<times> string" where
  "scan_exp s =
     (case s of
        c # t \<Rightarrow>
          if c = CHR ''e'' \<or> c = CHR ''E'' then
            (let (sg, u) = (case t of d # v \<Rightarrow> if d = CHR ''+'' \<or> d = CHR ''-'' then ([d], v) else ([], t)
                                    | [] \<Rightarrow> ([], []))
             in if takeWhile is_digit u = [] then ([], s)
                else (c # sg @ takeWhile is_digit u, dropWhile is_digit u))
          else ([], s)
      | [] \<Rightarrow> ([], []))"

definition scan_number :: "(string \<Rightarrow> string) \<Rightarrow> string \<Rightarrow> (json \<times> string) option" where
  "scan_number flt s =
     (let (neg, t) = (case s of c # u \<Rightarrow> if c = CHR ''-'' then (True, u) else (False, s)
                             | [] \<Rightarrow> (False, []));
          ds = (case t of c # u \<Rightarrow> if c = CHR ''0'' then [c] else takeWhile is_digit t | [] \<Rightarrow> []);
          r = drop (length ds) t
      in if ds = [] then None
         else (let (fr, r1) = scan_frac r; (ex, r2) = scan_exp r1 in
           if fr = [] \<and> ex = []
           then (if max_int_digits < length ds then None
                 else Some (JInt (if neg then - int (digits_val ds) else int (digits_val ds)), r2))
           else Some (JFloat (flt ((if neg then ''-'' else []) @ ds @ fr @ ex)), r2)))"

definition scan_words :: "(string \<times> json) list" where
  "scan_words =
     [(''null'', JNull), (''true'', JBool True), (''false'', JBool False),
      (''NaN'', JFloat ''nan''), (''Infinity'', JFloat ''inf''), (''-Infinity'', JFloat ''-inf'')]"

definition scan_atom :: "(string \<Rightarrow> string) \<Rightarrow> string \<Rightarrow> (json \<times> string) option" where
  "scan_atom flt s =
     (case find (\<lambda>(w, v). startswith s w) scan_words of
        Some (w, v) \<Rightarrow> Some (v, drop (length w) s)
      | None \<Rightarrow> scan_number flt s)"

text \<open>
  A value, the elements of an array after \<open>[\<close>, the members of an object after \<open>{\<close>. The
  pairs of an object are entered one after the other, so a repeated key keeps its last value.
\<close>

fun scan_value :: "(string \<Rightarrow> string) \<Rightarrow> nat \<Rightarrow> string \<Rightarrow> (json \<times> string) option"
  and scan_elems :: "(string \<Rightarrow> string) \<Rightarrow> nat \<Rightarrow> string \<Rightarrow> (json list \<times> string) option"
  and scan_members ::
    "(string \<Rightarrow> string) \<Rightarrow> nat \<Rightarrow> string \<Rightarrow> (string \<times> json) list \<Rightarrow> ((string \<times> json) list \<times> string) option"
where
  "scan_value flt 0 s = None"
| "scan_value flt (Suc n) s =
     (case s of
        [] \<Rightarrow> None
      | c # cs \<Rightarrow>
          if c = CHR 0x22 then map_option (\<lambda>(t, r). (JStr t, r)) (scan_str cs)
          else if c = CHR ''['' then
            (case skip_ws cs of
               d # r \<Rightarrow> if d = CHR '']'' then Some (JArr [], r)
                        else map_option (\<lambda>(xs, r). (JArr xs, r)) (scan_elems flt n (d # r))
             | [] \<Rightarrow> None)
          else if c = CHR ''{'' then
            (case skip_ws cs of
               d # r \<Rightarrow> if d = CHR ''}'' then Some (JObj [], r)
                        else map_option (\<lambda>(kvs, r). (JObj kvs, r)) (scan_members flt n (d # r) [])
             | [] \<Rightarrow> None)
          else scan_atom flt s)"
| "scan_elems flt 0 s = None"
| "scan_elems flt (Suc n) s =
     (case scan_value flt n s of
        None \<Rightarrow> None
      | Some (v, r) \<Rightarrow>
          (case skip_ws r of
             d # t \<Rightarrow> if d = CHR '']'' then Some ([v], t)
                      else if d = CHR '','' then map_option (\<lambda>(xs, u). (v # xs, u)) (scan_elems flt n (skip_ws t))
                      else None
           | [] \<Rightarrow> None))"
| "scan_members flt 0 s d = None"
| "scan_members flt (Suc n) s d =
     (case s of
        q # cs \<Rightarrow>
          if q \<noteq> CHR 0x22 then None
          else (case scan_str cs of
              None \<Rightarrow> None
            | Some (k, r) \<Rightarrow>
                (case skip_ws r of
                   col # t \<Rightarrow>
                     if col \<noteq> CHR '':'' then None
                     else (case scan_value flt n (skip_ws t) of
                         None \<Rightarrow> None
                       | Some (v, u) \<Rightarrow>
                           (case skip_ws u of
                              x # w \<Rightarrow>
                                if x = CHR ''}'' then Some (AList.update k v d, w)
                                else if x = CHR '','' then
                                  scan_members flt n (skip_ws w) (AList.update k v d)
                                else None
                            | [] \<Rightarrow> None))
                 | [] \<Rightarrow> None))
      | [] \<Rightarrow> None)"

definition loads :: "(string \<Rightarrow> string) \<Rightarrow> string \<Rightarrow> py_error + json" where
  "loads flt text =
     (let s = skip_ws text in
      case scan_value flt (2 * length s + 2) s of
        Some (v, r) \<Rightarrow> if skip_ws r = [] then Inr v else Inl (JSONDecodeError ''Extra data'')
      | None \<Rightarrow> Inl (JSONDecodeError ''Expecting value''))"

section \<open>UTF-8\<close>

definition utf8_encode :: "string \<Rightarrow> string" where
  "utf8_encode s =
     concat (map (\<lambda>c. let n = code_point c in
       if n < 128 then [c] else [char_of (192 + n div 64), char_of (128 + n mod 64)]) s)"

fun utf8_decode :: "string \<Rightarrow> string option" where
  "utf8_decode [] = Some []"
| "utf8_decode (c # cs) =
     (if code_point c < 128 then map_option ((#) c) (utf8_decode cs)
      else if code_point c = 194 \<or> code_point c = 195 then
        (case cs of
           d # ds \<Rightarrow>
             if 128 \<le> code_point d \<and> code_point d < 192
             then map_option ((#) (char_of ((code_point c - 192) * 64 + (code_point d - 128))))
                    (utf8_decode ds)
             else None
         | [] \<Rightarrow> None)
      else None)"

text \<open>\<open>json.loads(body.decode("utf-8"))\<close>: a body that is no UTF-8 raises a ValueError too.\<close>

definition loads_bytes :: "(string \<Rightarrow> string) \<Rightarrow> string \<Rightarrow> py_error + json" where
  "loads_bytes flt body =
     (case utf8_decode body of
        None \<Rightarrow> Inl (ValueError ''invalid utf-8'')
      | Some text \<Rightarrow> loads flt text)"

end
