(* ===== verification/Json_Proofs.thy ===== *)
theory Json_Proofs
  imports Json_Text
begin

text \<open>
  Proofs about \<open>dumps\<close> and \<open>loads\<close>: what \<open>dumps\<close> writes \<open>loads\<close> reads back, the fuel of
  \<open>loads\<close> is always enough, and UTF-8 decoding undoes encoding.
\<close>

section \<open>Reading back what was written\<close>

lemma less_16_cases: "n < 16 \<Longrightarrow> n < 10 \<or> n = 10 \<or> n = 11 \<or> n = 12 \<or> n = 13 \<or> n = 14 \<or> n = (15::nat)"
  by arith

lemma hex_val_digit [simp]:
  assumes "n < 16"
  shows "hex_val (hex_digit n) = Some n"
proof -
  have "\<forall>n \<in> set [0..<16]. hex_val (hex_digit n) = Some n"
    by code_simp
  then show ?thesis using assms by simp
qed

lemma unescape_hex4:
  assumes "n < 256"
  shows "unescape_u (hex_digit (n div 4096 mod 16)) (hex_digit (n div 256 mod 16))
           (hex_digit (n div 16 mod 16)) (hex_digit (n mod 16)) = Some (char_of n)"
proof -
  have "n div 16 * 16 + n mod 16 = n" by simp
  then show ?thesis using assms by (simp add: unescape_u_def Let_def)
qed

lemma code_point_eq_iff: "code_point c = code_point d \<longleftrightarrow> c = d"
  by (auto dest: code_point_inj)

lemma code_point_special:
  "code_point c = 34 \<longleftrightarrow> c = CHR 0x22" "code_point c = 92 \<longleftrightarrow> c = CHR 0x5C"
  "code_point c = 10 \<longleftrightarrow> c = CHR 0x0A" "code_point c = 13 \<longleftrightarrow> c = CHR 0x0D"
  "code_point c = 9 \<longleftrightarrow> c = CHR 0x09" "code_point c = 12 \<longleftrightarrow> c = CHR 0x0C"
  "code_point c = 8 \<longleftrightarrow> c = CHR 0x08"
  by (auto intro: code_point_inj simp: code_point_def)

lemma scan_escape_u:
  "scan_str (CHR 0x5C # CHR ''u'' # hex4 (code_point c) @ r) =
     map_option (\<lambda>(s, t). (c # s, t)) (scan_str r)"
proof -
  have "char_of (code_point c) = c" by (simp add: code_point_def)
  then show ?thesis
    using unescape_hex4 [of "code_point c"]
    by (simp add: hex4_def code_point_def [of "CHR 0x5C"])
qed

lemma scan_plain:
  "code_point c \<noteq> 34 \<Longrightarrow> code_point c \<noteq> 92 \<Longrightarrow> 32 \<le> code_point c \<Longrightarrow>
     scan_str (c # r) = map_option (\<lambda>(s, t). (c # s, t)) (scan_str r)"
  by simp

lemma scan_escape_special:
  assumes "c \<in> {CHR 0x22, CHR 0x5C, CHR 0x0A, CHR 0x0D, CHR 0x09, CHR 0x0C, CHR 0x08}"
  shows "scan_str (escape_char c @ r) = map_option (\<lambda>(s, t). (c # s, t)) (scan_str r)"
  using assms
  by (elim insertE; simp add: escape_char_def unescape_def code_point_def char_of_def bit_0)

lemma scan_escape: "scan_str (escape_char c @ r) = map_option (\<lambda>(s, t). (c # s, t)) (scan_str r)"
proof (cases "code_point c \<in> {34, 92, 10, 13, 9, 12, 8}")
  case True
  then show ?thesis by (intro scan_escape_special) (auto simp: code_point_special)
next
  case other: False
  show ?thesis
  proof (cases "code_point c < 32 \<or> 126 < code_point c")
    case True
    then have "escape_char c = CHR 0x5C # CHR ''u'' # hex4 (code_point c)"
      using other by (auto simp: escape_char_def Let_def)
    then show ?thesis using scan_escape_u by simp
  next
    case False
    then have "escape_char c = [c]"
      using other by (auto simp: escape_char_def Let_def)
    then show ?thesis using other False scan_plain [of c r] by simp
  qed
qed

lemma scan_dumps_str [simp]:
  "scan_str (concat (map escape_char s) @ CHR 0x22 # r) = Some (s, r)"
proof (induction s)
  case Nil
  show ?case by (simp add: code_point_def)
next
  case (Cons c s)
  then show ?case by (simp add: scan_escape del: scan_str.simps)
qed

text \<open>Numbers. \<open>number_end r\<close>: what follows does not continue a number.\<close>

definition number_end :: "string \<Rightarrow> bool" where
  "number_end r \<longleftrightarrow> r = [] \<or> hd r \<in> {CHR '','', CHR '']'', CHR ''}''}"

definition int_part :: "string \<Rightarrow> bool" where
  "int_part ds \<longleftrightarrow> ds \<noteq> [] \<and> list_all is_digit ds \<and> (hd ds = CHR ''0'' \<longrightarrow> ds = ''0'')"

definition frac_part :: "string \<Rightarrow> bool" where
  "frac_part fr \<longleftrightarrow> fr = [] \<or> (\<exists>d ds. fr = CHR ''.'' # d # ds \<and> list_all is_digit (d # ds))"

definition exp_part :: "string \<Rightarrow> bool" where
  "exp_part ex \<longleftrightarrow> ex = [] \<or>
     (\<exists>sg d ds. ex = CHR ''e'' # sg @ d # ds \<and> (sg = [] \<or> sg = ''+'' \<or> sg = ''-'') \<and> list_all is_digit (d # ds))"

definition float_text :: "string \<Rightarrow> bool" where
  "float_text r \<longleftrightarrow> r = ''nan'' \<or> r = ''inf'' \<or> r = ''-inf'' \<or>
     (\<exists>sg ip fr ex. r = sg @ ip @ fr @ ex \<and> (sg = [] \<or> sg = ''-'') \<and> int_part ip \<and>
        frac_part fr \<and> exp_part ex \<and> \<not> (fr = [] \<and> ex = []))"

lemma not_digit_ends [simp]:
  "\<not> is_digit CHR '',''" "\<not> is_digit CHR '']''" "\<not> is_digit CHR ''}''"
  "\<not> is_digit CHR ''I''" "\<not> is_digit CHR ''N''" "\<not> is_digit CHR ''t''" "\<not> is_digit CHR ''f''"
  by (simp_all add: is_digit_def code_point_def)

lemma number_end_cases:
  assumes "number_end r"
  obtains "r = []" | t where "r = CHR '','' # t" | t where "r = CHR '']'' # t" | t where "r = CHR ''}'' # t"
  using assms by (cases r) (auto simp: number_end_def)

lemma show_nat_head: "0 < n \<Longrightarrow> hd (show_nat n) \<noteq> CHR ''0''"
proof (induction n rule: show_nat.induct)
  case (1 n)
  show ?case
  proof (cases "n < 10")
    case True
    then show ?thesis
      using 1 less_10_cases [OF True] by (auto simp: show_nat.simps [of n] digit_char_def)
  next
    case False
    then show ?thesis
      using 1 by (simp add: show_nat.simps [of n])
  qed
qed

lemma show_nat_int_part [simp]: "int_part (show_nat n)"
  by (cases "n = 0") (auto simp: int_part_def show_nat_head, auto simp: show_nat.simps digit_char_def)

lemma takeWhile_end: "list_all is_digit ds \<Longrightarrow> number_end r \<Longrightarrow> takeWhile is_digit (ds @ r) = ds"
  by (rule takeWhile_digits) (auto elim!: number_end_cases)

lemma dropWhile_end: "list_all is_digit ds \<Longrightarrow> number_end r \<Longrightarrow> dropWhile is_digit (ds @ r) = r"
  by (rule dropWhile_digits) (auto elim!: number_end_cases)

lemma scan_exp_part:
  assumes "exp_part ex" and "number_end r"
  shows "scan_exp (ex @ r) = (ex, r)"
proof (cases "ex = []")
  case True
  then show ?thesis using assms(2) by (elim number_end_cases) (auto simp: scan_exp_def)
next
  case False
  then obtain sg d ds where ex: "ex = CHR ''e'' # sg @ d # ds" and sg: "sg = [] \<or> sg = ''+'' \<or> sg = ''-''"
    and d: "list_all is_digit (d # ds)" using assms(1) by (auto simp: exp_part_def)
  have cut: "takeWhile is_digit (d # ds @ r) = d # ds" "dropWhile is_digit (d # ds @ r) = r"
    using takeWhile_end [OF d assms(2)] dropWhile_end [OF d assms(2)] by simp_all
  have "d \<noteq> CHR ''+''" "d \<noteq> CHR ''-''" using d by auto
  then show ?thesis using sg cut by (auto simp: ex scan_exp_def simp del: takeWhile.simps dropWhile.simps)
qed

lemma exp_head:
  assumes "exp_part ex" and "number_end r"
  shows "ex @ r = [] \<or> (\<not> is_digit (hd (ex @ r)) \<and> hd (ex @ r) \<noteq> CHR ''.'')"
  using assms by (auto simp: exp_part_def elim!: number_end_cases)

lemma scan_frac_part:
  assumes "frac_part fr" and "exp_part ex" and "number_end r"
  shows "scan_frac (fr @ ex @ r) = (fr, ex @ r)"
proof (cases "fr = []")
  case True
  then show ?thesis
    using exp_head [OF assms(2,3)] by (cases "ex @ r") (auto simp: scan_frac_def split: list.splits)
next
  case False
  then obtain d ds where fr: "fr = CHR ''.'' # d # ds" and d: "list_all is_digit (d # ds)"
    using assms(1) by (auto simp: frac_part_def)
  have "takeWhile is_digit ((d # ds) @ ex @ r) = d # ds" "dropWhile is_digit ((d # ds) @ ex @ r) = ex @ r"
    using d exp_head [OF assms(2,3)] by (blast intro: takeWhile_digits dropWhile_digits)+
  then show ?thesis using d by (simp add: fr scan_frac_def del: takeWhile.simps dropWhile.simps)
qed

lemma frac_head:
  assumes "frac_part fr" and "exp_part ex" and "number_end r"
  shows "fr @ ex @ r = [] \<or> \<not> is_digit (hd (fr @ ex @ r))"
  using assms by (auto simp: frac_part_def exp_part_def elim!: number_end_cases)

lemma scan_number_parts:
  assumes ip: "int_part ip" and fr: "frac_part fr" and ex: "exp_part ex" and r: "number_end r"
    and sg: "sg = [] \<or> sg = ''-''" and short: "fr = [] \<and> ex = [] \<Longrightarrow> length ip \<le> max_int_digits"
  shows "scan_number flt (sg @ ip @ fr @ ex @ r) = Some
     (if fr = [] \<and> ex = []
      then JInt (if sg = [] then int (digits_val ip) else - int (digits_val ip))
      else JFloat (flt (sg @ ip @ fr @ ex)), r)"
proof -
  obtain c cs where c: "ip = c # cs" "is_digit c" using ip by (cases ip) (auto simp: int_part_def)
  define rest where "rest = fr @ ex @ r"
  have minus: "(case sg @ ip @ rest of u # us \<Rightarrow> if u = CHR ''-'' then (True, us) else (False, sg @ ip @ rest)
                  | [] \<Rightarrow> (False, [])) = (sg \<noteq> [], ip @ rest)"
    using sg c by auto
  have "takeWhile is_digit (ip @ rest) = ip"
    unfolding rest_def using ip frac_head [OF fr ex r] by (intro takeWhile_digits) (auto simp: int_part_def)
  moreover have "c = CHR ''0'' \<Longrightarrow> ip = [c]"
    using ip c by (auto simp: int_part_def)
  ultimately have digits: "(case ip @ rest of u # us \<Rightarrow> if u = CHR ''0'' then [u] else takeWhile is_digit (ip @ rest)
                  | [] \<Rightarrow> []) = ip"
    by (cases "c = CHR ''0''") (simp_all add: c(1) del: takeWhile.simps)
  have "scan_frac rest = (fr, ex @ r)" unfolding rest_def by (rule scan_frac_part [OF fr ex r])
  then have "scan_number flt (sg @ ip @ rest) = Some
     (if fr = [] \<and> ex = []
      then JInt (if sg = [] then int (digits_val ip) else - int (digits_val ip))
      else JFloat (flt ((if sg \<noteq> [] then ''-'' else []) @ ip @ fr @ ex)), r)"
    unfolding scan_number_def minus prod.case digits Let_def
    using c scan_exp_part [OF ex r] short by (auto simp: not_less)
  then show ?thesis using sg by (auto simp: rest_def)
qed

lemma scan_words_digit:
  assumes "is_digit c"
  shows "find (\<lambda>(w, v). startswith (c # t) w) scan_words = None"
    and "find (\<lambda>(w, v). startswith (CHR ''-'' # c # t) w) scan_words = None"
proof -
  have c: "c \<noteq> CHR ''n''" "c \<noteq> CHR ''t''" "c \<noteq> CHR ''f''" "c \<noteq> CHR ''N''" "c \<noteq> CHR ''I''" "c \<noteq> CHR ''-''"
    using assms by auto
  then show "find (\<lambda>(w, v). startswith (c # t) w) scan_words = None"
    by (simp add: scan_words_def startswith_def)
  show "find (\<lambda>(w, v). startswith (CHR ''-'' # c # t) w) scan_words = None"
    using c by (simp add: scan_words_def startswith_def)
qed

lemma scan_atom_parts:
  assumes "int_part ip" and "frac_part fr" and "exp_part ex" and "number_end r"
    and "sg = [] \<or> sg = ''-''" and "fr = [] \<and> ex = [] \<Longrightarrow> length ip \<le> max_int_digits"
  shows "scan_atom flt (sg @ ip @ fr @ ex @ r) = Some
     (if fr = [] \<and> ex = []
      then JInt (if sg = [] then int (digits_val ip) else - int (digits_val ip))
      else JFloat (flt (sg @ ip @ fr @ ex)), r)"
proof -
  obtain c cs where c: "ip = c # cs" "is_digit c"
    using assms(1) by (cases ip) (auto simp: int_part_def)
  then have "find (\<lambda>(w, v). startswith (sg @ ip @ fr @ ex @ r) w) scan_words = None"
    using assms(5) scan_words_digit by auto
  then show ?thesis
    using scan_number_parts [OF assms] by (simp add: scan_atom_def)
qed

lemma scan_atom_int:
  "number_end r \<Longrightarrow> length (show_nat (nat \<bar>i\<bar>)) \<le> max_int_digits \<Longrightarrow> scan_atom flt (show_int i @ r) = Some (JInt i, r)"
  using scan_atom_parts [of "show_nat (nat \<bar>i\<bar>)" "[]" "[]" r "if i < 0 then ''-'' else []" flt]
  by (auto simp: show_int_def frac_part_def exp_part_def split: if_splits)

lemma scan_atom_float:
  assumes "float_text t" and "flt t = t" and "number_end r"
  shows "scan_atom flt (dumps_float t @ r) = Some (JFloat t, r)"
proof -
  consider "t = ''nan''" | "t = ''inf''" | "t = ''-inf''"
    | (num) sg ip fr ex where "t = sg @ ip @ fr @ ex" "sg = [] \<or> sg = ''-''" "int_part ip"
        "frac_part fr" "exp_part ex" "\<not> (fr = [] \<and> ex = [])"
    using assms(1) by (auto simp: float_text_def)
  then show ?thesis
  proof cases
    case num
    obtain c cs where c: "ip = c # cs" "is_digit c"
      using num(3) by (cases ip) (auto simp: int_part_def)
    have "t \<noteq> ''nan'' \<and> t \<noteq> ''inf'' \<and> t \<noteq> ''-inf''"
      using num(1,2) c by auto
    then show ?thesis
      using scan_atom_parts [OF num(3-5) assms(3) num(2)] num(1,6) assms(2)
      by (simp add: dumps_float_def)
  qed (simp_all add: dumps_float_def scan_atom_def scan_words_def startswith_def)
qed

section \<open>The round trip\<close>

text \<open>
  The values \<open>dumps\<close> writes faithfully: floats in their printed form, integers that are not too
  long to be printed, objects that are dictionaries (no key twice).
\<close>

fun json_ok :: "(string \<Rightarrow> string) \<Rightarrow> json \<Rightarrow> bool" where
  "json_ok flt (JFloat r) = (float_text r \<and> flt r = r)"
| "json_ok flt (JInt i) = (length (show_nat (nat \<bar>i\<bar>)) \<le> max_int_digits)"
| "json_ok flt (JArr xs) = list_all (json_ok flt) xs"
| "json_ok flt (JObj kvs) = (distinct (map fst kvs) \<and> list_all (\<lambda>(k, v). json_ok flt v) kvs)"
| "json_ok flt _ = True"

definition value_head :: "string \<Rightarrow> bool" where
  "value_head s \<longleftrightarrow> s \<noteq> [] \<and> \<not> is_ws (hd s) \<and> hd s \<noteq> CHR '']''"

lemma digit_not_ws: "is_digit c \<Longrightarrow> \<not> is_ws c"
  by (auto simp: is_digit_def is_ws_def)

lemma not_ws [simp]:
  "\<not> is_ws CHR '',''" "\<not> is_ws CHR '']''" "\<not> is_ws CHR ''}''" "\<not> is_ws CHR ''[''" "\<not> is_ws CHR ''{''"
  "\<not> is_ws CHR 0x22" "\<not> is_ws CHR '':''" "\<not> is_ws CHR ''-''" "\<not> is_ws CHR ''n''"
  "\<not> is_ws CHR ''t''" "\<not> is_ws CHR ''f''" "\<not> is_ws CHR ''N''" "\<not> is_ws CHR ''I''"
  by (simp_all add: is_ws_def code_point_def)

lemma int_part_head: "int_part ip \<Longrightarrow> \<exists>c t. ip = c # t \<and> is_digit c"
  by (cases ip) (auto simp: int_part_def)

lemma digit_head:
  "is_digit c \<Longrightarrow> c \<noteq> CHR 0x22 \<and> c \<noteq> CHR ''['' \<and> c \<noteq> CHR ''{'' \<and> c \<noteq> CHR '']'' \<and> \<not> is_ws c"
  by (auto simp: digit_not_ws is_digit_def code_point_def)

text \<open>An atom starts with none of the marks of strings, arrays and objects.\<close>

definition atom_head :: "string \<Rightarrow> bool" where
  "atom_head s \<longleftrightarrow> value_head s \<and> hd s \<noteq> CHR 0x22 \<and> hd s \<noteq> CHR ''['' \<and> hd s \<noteq> CHR ''{''"

lemma atom_head_digits: "int_part ip \<Longrightarrow> atom_head (ip @ r) \<and> atom_head (CHR ''-'' # ip @ r)"
  by (auto simp: atom_head_def value_head_def dest!: int_part_head dest: digit_head)

lemma atom_head_int: "atom_head (show_int i @ r)"
  using atom_head_digits [of "show_nat (nat i)" r] atom_head_digits [of "show_nat (nat (- i))" r]
  by (simp add: show_int_def)

lemma atom_head_float: "float_text t \<Longrightarrow> atom_head (dumps_float t @ r)"
  using atom_head_digits
  by (auto simp: float_text_def dumps_float_def atom_head_def value_head_def)

lemma dumps_value_head: "json_ok flt j \<Longrightarrow> value_head (dumps isep ksep j @ r)"
  using atom_head_int atom_head_float
  by (cases j) (auto simp: value_head_def atom_head_def dumps_str_def)

lemma skip_ws_value: "value_head s \<Longrightarrow> skip_ws s = s"
  by (cases s) (auto simp: skip_ws_def value_head_def)

lemma skip_ws_marks [simp]:
  "skip_ws (CHR '','' # r) = CHR '','' # r" "skip_ws (CHR '']'' # r) = CHR '']'' # r"
  "skip_ws (CHR ''}'' # r) = CHR ''}'' # r" "skip_ws (CHR '':'' # r) = CHR '':'' # r"
  "skip_ws (CHR 0x22 # r) = CHR 0x22 # r" "skip_ws [] = []"
  by (simp_all add: skip_ws_def)

lemma scan_value_atom:
  "atom_head s \<Longrightarrow> scan_value flt (Suc n) s = scan_atom flt s"
  by (cases s) (auto simp: atom_head_def value_head_def)

lemma scan_elems_dumps:
  assumes "\<And>x r n. x \<in> set xs \<Longrightarrow> number_end r \<Longrightarrow> 2 * length (dumps_compact x) \<le> n \<Longrightarrow>
             scan_value flt n (dumps_compact x @ r) = Some (x, r)"
    and "\<forall>x\<in>set xs. json_ok flt x" and "xs \<noteq> []"
    and "2 * length (join '','' (map dumps_compact xs)) + 1 \<le> n"
  shows "scan_elems flt n (join '','' (map dumps_compact xs) @ CHR '']'' # r) = Some (xs, r)"
  using assms
proof (induction xs arbitrary: n)
  case outer: (Cons x xs)
  then obtain m where n: "n = Suc m" by (cases n) auto
  note scan = outer.prems(1) and ok = outer.prems(2) and fuel = outer.prems(4)
  show ?case
  proof (cases xs)
    case Nil
    have "scan_value flt m (dumps_compact x @ CHR '']'' # r) = Some (x, CHR '']'' # r)"
      using scan [of x] fuel n Nil by (simp add: number_end_def)
    then show ?thesis using n Nil by simp
  next
    case (Cons y ys)
    let ?rest = "join '','' (map dumps_compact xs) @ CHR '']'' # r"
    have j: "join '','' (map dumps_compact (x # xs)) =
        dumps_compact x @ CHR '','' # join '','' (map dumps_compact xs)"
      using Cons by simp
    have "scan_value flt m (dumps_compact x @ CHR '','' # ?rest) = Some (x, CHR '','' # ?rest)"
      using scan [of x] fuel n j by (simp add: number_end_def)
    moreover have "skip_ws ?rest = ?rest"
      using ok Cons dumps_value_head [of flt y] by (cases ys) (auto intro!: skip_ws_value)
    moreover have "scan_elems flt m ?rest = Some (xs, r)"
      by (rule outer.IH) (use scan ok fuel Cons n j in auto)
    ultimately show ?thesis unfolding n j by simp
  qed
qed simp

lemma scan_members_dumps:
  assumes "\<And>k v r n. (k, v) \<in> set kvs \<Longrightarrow> number_end r \<Longrightarrow> 2 * length (dumps_compact v) \<le> n \<Longrightarrow>
             scan_value flt n (dumps_compact v @ r) = Some (v, r)"
    and "\<forall>(k, v)\<in>set kvs. json_ok flt v" and "kvs \<noteq> []"
    and "distinct (map fst (acc @ kvs))"
    and "2 * length (join '','' (map (\<lambda>(k, v). dumps_str k @ '':'' @ dumps_compact v) kvs)) + 1 \<le> n"
  shows "scan_members flt n
           (join '','' (map (\<lambda>(k, v). dumps_str k @ '':'' @ dumps_compact v) kvs) @ CHR ''}'' # r) acc =
         Some (acc @ kvs, r)"
  using assms
proof (induction kvs arbitrary: n acc)
  case outer: (Cons p kvs)
  obtain k v where p: "p = (k, v)" by (cases p)
  obtain m where n: "n = Suc m" using outer.prems(5) by (cases n) auto
  note scan = outer.prems(1) and ok = outer.prems(2) and fuel = outer.prems(5)
  have "k \<notin> fst ` set acc" using outer.prems(4) p by auto
  then have upd: "AList.update k v acc = acc @ [(k, v)]"
    by (induction acc) auto
  have head: "value_head (dumps_compact v @ t)" for t
    using ok p dumps_value_head by auto
  show ?case
  proof (cases kvs)
    case Nil
    have "scan_value flt m (dumps_compact v @ CHR ''}'' # r) = Some (v, CHR ''}'' # r)"
      using scan [of k v] fuel n Nil p by (simp add: number_end_def)
    then show ?thesis using n Nil p upd head by (simp add: dumps_str_def skip_ws_value)
  next
    case (Cons y ys)
    let ?members = "join '','' (map (\<lambda>(k, v). dumps_str k @ '':'' @ dumps_compact v) kvs)"
    let ?rest = "?members @ CHR ''}'' # r"
    have j: "join '','' (map (\<lambda>(k, v). dumps_str k @ '':'' @ dumps_compact v) (p # kvs)) =
        dumps_str k @ CHR '':'' # dumps_compact v @ CHR '','' # ?members"
      using Cons p by simp
    have "scan_value flt m (dumps_compact v @ CHR '','' # ?rest) = Some (v, CHR '','' # ?rest)"
      using scan [of k v] fuel n j p by (simp add: number_end_def)
    moreover have "skip_ws ?rest = ?rest"
      using Cons by (cases ys) (auto simp: dumps_str_def split: prod.splits)
    moreover have "scan_members flt m ?rest (acc @ [(k, v)]) = Some ((acc @ [(k, v)]) @ kvs, r)"
      by (rule outer.IH) (use scan ok fuel Cons n j p outer.prems(4) in auto)
    ultimately show ?thesis
      unfolding n j using upd head p by (simp add: dumps_str_def skip_ws_value)
  qed
qed simp

lemma scan_value_dumps:
  "json_ok flt j \<Longrightarrow> number_end r \<Longrightarrow> 2 * length (dumps_compact j) \<le> n \<Longrightarrow>
     scan_value flt n (dumps_compact j @ r) = Some (j, r)"
proof (induction j arbitrary: r n)
  case (JArr xs)
  obtain m where n: "n = Suc m" using JArr.prems(3) by (cases n) auto
  show ?case
  proof (cases xs)
    case (Cons y ys)
    have "scan_elems flt m (join '','' (map dumps_compact xs) @ CHR '']'' # r) = Some (xs, r)"
      by (rule scan_elems_dumps) (use JArr n Cons in \<open>auto simp: list_all_iff\<close>)
    moreover have "value_head (join '','' (map dumps_compact xs) @ CHR '']'' # r)"
      using JArr.prems(1) Cons dumps_value_head [of flt y] by (cases ys) (auto simp: list_all_iff)
    then obtain c t where "join '','' (map dumps_compact xs) @ CHR '']'' # r = c # t"
      "c \<noteq> CHR '']''" "skip_ws (c # t) = c # t"
      by (metis skip_ws_value value_head_def list.exhaust_sel)
    ultimately show ?thesis by (simp add: n)
  qed (simp add: n)
next
  case (JObj kvs)
  obtain m where n: "n = Suc m" using JObj.prems(3) by (cases n) auto
  show ?case
  proof (cases kvs)
    case (Cons y ys)
    let ?s = "join '','' (map (\<lambda>(k, v). dumps_str k @ '':'' @ dumps_compact v) kvs) @ CHR ''}'' # r"
    have "scan_members flt m ?s [] = Some ([] @ kvs, r)"
      by (rule scan_members_dumps) (use JObj n Cons in \<open>fastforce simp: list_all_iff\<close>)+
    moreover have "\<exists>t. ?s = CHR 0x22 # t"
      using Cons by (cases ys) (auto simp: dumps_str_def split: prod.splits)
    ultimately show ?thesis by (auto simp: n)
  qed (simp add: n)
next
  case (JStr s)
  then show ?case by (cases n) (simp_all add: dumps_str_def)
next
  case (JInt i)
  have "dumps_compact (JInt i) \<noteq> []" using atom_head_int [of i "[]"] by (auto simp: atom_head_def value_head_def)
  then show ?case
    using JInt scan_value_atom [OF atom_head_int] by (cases n) (auto simp: scan_atom_int)
next
  case (JFloat t)
  have "dumps_compact (JFloat t) \<noteq> []"
    using JFloat atom_head_float [of t "[]"] by (auto simp: atom_head_def value_head_def)
  then show ?case
    using JFloat scan_value_atom [OF atom_head_float] by (cases n) (auto simp: scan_atom_float)
next
  case (JBool b)
  then show ?case
    by (cases n; cases b) (simp_all add: scan_atom_def scan_words_def startswith_def)
next
  case JNull
  then show ?case by (cases n) (simp_all add: scan_atom_def scan_words_def startswith_def)
qed

lemma loads_dumps:
  assumes "json_ok flt j"
  shows "loads flt (dumps_compact j) = Inr j"
proof -
  have "skip_ws (dumps_compact j) = dumps_compact j"
    using dumps_value_head [OF assms, of "'',''" "'':''" "[]"] by (simp add: skip_ws_value)
  moreover have "scan_value flt (2 * length (dumps_compact j) + 2) (dumps_compact j @ []) = Some (j, [])"
    by (rule scan_value_dumps [OF assms]) (simp_all add: number_end_def)
  ultimately show ?thesis by (simp add: loads_def Let_def)
qed

section \<open>UTF-8\<close>

lemma utf8_decode_encode [simp]: "utf8_decode (utf8_encode s) = Some s"
proof (induction s)
  case (Cons c s)
  show ?case
  proof (cases "code_point c < 128")
    case True
    then show ?thesis using Cons by (simp add: utf8_encode_def)
  next
    case False
    define q where "q = code_point c div 64"
    have q: "q = 2 \<or> q = 3"
      using False code_point_less [of c] unfolding q_def by linarith
    have "(q - 0) * 64 + code_point c mod 64 = code_point c" by (simp add: q_def)
    then have "char_of (q * 64 + code_point c mod 64) = c" by (simp add: code_point_def)
    then show ?thesis
      using Cons False q by (auto simp: utf8_encode_def simp flip: q_def)
  qed
qed (simp add: utf8_encode_def)

lemma loads_bytes_dumps:
  "json_ok flt j \<Longrightarrow> loads_bytes flt (utf8_encode (dumps_compact j)) = Inr j"
  by (simp add: loads_bytes_def loads_dumps)

end
