(* ===== verification/Environment.thy ===== *)
theory Environment
  imports Py_Json
begin

text \<open>
  What the process takes from outside, and what it sends there through the Mercado Pago SDK.
  \<open>uuid_at\<close> and \<open>now_at\<close> give the values of the successive calls of \<open>uuid4()\<close> and
  \<open>datetime.now(UTC)\<close>; the counters say how many were made. \<open>mp_reply\<close> is the provider:
  the outcome of an SDK call, which may depend on the calls made before it (\<open>mp_calls\<close>,
  oldest first). \<open>float_repr\<close> is the printed form of \<open>float(d)\<close>.
\<close>

record datetime =
  year :: nat
  month :: nat
  day :: nat
  hour :: nat
  minute :: nat
  second :: nat
  microsecond :: nat

text \<open>\<open>isoformat()\<close> of an aware UTC datetime: the fraction is left out when it is zero.\<close>

definition pad :: "nat \<Rightarrow> nat \<Rightarrow> string" where
  "pad w n = (let s = show_nat n in replicate (w - length s) CHR ''0'' @ s)"

definition isoformat :: "datetime \<Rightarrow> string" where
  "isoformat t =
     pad 4 (year t) @ ''-'' @ pad 2 (month t) @ ''-'' @ pad 2 (day t) @ ''T'' @
     pad 2 (hour t) @ '':'' @ pad 2 (minute t) @ '':'' @ pad 2 (second t) @
     (if microsecond t = 0 then [] else ''.'' @ pad 6 (microsecond t)) @ ''+00:00''"

datatype mp_call =
    SdkCreatePreference json string int
  | SdkSearchPayments "(string \<times> json) list"

text \<open>
  The SDK returns a value, or raises an exception of which the source reads the attributes
  \<open>status_code\<close> and \<open>status\<close>, either of which may be missing.
\<close>

datatype mp_outcome =
    SdkReturned json
  | SdkRaised "json option" "json option"

record env =
  uuid_at :: "nat \<Rightarrow> string"
  uuid_used :: nat
  now_at :: "nat \<Rightarrow> datetime"
  now_used :: nat
  float_repr :: "decimal \<Rightarrow> string"
  mp_reply :: "mp_call list \<Rightarrow> mp_call \<Rightarrow> mp_outcome"
  mp_calls :: "mp_call list"

definition uuid4 :: "(env, string) exec" where
  "uuid4 e = (Inr (uuid_at e (uuid_used e)), e\<lparr>uuid_used := Suc (uuid_used e)\<rparr>)"

definition now :: "(env, datetime) exec" where
  "now e = (Inr (now_at e (now_used e)), e\<lparr>now_used := Suc (now_used e)\<rparr>)"

definition sdk_call :: "mp_call \<Rightarrow> (env, mp_outcome) exec" where
  "sdk_call c e = (Inr (mp_reply e (mp_calls e) c), e\<lparr>mp_calls := mp_calls e @ [c]\<rparr>)"

text \<open>
  The part of the environment the process cannot change, and the counters it only moves
  forward: the frame of every method that uses it.
\<close>

definition same_world :: "env \<Rightarrow> env \<Rightarrow> bool" where
  "same_world e e' \<longleftrightarrow>
     uuid_at e' = uuid_at e \<and> now_at e' = now_at e \<and> float_repr e' = float_repr e \<and>
     mp_reply e' = mp_reply e \<and> uuid_used e \<le> uuid_used e' \<and> now_used e \<le> now_used e' \<and>
     (\<exists>cs. mp_calls e' = mp_calls e @ cs)"

lemma same_world_refl [simp]: "same_world e e"
  by (simp add: same_world_def)

lemma same_world_trans [trans]: "same_world a b \<Longrightarrow> same_world b c \<Longrightarrow> same_world a c"
  by (auto simp: same_world_def)

lemma uuid4_same_world: "uuid4 e = (r, e') \<Longrightarrow> same_world e e'"
  by (auto simp: uuid4_def same_world_def)

lemma now_same_world: "now e = (r, e') \<Longrightarrow> same_world e e'"
  by (auto simp: now_def same_world_def)

lemma sdk_call_same_world: "sdk_call c e = (r, e') \<Longrightarrow> same_world e e'"
  by (auto simp: sdk_call_def same_world_def)

text \<open>A concrete environment, at which the properties with hypotheses are instantiated.\<close>

definition sample_time :: datetime where
  "sample_time = \<lparr>year = 2024, month = 5, day = 7, hour = 9, minute = 3, second = 0, microsecond = 250\<rparr>"

definition sample_env :: env where
  "sample_env =
     \<lparr>uuid_at = (\<lambda>n. ''uuid-'' @ show_nat n), uuid_used = 0, now_at = (\<lambda>_. sample_time), now_used = 0,
      float_repr = decimal_str, mp_reply = (\<lambda>_ _. SdkRaised None None), mp_calls = []\<rparr>"

end
