(* ===== verification/Domain.thy ===== *)
theory Domain
  imports Environment
begin

text \<open>
  \<open>src/domain\<close>: events, money, quotes and payments. A method that changes its object returns
  the changed object with its result, and raises before it changes anything, as the source
  does; the caller writes the object back to the heap (theory Storage).
\<close>

section \<open>Events (events.py)\<close>

record domain_event =
  event_type :: string
  correlation_id :: string
  payload :: "(string \<times> json) list"
  event_id :: string
  occurred_at :: datetime

definition new_event :: "string \<Rightarrow> string \<Rightarrow> (string \<times> json) list \<Rightarrow> (env, domain_event) exec" where
  "new_event et corr pl =
     andthen uuid4 (\<lambda>i. andthen now (\<lambda>t.
       ret \<lparr>event_type = et, correlation_id = corr, payload = pl, event_id = i, occurred_at = t\<rparr>))"

definition to_message :: "domain_event \<Rightarrow> (string \<times> json) list" where
  "to_message ev =
     [(''event_id'', JStr (event_id ev)),
      (''event_type'', JStr (event_type ev)),
      (''correlation_id'', JStr (correlation_id ev)),
      (''occurred_at'', JStr (isoformat (occurred_at ev))),
      (''payload'', JObj (payload ev))]"

section \<open>Status values and money (payment.py)\<close>

datatype quote_status = CREATED | APPROVED | CANCELLED

datatype payment_status = WAITING_PREFERENCE | PENDING | CONFIRMED | FAILED

fun quote_status_value :: "quote_status \<Rightarrow> string" where
  "quote_status_value CREATED = ''CREATED''"
| "quote_status_value APPROVED = ''APPROVED''"
| "quote_status_value CANCELLED = ''CANCELLED''"

fun payment_status_value :: "payment_status \<Rightarrow> string" where
  "payment_status_value WAITING_PREFERENCE = ''WAITING_PREFERENCE''"
| "payment_status_value PENDING = ''PENDING''"
| "payment_status_value CONFIRMED = ''CONFIRMED''"
| "payment_status_value FAILED = ''FAILED''"

text \<open>\<open>QuoteStatus(text)\<close> and \<open>PaymentStatus(text)\<close>: the member of that value, or ValueError.\<close>

definition QuoteStatus :: "string \<Rightarrow> py_error + quote_status" where
  "QuoteStatus s =
     (if s = ''CREATED'' then Inr CREATED
      else if s = ''APPROVED'' then Inr APPROVED
      else if s = ''CANCELLED'' then Inr CANCELLED
      else Inl (ValueError (repr_str s @ '' is not a valid QuoteStatus'')))"

definition PaymentStatus :: "string \<Rightarrow> py_error + payment_status" where
  "PaymentStatus s =
     (if s = ''WAITING_PREFERENCE'' then Inr WAITING_PREFERENCE
      else if s = ''PENDING'' then Inr PENDING
      else if s = ''CONFIRMED'' then Inr CONFIRMED
      else if s = ''FAILED'' then Inr FAILED
      else Inl (ValueError (repr_str s @ '' is not a valid PaymentStatus'')))"

lemma QuoteStatus_value [simp]: "QuoteStatus (quote_status_value s) = Inr s"
  by (cases s) (simp_all add: QuoteStatus_def)

lemma PaymentStatus_value [simp]: "PaymentStatus (payment_status_value s) = Inr s"
  by (cases s) (simp_all add: PaymentStatus_def)

record money =
  amount :: decimal
  currency :: string

definition Money :: "decimal \<Rightarrow> string \<Rightarrow> py_error + money" where
  "Money a c =
     (case le_zero a of
        Inl e \<Rightarrow> Inl e
      | Inr True \<Rightarrow> Inl (ValueError ''Money amount must be positive'')
      | Inr False \<Rightarrow>
          if strip c = [] then Inl (ValueError ''Currency is required'')
          else Inr \<lparr>amount = a, currency = c\<rparr>)"

definition valid_money :: "money \<Rightarrow> bool" where
  "valid_money m \<longleftrightarrow> le_zero (amount m) = Inr False \<and> strip (currency m) \<noteq> []"

lemma Money_iff: "Money a c = Inr m \<longleftrightarrow> m = \<lparr>amount = a, currency = c\<rparr> \<and> valid_money m"
  by (auto simp: Money_def valid_money_def split: sum.splits bool.splits)

lemma Money_valid [simp]: "valid_money m \<Longrightarrow> Money (amount m) (currency m) = Inr m"
  by (simp add: Money_iff)

text \<open>
  \<open>external_reference\<close> is \<open>None\<close> or a text in every preference a gateway makes; read back
  from a table row it is whatever value the JSON column holds, the source does not convert it.
\<close>

record payment_preference =
  preference_id :: string
  checkout_url :: string
  external_reference :: json

record provider_status =
  provider_payment_id :: string
  ps_status :: string
  status_detail :: "string option"

section \<open>Quotes\<close>

record quote =
  q_service_order_id :: string
  q_items :: "string list"
  q_total :: money
  q_quote_id :: string
  q_status :: quote_status

definition quote_event :: "quote \<Rightarrow> string \<Rightarrow> (string \<times> json) list \<Rightarrow> (env, domain_event) exec" where
  "quote_event q et pl =
     new_event et (q_service_order_id q)
       (dict_update [(''service_order_id'', JStr (q_service_order_id q))] pl)"

definition quote_create :: "string \<Rightarrow> string list \<Rightarrow> money \<Rightarrow> (env, quote \<times> domain_event) exec" where
  "quote_create so items tot =
     (if strip so = [] then raise (ValueError ''Service order id is required'')
      else if items = [] then raise (ValueError ''At least one quote item is required'')
      else andthen uuid4 (\<lambda>i.
        let q = \<lparr>q_service_order_id = so, q_items = items, q_total = tot,
                 q_quote_id = i, q_status = CREATED\<rparr>
        in andthen (quote_event q ''QUOTE_CREATED'' [(''quote_id'', JStr i)]) (\<lambda>ev. ret (q, ev))))"

definition quote_approve :: "quote \<Rightarrow> (env, quote \<times> domain_event) exec" where
  "quote_approve q =
     (if q_status q \<noteq> CREATED then raise (ValueError ''Only created quotes can be approved'')
      else let q' = q\<lparr>q_status := APPROVED\<rparr>
        in andthen (quote_event q' ''QUOTE_APPROVED'' [(''quote_id'', JStr (q_quote_id q'))])
             (\<lambda>ev. ret (q', ev)))"

definition quote_cancel :: "string \<Rightarrow> quote \<Rightarrow> (env, quote \<times> domain_event) exec" where
  "quote_cancel reason q =
     (if q_status q = CANCELLED then raise (ValueError ''Quote is already cancelled'')
      else let q' = q\<lparr>q_status := CANCELLED\<rparr>
        in andthen (quote_event q' ''QUOTE_CANCELLED''
               [(''quote_id'', JStr (q_quote_id q')), (''reason'', JStr reason)])
             (\<lambda>ev. ret (q', ev)))"

section \<open>Payments\<close>

record payment =
  p_quote_id :: string
  p_service_order_id :: string
  p_total :: money
  p_payment_id :: string
  p_status :: payment_status
  p_preference :: "payment_preference option"

text \<open>The gateway port: what a payment needs of the provider adapter.\<close>

record gateway_port =
  create_checkout_preference :: "string \<Rightarrow> string \<Rightarrow> money \<Rightarrow> (env, payment_preference) exec"
  get_payment_status :: "payment \<Rightarrow> (env, provider_status) exec"

definition payment_event :: "payment \<Rightarrow> string \<Rightarrow> (string \<times> json) list \<Rightarrow> (env, domain_event) exec" where
  "payment_event p et pl =
     new_event et (p_service_order_id p)
       (dict_update [(''service_order_id'', JStr (p_service_order_id p)),
                     (''quote_id'', JStr (p_quote_id p))] pl)"

definition payment_from_quote :: "quote \<Rightarrow> (env, payment) exec" where
  "payment_from_quote q =
     (if q_status q \<noteq> APPROVED
      then raise (ValueError ''Payment can only be created for approved quotes'')
      else andthen uuid4 (\<lambda>i.
        ret \<lparr>p_quote_id = q_quote_id q, p_service_order_id = q_service_order_id q,
             p_total = q_total q, p_payment_id = i, p_status = WAITING_PREFERENCE,
             p_preference = None\<rparr>))"

definition payment_create_preference ::
    "gateway_port \<Rightarrow> payment \<Rightarrow> (env, payment \<times> domain_event) exec" where
  "payment_create_preference g p =
     (if p_status p \<noteq> WAITING_PREFERENCE
      then raise (ValueError ''Payment preference was already requested'')
      else andthen (create_checkout_preference g (p_quote_id p) (p_service_order_id p) (p_total p))
        (\<lambda>pref.
          let p' = p\<lparr>p_preference := Some pref, p_status := PENDING\<rparr>
          in andthen (payment_event p' ''PAYMENT_PREFERENCE_CREATED''
                 [(''payment_id'', JStr (p_payment_id p')),
                  (''preference_id'', JStr (preference_id pref))])
               (\<lambda>ev. ret (p', ev))))"

definition payment_confirm :: "payment \<Rightarrow> (env, payment \<times> domain_event) exec" where
  "payment_confirm p =
     (if p_status p \<noteq> PENDING then raise (ValueError ''Only pending payments can be confirmed'')
      else let p' = p\<lparr>p_status := CONFIRMED\<rparr>
        in andthen (payment_event p' ''PAYMENT_CONFIRMED'' [(''payment_id'', JStr (p_payment_id p'))])
             (\<lambda>ev. ret (p', ev)))"

definition payment_fail :: "string \<Rightarrow> payment \<Rightarrow> (env, payment \<times> domain_event) exec" where
  "payment_fail reason p =
     (if p_status p = CONFIRMED then raise (ValueError ''Confirmed payments cannot fail'')
      else let p' = p\<lparr>p_status := FAILED\<rparr>
        in andthen (payment_event p' ''PAYMENT_FAILED''
               [(''payment_id'', JStr (p_payment_id p')), (''reason'', JStr reason)])
             (\<lambda>ev. ret (p', ev)))"

section \<open>How the methods run\<close>

text \<open>
  Every outcome of a method, branch by branch. \<open>fresh_uuid\<close> is the value the next \<open>uuid4()\<close>
  gives; \<open>stamped\<close> is the environment after one event was built.
\<close>

definition fresh_uuid :: "env \<Rightarrow> string" where
  "fresh_uuid e = uuid_at e (uuid_used e)"

definition drawn :: "env \<Rightarrow> env" where
  "drawn e = e\<lparr>uuid_used := Suc (uuid_used e)\<rparr>"

definition stamped :: "env \<Rightarrow> env" where
  "stamped e = e\<lparr>uuid_used := Suc (uuid_used e), now_used := Suc (now_used e)\<rparr>"

definition event_at :: "env \<Rightarrow> string \<Rightarrow> string \<Rightarrow> (string \<times> json) list \<Rightarrow> domain_event" where
  "event_at e et corr pl =
     \<lparr>event_type = et, correlation_id = corr, payload = pl,
      event_id = fresh_uuid e, occurred_at = now_at e (now_used e)\<rparr>"

lemma event_at_fields [simp]:
  "event_type (event_at e et corr pl) = et" "correlation_id (event_at e et corr pl) = corr"
  "payload (event_at e et corr pl) = pl" "event_id (event_at e et corr pl) = fresh_uuid e"
  by (simp_all add: event_at_def)

lemma uuid4_run [exec_simps]: "uuid4 e = (Inr (fresh_uuid e), drawn e)"
  by (simp add: uuid4_def fresh_uuid_def drawn_def)

lemma new_event_run [exec_simps]: "new_event et corr pl e = (Inr (event_at e et corr pl), stamped e)"
  by (simp add: new_event_def uuid4_run now_def event_at_def stamped_def drawn_def)

lemma same_world_drawn [simp]: "same_world e (drawn e)"
  by (simp add: drawn_def same_world_def)

lemma same_world_stamped [simp]: "same_world e (stamped e)"
  by (simp add: stamped_def same_world_def)

definition quote_payload :: "quote \<Rightarrow> (string \<times> json) list \<Rightarrow> (string \<times> json) list" where
  "quote_payload q pl = dict_update [(''service_order_id'', JStr (q_service_order_id q))] pl"

definition payment_payload :: "payment \<Rightarrow> (string \<times> json) list \<Rightarrow> (string \<times> json) list" where
  "payment_payload p pl =
     dict_update [(''service_order_id'', JStr (p_service_order_id p)),
                  (''quote_id'', JStr (p_quote_id p))] pl"

lemma quote_event_run [exec_simps]:
  "quote_event q et pl e = (Inr (event_at e et (q_service_order_id q) (quote_payload q pl)), stamped e)"
  by (simp add: quote_event_def new_event_run quote_payload_def)

lemma payment_event_run [exec_simps]:
  "payment_event p et pl e = (Inr (event_at e et (p_service_order_id p) (payment_payload p pl)), stamped e)"
  by (simp add: payment_event_def new_event_run payment_payload_def)

definition created_quote :: "env \<Rightarrow> string \<Rightarrow> string list \<Rightarrow> money \<Rightarrow> quote" where
  "created_quote e so items tot =
     \<lparr>q_service_order_id = so, q_items = items, q_total = tot,
      q_quote_id = fresh_uuid e, q_status = CREATED\<rparr>"

lemma created_quote_fields [simp]:
  "q_service_order_id (created_quote e so items tot) = so"
  "q_items (created_quote e so items tot) = items" "q_total (created_quote e so items tot) = tot"
  "q_quote_id (created_quote e so items tot) = fresh_uuid e"
  "q_status (created_quote e so items tot) = CREATED"
  by (simp_all add: created_quote_def)

lemma quote_create_run [exec_simps]:
  "quote_create so items tot e =
     (if strip so = [] then (Inl (ValueError ''Service order id is required''), e)
      else if items = [] then (Inl (ValueError ''At least one quote item is required''), e)
      else let q = created_quote e so items tot
        in (Inr (q, event_at (drawn e) ''QUOTE_CREATED'' so
                      (quote_payload q [(''quote_id'', JStr (q_quote_id q))])),
            stamped (drawn e)))"
  by (simp add: quote_create_def uuid4_run quote_event_run created_quote_def Let_def)

lemma quote_approve_run [exec_simps]:
  "quote_approve q e =
     (if q_status q \<noteq> CREATED then (Inl (ValueError ''Only created quotes can be approved''), e)
      else (Inr (q\<lparr>q_status := APPROVED\<rparr>,
                 event_at e ''QUOTE_APPROVED'' (q_service_order_id q)
                   (quote_payload q [(''quote_id'', JStr (q_quote_id q))])), stamped e))"
  by (simp add: quote_approve_def quote_event_run quote_payload_def Let_def)

lemma quote_cancel_run [exec_simps]:
  "quote_cancel reason q e =
     (if q_status q = CANCELLED then (Inl (ValueError ''Quote is already cancelled''), e)
      else (Inr (q\<lparr>q_status := CANCELLED\<rparr>,
                 event_at e ''QUOTE_CANCELLED'' (q_service_order_id q)
                   (quote_payload q [(''quote_id'', JStr (q_quote_id q)), (''reason'', JStr reason)])),
            stamped e))"
  by (simp add: quote_cancel_def quote_event_run quote_payload_def Let_def)

definition opened_payment :: "env \<Rightarrow> quote \<Rightarrow> payment" where
  "opened_payment e q =
     \<lparr>p_quote_id = q_quote_id q, p_service_order_id = q_service_order_id q, p_total = q_total q,
      p_payment_id = fresh_uuid e, p_status = WAITING_PREFERENCE, p_preference = None\<rparr>"

lemma opened_payment_fields [simp]:
  "p_quote_id (opened_payment e q) = q_quote_id q"
  "p_service_order_id (opened_payment e q) = q_service_order_id q"
  "p_total (opened_payment e q) = q_total q" "p_payment_id (opened_payment e q) = fresh_uuid e"
  "p_status (opened_payment e q) = WAITING_PREFERENCE" "p_preference (opened_payment e q) = None"
  by (simp_all add: opened_payment_def)

lemma payment_from_quote_run [exec_simps]:
  "payment_from_quote q e =
     (if q_status q \<noteq> APPROVED
      then (Inl (ValueError ''Payment can only be created for approved quotes''), e)
      else (Inr (opened_payment e q), drawn e))"
  by (simp add: payment_from_quote_def uuid4_run opened_payment_def)

lemma payment_create_preference_run [exec_simps]:
  "payment_create_preference g p e =
     (if p_status p \<noteq> WAITING_PREFERENCE
      then (Inl (ValueError ''Payment preference was already requested''), e)
      else (case create_checkout_preference g (p_quote_id p) (p_service_order_id p) (p_total p) e of
          (Inl x, e') \<Rightarrow> (Inl x, e')
        | (Inr pref, e') \<Rightarrow>
            (Inr (p\<lparr>p_preference := Some pref, p_status := PENDING\<rparr>,
                  event_at e' ''PAYMENT_PREFERENCE_CREATED'' (p_service_order_id p)
                    (payment_payload p [(''payment_id'', JStr (p_payment_id p)),
                                        (''preference_id'', JStr (preference_id pref))])),
             stamped e')))"
  by (simp add: payment_create_preference_def andthen_def payment_event_run payment_payload_def Let_def
      split: prod.splits sum.splits)

lemma payment_confirm_run [exec_simps]:
  "payment_confirm p e =
     (if p_status p \<noteq> PENDING then (Inl (ValueError ''Only pending payments can be confirmed''), e)
      else (Inr (p\<lparr>p_status := CONFIRMED\<rparr>,
                 event_at e ''PAYMENT_CONFIRMED'' (p_service_order_id p)
                   (payment_payload p [(''payment_id'', JStr (p_payment_id p))])), stamped e))"
  by (simp add: payment_confirm_def payment_event_run payment_payload_def Let_def)

lemma payment_fail_run [exec_simps]:
  "payment_fail reason p e =
     (if p_status p = CONFIRMED then (Inl (ValueError ''Confirmed payments cannot fail''), e)
      else (Inr (p\<lparr>p_status := FAILED\<rparr>,
                 event_at e ''PAYMENT_FAILED'' (p_service_order_id p)
                   (payment_payload p [(''payment_id'', JStr (p_payment_id p)), (''reason'', JStr reason)])),
            stamped e))"
  by (simp add: payment_fail_def payment_event_run payment_payload_def Let_def)

section \<open>The life cycles as state machines\<close>

text \<open>
  The promise of the two entities, free of data: which method is allowed in which status,
  and where it leads. The theorems show that the methods are exactly these machines.
\<close>

datatype quote_op = Approve | Cancel string

inductive quote_edge :: "quote_status \<Rightarrow> quote_op \<Rightarrow> quote_status \<Rightarrow> bool" where
  approves: "quote_edge CREATED Approve APPROVED"
| cancels: "s \<noteq> CANCELLED \<Longrightarrow> quote_edge s (Cancel reason) CANCELLED"

inductive_simps quote_edge_Approve [simp]: "quote_edge s Approve t"
inductive_simps quote_edge_Cancel [simp]: "quote_edge s (Cancel reason) t"

fun quote_method :: "quote_op \<Rightarrow> quote \<Rightarrow> (env, quote \<times> domain_event) exec" where
  "quote_method Approve q = quote_approve q"
| "quote_method (Cancel reason) q = quote_cancel reason q"

datatype payment_op = Request_Preference | Confirm | Fail string

inductive payment_edge :: "payment_status \<Rightarrow> payment_op \<Rightarrow> payment_status \<Rightarrow> bool" where
  requests: "payment_edge WAITING_PREFERENCE Request_Preference PENDING"
| confirms: "payment_edge PENDING Confirm CONFIRMED"
| fails: "s \<noteq> CONFIRMED \<Longrightarrow> payment_edge s (Fail reason) FAILED"

inductive_simps payment_edge_Request [simp]: "payment_edge s Request_Preference t"
inductive_simps payment_edge_Confirm [simp]: "payment_edge s Confirm t"
inductive_simps payment_edge_Fail [simp]: "payment_edge s (Fail reason) t"

fun payment_method ::
    "gateway_port \<Rightarrow> payment_op \<Rightarrow> payment \<Rightarrow> (env, payment \<times> domain_event) exec" where
  "payment_method g Request_Preference p = payment_create_preference g p"
| "payment_method g Confirm p = payment_confirm p"
| "payment_method g (Fail reason) p = payment_fail reason p"

text \<open>The order of life: an earlier status can lead to a later one, never back.\<close>

instantiation quote_status :: linorder
begin

definition less_eq_quote_status :: "quote_status \<Rightarrow> quote_status \<Rightarrow> bool" where
  "less_eq_quote_status s t \<longleftrightarrow> s = t \<or> s = CREATED \<or> t = CANCELLED"

definition less_quote_status :: "quote_status \<Rightarrow> quote_status \<Rightarrow> bool" where
  "less_quote_status s t \<longleftrightarrow> s \<noteq> t \<and> (s = CREATED \<or> t = CANCELLED)"

instance
proof
  fix s t u :: quote_status
  show "s < t \<longleftrightarrow> s \<le> t \<and> \<not> t \<le> s" "s \<le> t \<Longrightarrow> t \<le> u \<Longrightarrow> s \<le> u" "s \<le> t \<Longrightarrow> t \<le> s \<Longrightarrow> s = t" "s \<le> t \<or> t \<le> s"
    by (cases s; cases t; cases u; simp add: less_eq_quote_status_def less_quote_status_def)+
qed (simp add: less_eq_quote_status_def)

end

instantiation payment_status :: order
begin

definition less_eq_payment_status :: "payment_status \<Rightarrow> payment_status \<Rightarrow> bool" where
  "less_eq_payment_status s t \<longleftrightarrow> s = t \<or> s = WAITING_PREFERENCE \<or> s = PENDING \<and> t \<noteq> WAITING_PREFERENCE"

definition less_payment_status :: "payment_status \<Rightarrow> payment_status \<Rightarrow> bool" where
  "less_payment_status s t \<longleftrightarrow> s \<noteq> t \<and> (s = WAITING_PREFERENCE \<or> s = PENDING \<and> t \<noteq> WAITING_PREFERENCE)"

instance
proof
  fix s t u :: payment_status
  show "s < t \<longleftrightarrow> s \<le> t \<and> \<not> t \<le> s" "s \<le> t \<Longrightarrow> t \<le> u \<Longrightarrow> s \<le> u" "s \<le> t \<Longrightarrow> t \<le> s \<Longrightarrow> s = t"
    by (cases s; cases t; cases u; simp add: less_eq_payment_status_def less_payment_status_def)+
qed (simp add: less_eq_payment_status_def)

end

lemma quote_edge_le: "quote_edge s a t \<Longrightarrow> s \<le> t"
  by (cases s; cases a) (auto simp: less_eq_quote_status_def)

lemma payment_edge_le: "payment_edge s a t \<Longrightarrow> s \<le> t"
  by (cases s; cases a) (auto simp: less_eq_payment_status_def)

lemma quote_status_order: "(\<lambda>s t. \<exists>a. quote_edge s a t)\<^sup>*\<^sup>* s t \<longleftrightarrow> s \<le> t"
proof
  let ?R = "\<lambda>s t. \<exists>a. quote_edge s a t"
  show "s \<le> t" if "?R\<^sup>*\<^sup>* s t"
    using that by induction (auto dest: quote_edge_le)
  have "?R CREATED APPROVED" "?R CREATED CANCELLED" "?R APPROVED CANCELLED"
    by (blast intro: quote_edge.intros)+
  then show "?R\<^sup>*\<^sup>* s t" if "s \<le> t"
    using that by (cases s; cases t) (auto simp: less_eq_quote_status_def simp del: quote_edge_Approve intro!: r_into_rtranclp)
qed

lemma payment_status_order: "(\<lambda>s t. \<exists>a. payment_edge s a t)\<^sup>*\<^sup>* s t \<longleftrightarrow> s \<le> t"
proof
  let ?R = "\<lambda>s t. \<exists>a. payment_edge s a t"
  show "s \<le> t" if "?R\<^sup>*\<^sup>* s t"
    using that by induction (auto dest: payment_edge_le)
  have e: "?R WAITING_PREFERENCE PENDING" "?R PENDING CONFIRMED" "?R WAITING_PREFERENCE FAILED" "?R PENDING FAILED"
    by (blast intro: payment_edge.intros)+
  have "?R\<^sup>*\<^sup>* WAITING_PREFERENCE CONFIRMED"
    using e(1,2) by (rule converse_rtranclp_into_rtranclp[of ?R, OF _ r_into_rtranclp[of ?R]])
  then show "?R\<^sup>*\<^sup>* s t" if "s \<le> t"
    using that e by (cases s; cases t) (auto simp: less_eq_payment_status_def intro: r_into_rtranclp)
qed

lemma quote_edge_terminal: "\<not> quote_edge CANCELLED a t"
  by (cases a) auto

lemma payment_edge_terminal: "\<not> payment_edge CONFIRMED a t"
  by (cases a) auto

text \<open>The fields that identify an entity: no method changes them.\<close>

definition same_quote :: "quote \<Rightarrow> quote \<Rightarrow> bool" where
  "same_quote q q' \<longleftrightarrow> q' = q\<lparr>q_status := q_status q'\<rparr>"

definition same_payment :: "payment \<Rightarrow> payment \<Rightarrow> bool" where
  "same_payment p p' \<longleftrightarrow> p' = p\<lparr>p_status := p_status p', p_preference := p_preference p'\<rparr>"

text \<open>
  A run of methods on one payment object, the result of each call (value or exception)
  left to the caller, who goes on with the object as it is then. The events are those the
  calls returned, oldest first.
\<close>

fun payment_run ::
    "gateway_port \<Rightarrow> payment_op list \<Rightarrow> payment \<Rightarrow> env \<Rightarrow> payment \<times> domain_event list \<times> env" where
  "payment_run g [] p e = (p, [], e)"
| "payment_run g (a # ops) p e =
     (case payment_method g a p e of
        (Inl x, e') \<Rightarrow> payment_run g ops p e'
      | (Inr (p', ev), e') \<Rightarrow>
          (case payment_run g ops p' e' of (p'', evs, e'') \<Rightarrow> (p'', ev # evs, e'')))"

text \<open>What a payment the constructors made satisfies at every moment.\<close>

definition payment_ok :: "payment \<Rightarrow> bool" where
  "payment_ok p \<longleftrightarrow>
     (p_status p = WAITING_PREFERENCE \<longrightarrow> p_preference p = None) \<and>
     (p_status p = PENDING \<or> p_status p = CONFIRMED \<longrightarrow> p_preference p \<noteq> None)"

lemma same_payment_refl [simp]: "same_payment p p"
  by (simp add: same_payment_def)

lemma same_payment_trans [trans]: "same_payment p p' \<Longrightarrow> same_payment p' p'' \<Longrightarrow> same_payment p p''"
  by (cases p; cases p'; cases p'') (auto simp: same_payment_def)

lemma same_payment_iff:
  "same_payment p p' \<longleftrightarrow>
     p_quote_id p' = p_quote_id p \<and> p_service_order_id p' = p_service_order_id p \<and>
     p_total p' = p_total p \<and> p_payment_id p' = p_payment_id p"
  by (cases p; cases p') (auto simp: same_payment_def)

lemma payment_method_cases:
  assumes "payment_method g a p e = (Inr (p', ev), e')"
  obtains (requested) pref where "a = Request_Preference" "p_status p = WAITING_PREFERENCE"
            "p' = p\<lparr>p_preference := Some pref, p_status := PENDING\<rparr>"
            "event_type ev = ''PAYMENT_PREFERENCE_CREATED''"
        | (confirmed) "a = Confirm" "p_status p = PENDING" "p' = p\<lparr>p_status := CONFIRMED\<rparr>"
            "event_type ev = ''PAYMENT_CONFIRMED''"
        | (failed) reason where "a = Fail reason" "p_status p \<noteq> CONFIRMED"
            "p' = p\<lparr>p_status := FAILED\<rparr>" "event_type ev = ''PAYMENT_FAILED''"
proof (cases a)
  case Request_Preference
  with assms that(1) show ?thesis
    by (simp add: payment_create_preference_run split: if_splits prod.splits sum.splits)
       (metis event_at_fields(1))
next
  case Confirm
  with assms that(2) show ?thesis
    by (simp add: payment_confirm_run split: if_splits) (metis event_at_fields(1))
next
  case (Fail reason)
  with assms that(3)[of reason] show ?thesis
    by (simp add: payment_fail_run split: if_splits) (metis event_at_fields(1))
qed

lemma payment_method_ok:
  assumes "payment_method g a p e = (Inr (p', ev), e')" and "payment_ok p"
  shows "payment_ok p'"
  using assms(1) by (cases rule: payment_method_cases) (use assms(2) in \<open>auto simp: payment_ok_def\<close>)

lemma payment_method_same:
  assumes "payment_method g a p e = (Inr (p', ev), e')"
  shows "same_payment p p'"
  using assms by (cases rule: payment_method_cases) (auto simp: same_payment_iff)

lemma payment_run_same: "payment_run g ops p e = (p', evs, e') \<Longrightarrow> same_payment p p'"
  by (induction g ops p e arbitrary: p' evs e' rule: payment_run.induct)
     (auto split: prod.splits sum.splits dest: payment_method_same intro: same_payment_trans)

lemma payment_run_ok: "payment_run g ops p e = (p', evs, e') \<Longrightarrow> payment_ok p \<Longrightarrow> payment_ok p'"
  by (induction g ops p e arbitrary: p' evs e' rule: payment_run.induct)
     (auto split: prod.splits sum.splits dest: payment_method_ok)

lemma payment_method_confirmed:
  "p_status p = CONFIRMED \<Longrightarrow> \<exists>x. payment_method g a p e = (Inl x, e)"
  by (cases a) (simp_all add: payment_create_preference_run payment_confirm_run payment_fail_run)

lemma payment_run_confirmed:
  "payment_run g ops p e = (p', evs, e') \<Longrightarrow> p_status p = CONFIRMED \<Longrightarrow> p' = p \<and> evs = []"
proof (induction g ops p e arbitrary: p' evs e' rule: payment_run.induct)
  case (2 g a ops p e)
  obtain x where "payment_method g a p e = (Inl x, e)"
    using payment_method_confirmed[OF 2(4)] ..
  with 2 show ?case by simp
qed simp

lemma opened_payment_ok [simp]: "payment_ok (opened_payment e q)"
  by (simp add: payment_ok_def)

section \<open>Properties of the entities\<close>

text \<open>
  \<open>Money\<close> accepts exactly the amounts greater than zero with a currency that
  is not blank, and keeps both as given. A NaN amount is no \<open>ValueError\<close>: the comparison
  itself raises \<open>decimal.InvalidOperation\<close>.
\<close>

theorem money_accepts:
  "Money a c =
     (case a of
        NaN neg sig n \<Rightarrow> Inl InvalidOperation
      | Infinite neg \<Rightarrow>
          (if neg then Inl (ValueError ''Money amount must be positive'')
           else if list_all is_space c then Inl (ValueError ''Currency is required'')
           else Inr \<lparr>amount = a, currency = c\<rparr>)
      | Finite neg n x \<Rightarrow>
          (if finite_value neg n x \<le> 0 then Inl (ValueError ''Money amount must be positive'')
           else if list_all is_space c then Inl (ValueError ''Currency is required'')
           else Inr \<lparr>amount = a, currency = c\<rparr>))"
proof -
  have "strip c = [] \<longleftrightarrow> list_all is_space c"
    by (simp add: strip_Nil_iff list_all_iff)
  moreover have "finite_value neg n x \<le> 0 \<longleftrightarrow> neg \<or> n = 0" for neg n x
  proof -
    have positive: "\<not> power_int 10 x \<le> (0::rat)"
      unfolding not_le by (rule zero_less_power_int) simp
    show ?thesis by (simp add: finite_value_def mult_le_0_iff positive)
  qed
  ultimately show ?thesis
    by (cases a) (auto simp: Money_def)
qed

text \<open>
  Property C8. The methods of a quote are exactly its life cycle: a call raises ValueError,
  with the environment untouched, when the life cycle has no edge for it; otherwise it
  follows the edge, changes nothing but the status, and returns an event correlated with the
  service order that names the quote.
\<close>

theorem quote_refines_life_cycle:
  "case quote_method a q e of
     (Inl x, e') \<Rightarrow> is_value_error x \<and> e' = e \<and> (\<nexists>t. quote_edge (q_status q) a t)
   | (Inr (q', ev), e') \<Rightarrow>
       quote_edge (q_status q) a (q_status q') \<and> same_quote q q' \<and> e' = stamped e \<and>
       correlation_id ev = q_service_order_id q \<and> event_id ev = fresh_uuid e \<and>
       map_of (payload ev) ''service_order_id'' = Some (JStr (q_service_order_id q)) \<and>
       map_of (payload ev) ''quote_id'' = Some (JStr (q_quote_id q))"
  by (cases a) (auto simp: quote_approve_run quote_cancel_run same_quote_def quote_payload_def
      map_of_dict_update)

text \<open>
  Property C7. The methods of a payment are exactly its life cycle: without an edge the call
  raises ValueError before it reaches the gateway; with one it returns the payment in the
  target status with its identifiers and total unchanged and an event that names quote,
  service order and payment. The only other way to raise is the gateway's own exception
  while the preference is requested, and then the payment object is left as it was.
\<close>

theorem payment_refines_life_cycle:
  "case payment_method g a p e of
     (Inl x, e') \<Rightarrow>
       (if \<exists>t. payment_edge (p_status p) a t
        then a = Request_Preference \<and>
          create_checkout_preference g (p_quote_id p) (p_service_order_id p) (p_total p) e = (Inl x, e')
        else is_value_error x \<and> e' = e)
   | (Inr (p', ev), e') \<Rightarrow>
       payment_edge (p_status p) a (p_status p') \<and> same_payment p p' \<and>
       correlation_id ev = p_service_order_id p \<and>
       map_of (payload ev) ''service_order_id'' = Some (JStr (p_service_order_id p)) \<and>
       map_of (payload ev) ''quote_id'' = Some (JStr (p_quote_id p)) \<and>
       map_of (payload ev) ''payment_id'' = Some (JStr (p_payment_id p))"
  by (cases a) (auto simp: payment_create_preference_run payment_confirm_run payment_fail_run
      same_payment_iff payment_payload_def map_of_dict_update split: prod.splits sum.splits)

text \<open>
  Property C9. Whatever methods are called on a payment, in whatever order and whatever the
  gateway answers: its identifiers and total never change, a payment that is PENDING or
  CONFIRMED carries its checkout preference, at most one PAYMENT_CONFIRMED event is returned,
  and when one is, it is the last event of the run and the payment ends CONFIRMED.
\<close>

theorem payment_history:
  assumes "payment_ok p"
  shows "case payment_run g ops p e of (p', evs, e') \<Rightarrow>
     same_payment p p' \<and> payment_ok p' \<and>
     count_list (map event_type evs) ''PAYMENT_CONFIRMED'' \<le> 1 \<and>
     (''PAYMENT_CONFIRMED'' \<in> set (map event_type evs) \<longrightarrow>
        p_status p' = CONFIRMED \<and> event_type (last evs) = ''PAYMENT_CONFIRMED'')"
proof -
  have "count_list (map event_type evs) ''PAYMENT_CONFIRMED'' \<le> 1 \<and>
     (''PAYMENT_CONFIRMED'' \<in> set (map event_type evs) \<longrightarrow>
        p_status p' = CONFIRMED \<and> event_type (last evs) = ''PAYMENT_CONFIRMED'')"
    if "payment_run g ops p e = (p', evs, e')" for p' evs e'
    using that
  proof (induction g ops p e arbitrary: p' evs e' rule: payment_run.induct)
    case (2 g a ops p e)
    show ?case
    proof (cases "fst (payment_method g a p e)")
      case (Inl x)
      with 2 show ?thesis by (cases "payment_method g a p e") auto
    next
      case (Inr y)
      then obtain q ev e1 where m: "payment_method g a p e = (Inr (q, ev), e1)"
        by (cases "payment_method g a p e"; cases y) auto
      obtain evs1 where run: "payment_run g ops q e1 = (p', evs1, e')" and evs: "evs = ev # evs1"
        using 2(3) m by (auto split: prod.splits)
      note IH = 2(2)[OF m[symmetric] refl refl run]
      show ?thesis
        using m by (cases rule: payment_method_cases)
          (use IH evs payment_run_confirmed[OF run] in auto)
    qed
  qed simp
  with assms show ?thesis
    using payment_run_same payment_run_ok by (fastforce split: prod.splits)
qed

definition sample_money :: money where
  "sample_money = \<lparr>amount = Finite False 12050 (-2), currency = ''BRL''\<rparr>"

definition sample_payment :: payment where
  "sample_payment = \<lparr>p_quote_id = ''q1'', p_service_order_id = ''so1'', p_total = sample_money,
     p_payment_id = ''p1'', p_status = PENDING,
     p_preference = Some \<lparr>preference_id = ''pref'', checkout_url = ''https://pay'', external_reference = JStr ''q1''\<rparr>\<rparr>"

definition sample_quote :: quote where
  "sample_quote = \<lparr>q_service_order_id = ''so1'', q_items = [''oil''], q_total = sample_money,
     q_quote_id = ''q1'', q_status = CREATED\<rparr>"

definition sample_gateway :: gateway_port where
  "sample_gateway =
     \<lparr>create_checkout_preference = (\<lambda>q so m. raise (PaymentGatewayError ''down'' None None)),
      get_payment_status = (\<lambda>p. raise (PaymentGatewayError ''down'' None None))\<rparr>"

lemma sample_valid [simp]: "valid_money sample_money"
  by code_simp

lemma sample_fields [simp]:
  "p_payment_id sample_payment = ''p1''" "p_total sample_payment = sample_money"
  "p_status sample_payment = PENDING" "payment_ok sample_payment"
  "q_quote_id sample_quote = ''q1''" "q_total sample_quote = sample_money" "q_status sample_quote = CREATED"
  by (simp_all add: sample_payment_def sample_quote_def payment_ok_def)

theorem payment_history_witness:
  "case payment_run sample_gateway [Request_Preference, Confirm, Fail ''late'', Confirm] sample_payment sample_env of
     (p', evs, e') \<Rightarrow>
       same_payment sample_payment p' \<and> payment_ok p' \<and>
       count_list (map event_type evs) ''PAYMENT_CONFIRMED'' \<le> 1 \<and>
       (''PAYMENT_CONFIRMED'' \<in> set (map event_type evs) \<longrightarrow>
          p_status p' = CONFIRMED \<and> event_type (last evs) = ''PAYMENT_CONFIRMED'')"
  by (rule payment_history) simp

end
