(* ===== verification/Messaging.thy ===== *)
theory Messaging
  imports Domain Json_Proofs
begin

text \<open>
  \<open>src/infrastructure/messaging\<close>: the contract of an event message, the two publishers, the
  consumer and the worker's delivery callback. The broker client (package pika) is not under
  \<open>src\<close>: each call of it is an entry of \<open>amqp_log\<close>, and the n-th call raises when
  \<open>amqp_fault n\<close> says so: with an exception of pika's own, or with a \<open>ValueError\<close>, as
  \<open>pika.URLParameters\<close> does for a malformed URL (a call that raises is taken to have no effect). \<open>amqp_alive\<close> is what
  \<open>connection.is_open\<close> answers. The publisher's lock is left out: calls are one at a time.
\<close>

type_synonym message = "(string \<times> json) list"

section \<open>The message contract (event\_contracts.py)\<close>

definition integration_event_types :: "string list" where
  "integration_event_types =
     [''OS_OPENED'', ''QUOTE_CREATED'', ''QUOTE_APPROVED'', ''QUOTE_CANCELLED'',
      ''PAYMENT_PREFERENCE_CREATED'', ''PAYMENT_CONFIRMED'', ''PAYMENT_FAILED'']"

text \<open>The required fields, in the order \<open>sorted\<close> gives them.\<close>

definition required_fields :: "string list" where
  "required_fields = [''correlation_id'', ''event_id'', ''event_type'', ''occurred_at'', ''payload'']"

definition validate_event_message :: "message \<Rightarrow> py_error + unit" where
  "validate_event_message m =
     (let missing_fields = filter (\<lambda>f. f \<notin> set (map fst m)) required_fields in
      if missing_fields \<noteq> []
      then Inl (ValueError (''Event message is missing fields: '' @ repr_json (JArr (map JStr missing_fields))))
      else bind_sum (item m ''event_type'') (\<lambda>et.
        if \<not> hashable et then Inl (TypeError ''unhashable type'')
        else if et \<notin> JStr ` set integration_event_types
        then Inl (ValueError (''Unsupported event type: '' @ str_json et))
        else bind_sum (item m ''payload'') (\<lambda>pl.
          case pl of JObj _ \<Rightarrow> Inr () | _ \<Rightarrow> Inl (ValueError ''Event payload must be an object''))))"

definition event_to_message :: "domain_event \<Rightarrow> py_error + message" where
  "event_to_message ev =
     (let m = to_message ev in bind_sum (validate_event_message m) (\<lambda>_. Inr m))"

section \<open>The broker\<close>

datatype amqp_op =
    Connect string
  | OpenChannel
  | ExchangeDeclare string
  | QueueDeclare string
  | QueueBind string string string
  | BasicPublish string string string
  | BasicQos nat
  | BasicConsume string
  | BasicAck nat
  | BasicNack nat bool
  | CloseConnection

datatype broker_fault = Amqp_Error string | Amqp_Value_Error string

fun fault_error :: "broker_fault \<Rightarrow> py_error" where
  "fault_error (Amqp_Error m) = BrokerError m"
| "fault_error (Amqp_Value_Error m) = BrokerValueError m"

record broker =
  amqp_log :: "amqp_op list"
  amqp_count :: nat
  amqp_fault :: "nat \<Rightarrow> broker_fault option"
  amqp_alive :: "nat \<Rightarrow> bool"

definition amqp :: "amqp_op \<Rightarrow> (broker, unit) exec" where
  "amqp c b =
     (let b' = b\<lparr>amqp_count := Suc (amqp_count b)\<rparr> in
      case amqp_fault b (amqp_count b) of
        Some fault \<Rightarrow> (Inl (fault_error fault), b')
      | None \<Rightarrow> (Inr (), b'\<lparr>amqp_log := amqp_log b @ [c]\<rparr>))"

definition connection_is_open :: "(broker, bool) exec" where
  "connection_is_open = reads (\<lambda>b. amqp_alive b (amqp_count b))"

definition close_if_open :: "(broker, unit) exec" where
  "close_if_open = andthen connection_is_open (\<lambda>alive. if alive then amqp CloseConnection else ret ())"

section \<open>Publishers\<close>

record publisher =
  events :: "domain_event list"
  messages :: "message list"
  broker_of :: broker

definition in_broker :: "(broker, 'a) exec \<Rightarrow> (publisher, 'a) exec" where
  "in_broker = zoom broker_of (\<lambda>b s. s\<lparr>broker_of := b\<rparr>)"

record 's publisher_port =
  publish :: "domain_event \<Rightarrow> ('s, unit) exec"
  published_messages :: "('s, message list) exec"
  drain :: "('s, message list) exec"

subsection \<open>In memory (in\_memory\_event\_publisher.py)\<close>

definition memory_publish :: "domain_event \<Rightarrow> (publisher, unit) exec" where
  "memory_publish ev =
     andthen (writes (\<lambda>s. s\<lparr>events := events s @ [ev]\<rparr>)) (\<lambda>_.
     andthen (from_result (event_to_message ev)) (\<lambda>m.
       writes (\<lambda>s. s\<lparr>messages := messages s @ [m]\<rparr>)))"

definition memory_drain :: "(publisher, message list) exec" where
  "memory_drain = andthen (reads messages) (\<lambda>ms.
     andthen (writes (\<lambda>s. s\<lparr>events := [], messages := []\<rparr>)) (\<lambda>_. ret ms))"

definition InMemoryEventPublisher :: "publisher publisher_port" where
  "InMemoryEventPublisher =
     \<lparr>publish = memory_publish, published_messages = reads messages, drain = memory_drain\<rparr>"

subsection \<open>RabbitMQ (rabbitmq\_event\_publisher.py, rabbitmq\_blocking\_publisher.py)\<close>

record publisher_settings =
  amqp_url :: string
  amqp_exchange :: string
  amqp_routing_key :: string
  amqp_queue :: string

definition message_body :: "message \<Rightarrow> string" where
  "message_body m = utf8_encode (dumps_compact (JObj m))"

definition channel_publish :: "publisher_settings \<Rightarrow> domain_event \<Rightarrow> (broker, unit) exec" where
  "channel_publish st ev =
     andthen (from_result (event_to_message ev)) (\<lambda>m.
       amqp (BasicPublish (amqp_exchange st) (amqp_routing_key st) (message_body m)))"

definition build_publisher :: "publisher_settings \<Rightarrow> (broker, unit) exec" where
  "build_publisher st =
     andthen (amqp (Connect (amqp_url st))) (\<lambda>_.
     andthen (amqp OpenChannel) (\<lambda>_.
     andthen (amqp (ExchangeDeclare (amqp_exchange st))) (\<lambda>_.
     andthen (amqp (QueueDeclare (amqp_queue st))) (\<lambda>_.
       amqp (QueueBind (amqp_exchange st) (amqp_queue st) (amqp_routing_key st))))))"

definition blocking_publish :: "publisher_settings \<Rightarrow> domain_event \<Rightarrow> (publisher, unit) exec" where
  "blocking_publish st ev =
     andthen (in_broker (build_publisher st)) (\<lambda>_.
       try_finally
         (andthen (in_broker (channel_publish st ev)) (\<lambda>_.
          andthen (from_result (event_to_message ev)) (\<lambda>m.
            writes (\<lambda>s. s\<lparr>messages := messages s @ [m]\<rparr>))))
         (in_broker close_if_open))"

definition blocking_drain :: "(publisher, message list) exec" where
  "blocking_drain = andthen (reads messages) (\<lambda>ms.
     andthen (writes (\<lambda>s. s\<lparr>messages := []\<rparr>)) (\<lambda>_. ret ms))"

definition RabbitMqBlockingEventPublisher :: "publisher_settings \<Rightarrow> publisher publisher_port" where
  "RabbitMqBlockingEventPublisher st =
     \<lparr>publish = blocking_publish st, published_messages = reads messages, drain = blocking_drain\<rparr>"

section \<open>The consumer (rabbitmq\_event\_consumer.py) and the worker (rabbitmq\_blocking\_worker.py)\<close>

definition parse_message :: "(string \<Rightarrow> string) \<Rightarrow> string \<Rightarrow> py_error + message" where
  "parse_message flt body =
     bind_sum (loads_bytes flt body) (\<lambda>v.
       case v of
         JObj m \<Rightarrow> bind_sum (validate_event_message m) (\<lambda>_. Inr m)
       | _ \<Rightarrow> Inl (ValueError ''RabbitMQ message body must be an object''))"

definition handle_message ::
    "(string \<Rightarrow> string) \<Rightarrow> (message \<Rightarrow> ('s, 'a) exec) option \<Rightarrow> string \<Rightarrow> ('s, message) exec" where
  "handle_message flt handler body =
     andthen (from_result (parse_message flt body)) (\<lambda>m.
       case handler of None \<Rightarrow> ret m | Some h \<Rightarrow> andthen (h m) (\<lambda>_. ret m))"

text \<open>\<open>except Exception\<close> does not catch \<open>SystemExit\<close>.\<close>

fun is_exception :: "py_error \<Rightarrow> bool" where
  "is_exception (SystemExit _) = False"
| "is_exception _ = True"

text \<open>
  The callback runs on the state of the process; \<open>chan\<close> runs a channel operation on the
  worker's own connection in it.
\<close>

definition handle_delivery ::
    "((broker, unit) exec \<Rightarrow> ('s, unit) exec) \<Rightarrow> (string \<Rightarrow> string) \<Rightarrow> (message \<Rightarrow> ('s, string) exec) \<Rightarrow>
       nat \<Rightarrow> string \<Rightarrow> ('s, unit) exec" where
  "handle_delivery chan flt handler tag body =
     try_except
       (andthen (from_result (parse_message flt body)) (\<lambda>m.
        andthen (handler m) (\<lambda>_. chan (amqp (BasicAck tag)))))
       (\<lambda>e. if is_exception e then Some (chan (amqp (BasicNack tag False))) else None)"

definition worker_connect :: "publisher_settings \<Rightarrow> string list \<Rightarrow> (broker, unit) exec" where
  "worker_connect st keys =
     andthen (amqp (Connect (amqp_url st))) (\<lambda>_.
     andthen (amqp OpenChannel) (\<lambda>_.
     andthen (amqp (ExchangeDeclare (amqp_exchange st))) (\<lambda>_.
     andthen (amqp (QueueDeclare (amqp_queue st))) (\<lambda>_.
       foldl (\<lambda>m key. andthen m (\<lambda>_. amqp (QueueBind (amqp_exchange st) (amqp_queue st) key)))
         (ret ()) keys))))"

text \<open>\<open>start_consuming\<close> calls the callback for each delivery of the broker, in turn.\<close>

fun consume ::
    "(nat \<Rightarrow> string \<Rightarrow> ('s, unit) exec) \<Rightarrow> (nat \<times> string) list \<Rightarrow> ('s, unit) exec" where
  "consume callback [] = ret ()"
| "consume callback ((tag, body) # ds) = andthen (callback tag body) (\<lambda>_. consume callback ds)"

definition worker_start ::
    "((broker, unit) exec \<Rightarrow> ('s, unit) exec) \<Rightarrow> publisher_settings \<Rightarrow> (string \<Rightarrow> string) \<Rightarrow>
       (message \<Rightarrow> ('s, string) exec) \<Rightarrow> (nat \<times> string) list \<Rightarrow> ('s, unit) exec" where
  "worker_start chan st flt handler deliveries =
     andthen (chan (amqp (BasicQos 1))) (\<lambda>_.
     andthen (chan (amqp (BasicConsume (amqp_queue st)))) (\<lambda>_.
       consume (handle_delivery chan flt handler) deliveries))"

section \<open>Messages that validate\<close>

definition known_event :: "domain_event \<Rightarrow> bool" where
  "known_event ev \<longleftrightarrow> event_type ev \<in> set integration_event_types"

lemma to_message_keys: "map fst (to_message ev) =
  [''event_id'', ''event_type'', ''correlation_id'', ''occurred_at'', ''payload'']"
  by (simp add: to_message_def)

lemma to_message_lookup [simp]:
  "map_of (to_message ev) ''event_id'' = Some (JStr (event_id ev))"
  "map_of (to_message ev) ''event_type'' = Some (JStr (event_type ev))"
  "map_of (to_message ev) ''correlation_id'' = Some (JStr (correlation_id ev))"
  "map_of (to_message ev) ''payload'' = Some (JObj (payload ev))"
  by (simp_all add: to_message_def)

lemma validate_iff:
  "validate_event_message m = Inr () \<longleftrightarrow>
     set required_fields \<subseteq> fst ` set m \<and>
     (\<exists>et. map_of m ''event_type'' = Some (JStr et) \<and> et \<in> set integration_event_types) \<and>
     (\<exists>pl. map_of m ''payload'' = Some (JObj pl))"
  (is "?l \<longleftrightarrow> ?a \<and> ?b \<and> ?c")
proof -
  have fields: "filter (\<lambda>f. f \<notin> set (map fst m)) required_fields = [] \<longleftrightarrow> ?a"
    by (auto simp: filter_empty_conv)
  show ?thesis
  proof (cases ?a)
    case False
    then show ?thesis using fields by (simp add: validate_event_message_def)
  next
    case True
    then have run: "validate_event_message m = bind_sum (item m ''event_type'') (\<lambda>et.
        if \<not> hashable et then Inl (TypeError ''unhashable type'')
        else if et \<notin> JStr ` set integration_event_types
        then Inl (ValueError (''Unsupported event type: '' @ str_json et))
        else bind_sum (item m ''payload'') (\<lambda>pl.
          case pl of JObj _ \<Rightarrow> Inr () | _ \<Rightarrow> Inl (ValueError ''Event payload must be an object'')))"
      using fields by (simp add: validate_event_message_def)
    show ?thesis
      unfolding run using True
      by (auto simp: item_def bind_sum_def split: option.splits json.splits if_splits)
  qed
qed

lemma event_to_message_known [simp]:
  assumes "known_event ev"
  shows "event_to_message ev = Inr (to_message ev)"
proof -
  have "set required_fields \<subseteq> fst ` set (to_message ev)"
    by (simp add: required_fields_def to_message_def)
  then have "validate_event_message (to_message ev) = Inr ()"
    using assms by (simp add: validate_iff known_event_def)
  then show ?thesis by (simp add: event_to_message_def)
qed

lemma event_to_message_unknown:
  assumes "\<not> known_event ev"
  shows "\<exists>m. event_to_message ev = Inl (ValueError m)"
proof -
  have f: "filter (\<lambda>f. f \<notin> set (map fst (to_message ev))) required_fields = []"
    by (simp add: to_message_keys required_fields_def)
  have n: "JStr (event_type ev) \<notin> JStr ` set integration_event_types"
    using assms by (auto simp: known_event_def)
  show ?thesis
    using f n by (simp add: event_to_message_def validate_event_message_def item_def Let_def)
qed

text \<open>The events the entities make: their type is known and their payload is made of texts.\<close>

definition is_text :: "json \<Rightarrow> bool" where
  "is_text v = (case v of JStr _ \<Rightarrow> True | _ \<Rightarrow> False)"

lemma is_text_JStr [simp]: "is_text (JStr s)"
  by (simp add: is_text_def)

definition text_payload :: "domain_event \<Rightarrow> bool" where
  "text_payload ev \<longleftrightarrow> distinct (map fst (payload ev)) \<and> list_all (\<lambda>kv. is_text (snd kv)) (payload ev)"

lemma update_text:
  "list_all (\<lambda>kv. is_text (snd kv)) d \<Longrightarrow> is_text v \<Longrightarrow> list_all (\<lambda>kv. is_text (snd kv)) (AList.update k v d)"
  by (induction d) auto

lemma dict_update_text:
  "list_all (\<lambda>kv. is_text (snd kv)) d \<Longrightarrow> list_all (\<lambda>kv. is_text (snd kv)) e \<Longrightarrow>
     list_all (\<lambda>kv. is_text (snd kv)) (dict_update d e)"
proof (induction e arbitrary: d)
  case (Cons kv e)
  have "list_all (\<lambda>kv. is_text (snd kv)) (AList.update (fst kv) (snd kv) d)"
    using Cons.prems by (intro update_text) simp_all
  from Cons.IH[OF this] Cons.prems show ?case
    by (simp add: dict_update_def case_prod_unfold)
qed (simp add: dict_update_def)

lemma payloads_text [simp]:
  "list_all (\<lambda>kv. is_text (snd kv)) pl \<Longrightarrow> text_payload (event_at e et c (quote_payload q pl))"
  "list_all (\<lambda>kv. is_text (snd kv)) pl \<Longrightarrow> text_payload (event_at e et c (payment_payload p pl))"
  by (simp_all add: text_payload_def quote_payload_def payment_payload_def distinct_dict_update dict_update_text)

lemma json_ok_message: "text_payload ev \<Longrightarrow> json_ok flt (JObj (to_message ev))"
proof -
  assume "text_payload ev"
  moreover have "json_ok flt v" if "is_text v" for v
    using that by (simp add: is_text_def split: json.splits)
  ultimately show ?thesis
    by (auto simp: text_payload_def to_message_def list_all_iff)
qed

lemma json_ok_message_round_trip:
  "known_event ev \<Longrightarrow> text_payload ev \<Longrightarrow> parse_message flt (message_body (to_message ev)) = Inr (to_message ev)"
proof -
  assume known: "known_event ev" and texts: "text_payload ev"
  have "validate_event_message (to_message ev) = Inr ()"
    using event_to_message_known[OF known]
    by (simp add: event_to_message_def bind_sum_def Let_def split: sum.splits)
  moreover have "loads_bytes flt (message_body (to_message ev)) = Inr (JObj (to_message ev))"
    unfolding message_body_def by (rule loads_bytes_dumps[OF json_ok_message[OF texts]])
  ultimately show ?thesis by (simp add: parse_message_def)
qed

lemma payment_method_event:
  assumes "payment_method g a p e = (Inr (p', ev), e')"
  shows "known_event ev \<and> text_payload ev"
  using assms
  by (cases a) (auto simp: payment_create_preference_run payment_confirm_run payment_fail_run
      known_event_def integration_event_types_def split: if_splits prod.splits sum.splits)

lemma quote_method_event:
  assumes "quote_method a q e = (Inr (q', ev), e')"
  shows "known_event ev \<and> text_payload ev"
  using assms
  by (cases a) (auto simp: quote_approve_run quote_cancel_run
      known_event_def integration_event_types_def split: if_splits)

lemma quote_create_event:
  assumes "quote_create so items tot e = (Inr (q, ev), e')"
  shows "known_event ev \<and> text_payload ev"
  using assms
  by (auto simp: quote_create_run Let_def known_event_def integration_event_types_def split: if_splits)

section \<open>What a publisher promises\<close>

definition is_broker_error :: "py_error \<Rightarrow> bool" where
  "is_broker_error x = (case x of BrokerError _ \<Rightarrow> True | BrokerValueError _ \<Rightarrow> True | _ \<Rightarrow> False)"

lemma fault_is_broker_error [simp]: "is_broker_error (fault_error f)"
  by (cases f) (simp_all add: is_broker_error_def)

text \<open>
  \<open>view\<close> is the list the publisher reports. A publish that raises may still have reached the
  broker: the connection is closed afterwards, and that can fail too.
\<close>

locale event_publisher =
  fixes port :: "'s publisher_port"
    and view :: "'s \<Rightarrow> message list"
  assumes publish_law: "known_event ev \<Longrightarrow> publish port ev s = (r, s') \<Longrightarrow>
      (case r of
         Inr _ \<Rightarrow> view s' = view s @ [to_message ev]
       | Inl x \<Rightarrow> is_broker_error x \<and> (view s' = view s \<or> view s' = view s @ [to_message ev]))"
    and list_law: "published_messages port s = (Inr (view s), s)"
    and drain_law: "drain port s = (q, t) \<Longrightarrow> q = Inr (view s) \<and> view t = []"
begin

lemma publishE:
  assumes "known_event ev" and "publish port ev s = (r, s')"
  obtains (sent) "r = Inr ()" "view s' = view s @ [to_message ev]"
        | (failed) x ms where "r = Inl x" "is_broker_error x" "view s' = view s @ ms"
            "ms = [] \<or> ms = [to_message ev]"
proof (cases r)
  case (Inl x)
  then show thesis using publish_law[OF assms] failed[of x "[]"] failed[of x "[to_message ev]"] by auto
next
  case (Inr u)
  then show thesis using publish_law[OF assms] sent by simp
qed

lemma listed_until_drained:
  assumes "known_event ev" and "publish port ev s = (Inr u, s')" and "drain port s' = (q, t)"
  shows "q = Inr (view s @ [to_message ev]) \<and> published_messages port t = (Inr [], t)"
  using publish_law[OF assms(1,2)] drain_law[OF assms(3)] list_law[of t] by simp

end

interpretation memory_publisher: event_publisher InMemoryEventPublisher messages
  by unfold_locales
     (auto simp: InMemoryEventPublisher_def memory_publish_def memory_drain_def)

text \<open>
  The broker side. \<open>sent\<close> is what \<open>basic_publish\<close> handed to the broker; a run of
  \<open>blocking_publish\<close> appends the same message to both lists, or to neither.
\<close>

definition sent :: "amqp_op list \<Rightarrow> string list" where
  "sent ops = concat (map (\<lambda>c. case c of BasicPublish _ _ body \<Rightarrow> [body] | _ \<Rightarrow> []) ops)"

lemma sent_simps [simp]:
  "sent [] = []" "sent (a @ b) = sent a @ sent b"
  "sent [BasicPublish x k body] = [body]" "sent [CloseConnection] = []" "sent [Connect u] = []"
  "sent [OpenChannel] = []" "sent [ExchangeDeclare x] = []" "sent [QueueDeclare q] = []"
  "sent [QueueBind x q k] = []"
  by (simp_all add: sent_def)

lemma amqp_cases:
  assumes "amqp c b = (r, b')"
  obtains (performed) "r = Inr ()" "amqp_log b' = amqp_log b @ [c]"
        | (failed) f where "r = Inl (fault_error f)" "amqp_log b' = amqp_log b"
  using assms by (auto simp: amqp_def Let_def split: option.splits)

definition unsent :: "(broker, 'a) exec \<Rightarrow> bool" where
  "unsent m \<longleftrightarrow> (\<forall>b r b'. m b = (r, b') \<longrightarrow>
     sent (amqp_log b') = sent (amqp_log b) \<and> (\<forall>x. r = Inl x \<longrightarrow> is_broker_error x))"

lemma unsent_amqp: "sent [c] = [] \<Longrightarrow> unsent (amqp c)"
  by (auto simp: unsent_def elim!: amqp_cases)

lemma unsent_andthen:
  assumes "unsent m" and "\<And>x. unsent (f x)"
  shows "unsent (andthen m f)"
  unfolding unsent_def
proof (intro allI impI)
  fix b r b' assume "andthen m f b = (r, b')"
  then show "sent (amqp_log b') = sent (amqp_log b) \<and> (\<forall>x. r = Inl x \<longrightarrow> is_broker_error x)"
  proof (cases rule: andthen_cases)
    case (raised e)
    then show ?thesis using assms(1) unfolding unsent_def by blast
  next
    case (returned x s')
    then have "sent (amqp_log s') = sent (amqp_log b)" using assms(1) unfolding unsent_def by blast
    with returned(2) show ?thesis using assms(2)[of x] unfolding unsent_def by metis
  qed
qed

lemma unsent_ret [simp]: "unsent (ret x)" "unsent (reads f)"
  by (simp_all add: unsent_def)

lemma build_publisher_unsent: "unsent (build_publisher st)"
  unfolding build_publisher_def by (intro unsent_andthen unsent_amqp) simp_all

lemma close_if_open_unsent: "unsent close_if_open"
  unfolding close_if_open_def connection_is_open_def
  by (intro unsent_andthen) (auto intro: unsent_amqp)

lemma in_brokerE:
  assumes "in_broker m s = (r, s')"
  obtains b' where "m (broker_of s) = (r, b')" "s' = s\<lparr>broker_of := b'\<rparr>"
  using assms unfolding in_broker_def by (rule zoomE)

lemma in_broker_unsent:
  assumes "unsent m" and "in_broker m s = (r, s')"
  shows "messages s' = messages s \<and> sent (amqp_log (broker_of s')) = sent (amqp_log (broker_of s)) \<and>
    (\<forall>x. r = Inl x \<longrightarrow> is_broker_error x)"
proof -
  obtain b' where b': "m (broker_of s) = (r, b')" "s' = s\<lparr>broker_of := b'\<rparr>"
    using assms(2) by (rule in_brokerE)
  then show ?thesis using assms(1) unfolding unsent_def by simp
qed

text \<open>The body of the \<open>try\<close>: both lists grow by the message, or neither does.\<close>

definition publish_and_record :: "publisher_settings \<Rightarrow> domain_event \<Rightarrow> (publisher, unit) exec" where
  "publish_and_record st ev =
     andthen (in_broker (channel_publish st ev)) (\<lambda>_.
     andthen (from_result (event_to_message ev)) (\<lambda>m.
       writes (\<lambda>s. s\<lparr>messages := messages s @ [m]\<rparr>)))"

lemma publish_and_record_run:
  assumes "known_event ev" and "publish_and_record st ev s = (r, s')"
  shows "case r of
      Inr _ \<Rightarrow> messages s' = messages s @ [to_message ev] \<and>
        sent (amqp_log (broker_of s')) = sent (amqp_log (broker_of s)) @ [message_body (to_message ev)]
    | Inl x \<Rightarrow> is_broker_error x \<and> messages s' = messages s \<and>
        sent (amqp_log (broker_of s')) = sent (amqp_log (broker_of s))"
proof -
  let ?op = "BasicPublish (amqp_exchange st) (amqp_routing_key st) (message_body (to_message ev))"
  obtain r1 b1 where b1: "amqp ?op (broker_of s) = (r1, b1)" by fastforce
  have run: "in_broker (channel_publish st ev) s = (r1, s\<lparr>broker_of := b1\<rparr>)"
    using assms(1) b1 by (simp add: in_broker_def zoom_def channel_publish_def)
  from b1 show ?thesis
    by (cases rule: amqp_cases)
       (use assms run in \<open>auto simp: publish_and_record_def\<close>)
qed

lemma blocking_publish_run:
  assumes known: "known_event ev" and run: "blocking_publish st ev s = (r, s')"
  obtains ms where "messages s' = messages s @ ms"
    "sent (amqp_log (broker_of s')) = sent (amqp_log (broker_of s)) @ map message_body ms"
    "ms = [] \<or> ms = [to_message ev]" "\<And>u. r = Inr u \<Longrightarrow> ms = [to_message ev]"
    "\<And>x. r = Inl x \<Longrightarrow> is_broker_error x"
proof -
  let ?guarded = "try_finally (publish_and_record st ev) (in_broker close_if_open)"
  have "andthen (in_broker (build_publisher st)) (\<lambda>_. ?guarded) s = (r, s')"
    using run unfolding blocking_publish_def publish_and_record_def .
  then show thesis
  proof (cases rule: andthen_cases)
    case (raised e)
    then show thesis
      using in_broker_unsent[OF build_publisher_unsent raised(1)] that[of "[]"] by simp
  next
    case (returned u s1)
    note s1 = in_broker_unsent[OF build_publisher_unsent returned(1)]
    obtain r2 s2 where s2: "publish_and_record st ev s1 = (r2, s2)" by fastforce
    obtain r3 s3 where s3: "in_broker close_if_open s2 = (r3, s3)" by fastforce
    note body = publish_and_record_run[OF known s2]
    note fin = in_broker_unsent[OF close_if_open_unsent s3]
    have end_state: "s' = s3" and r: "r = (case r3 of Inl e \<Rightarrow> Inl e | Inr _ \<Rightarrow> r2)"
      using returned(2) s2 s3 by (auto simp: try_finally_def split: sum.splits)
    show thesis
    proof (cases r2)
      case (Inl x)
      then show thesis using body fin s1 r end_state that[of "[]"] by (auto split: sum.splits)
    next
      case (Inr w)
      then show thesis using body fin s1 r end_state that[of "[to_message ev]"] by (auto split: sum.splits)
    qed
  qed
qed

interpretation rabbit_publisher: event_publisher "RabbitMqBlockingEventPublisher st" messages for st
proof (unfold_locales, goal_cases)
  case (1 ev s r s')
  then have "blocking_publish st ev s = (r, s')" by (simp add: RabbitMqBlockingEventPublisher_def)
  then show ?case
  proof (rule blocking_publish_run[OF 1(1)])
    fix ms assume "messages s' = messages s @ ms" "ms = [] \<or> ms = [to_message ev]"
      "\<And>u. r = Inr u \<Longrightarrow> ms = [to_message ev]" "\<And>x. r = Inl x \<Longrightarrow> is_broker_error x"
    then show ?thesis by (cases r) auto
  qed
qed (auto simp: RabbitMqBlockingEventPublisher_def blocking_drain_def)

section \<open>Properties of messaging\<close>

text \<open>
  Property C14. Every event an entity makes survives the wire: the bytes the publisher sends
  for it are decoded, parsed and validated by the consumer into the very same message. So no
  event of this service is ever rejected by the contract, on either side.
\<close>

theorem entity_events_survive_the_wire:
  "(case quote_create so items tot e of
      (Inl x, e') \<Rightarrow> True
    | (Inr (q, ev), e') \<Rightarrow> parse_message flt (message_body (to_message ev)) = Inr (to_message ev)) \<and>
   (case quote_method a q e of
      (Inl x, e') \<Rightarrow> True
    | (Inr (q', ev), e') \<Rightarrow> parse_message flt (message_body (to_message ev)) = Inr (to_message ev)) \<and>
   (case payment_method g c p e of
      (Inl x, e') \<Rightarrow> True
    | (Inr (p', ev), e') \<Rightarrow> parse_message flt (message_body (to_message ev)) = Inr (to_message ev))"
  by (auto split: prod.splits sum.splits
      dest!: quote_create_event quote_method_event payment_method_event
      intro: json_ok_message_round_trip)

text \<open>
  Property C15. The consumer hands a message to the handler exactly when the body is UTF-8
  JSON text of an object with all required fields, a known event type and an object as
  payload; on anything else it raises and the handler is not called.
\<close>

theorem consumer_accepts_valid_messages_only:
  "(parse_message flt body = Inr m \<longleftrightarrow>
      loads_bytes flt body = Inr (JObj m) \<and> set required_fields \<subseteq> fst ` set m \<and>
      (\<exists>et. map_of m ''event_type'' = Some (JStr et) \<and> et \<in> set integration_event_types) \<and>
      (\<exists>pl. map_of m ''payload'' = Some (JObj pl))) \<and>
   (case parse_message flt body of
      Inl x \<Rightarrow> handle_message flt (Some h) body s = (Inl x, s)
    | Inr d \<Rightarrow> handle_message flt (Some h) body s = andthen (h d) (\<lambda>_. ret d) s)"
proof
  have "bind_sum (validate_event_message m') (\<lambda>_. Inr m') = Inr m \<longleftrightarrow>
      m' = m \<and> validate_event_message m = Inr ()" for m'
    by (auto simp: bind_sum_def split: sum.splits)
  then have "parse_message flt body = Inr m \<longleftrightarrow>
      loads_bytes flt body = Inr (JObj m) \<and> validate_event_message m = Inr ()"
    by (auto simp: parse_message_def bind_sum_def[of "loads_bytes flt body"]
        split: sum.splits json.splits)
  then show "parse_message flt body = Inr m \<longleftrightarrow>
      loads_bytes flt body = Inr (JObj m) \<and> set required_fields \<subseteq> fst ` set m \<and>
      (\<exists>et. map_of m ''event_type'' = Some (JStr et) \<and> et \<in> set integration_event_types) \<and>
      (\<exists>pl. map_of m ''payload'' = Some (JObj pl))"
    by (simp add: validate_iff)
  show "case parse_message flt body of
      Inl x \<Rightarrow> handle_message flt (Some h) body s = (Inl x, s)
    | Inr d \<Rightarrow> handle_message flt (Some h) body s = andthen (h d) (\<lambda>_. ret d) s"
    by (simp add: handle_message_def split: sum.splits)
qed

text \<open>
  Property C16. Whatever fails at the broker, the list of published messages the service
  reports and what was really sent agree: a publish of a known event adds the message to both
  or to neither, adds it if it returns, and raises nothing but the broker's exception.
\<close>

theorem publisher_reports_what_it_sent:
  assumes "event_type ev \<in> set integration_event_types"
  shows "case publish (RabbitMqBlockingEventPublisher st) ev s of (r, s') \<Rightarrow>
    \<exists>ms. messages s' = messages s @ ms \<and>
      sent (amqp_log (broker_of s')) = sent (amqp_log (broker_of s)) @ map message_body ms \<and>
      (case r of
         Inr _ \<Rightarrow> ms = [to_message ev]
       | Inl x \<Rightarrow> is_broker_error x \<and> ms \<in> {[], [to_message ev]})"
proof -
  obtain r s' where run: "blocking_publish st ev s = (r, s')" by fastforce
  have "known_event ev" using assms by (simp add: known_event_def)
  then show ?thesis
    using run by (rule blocking_publish_run)
      (use run in \<open>auto simp: RabbitMqBlockingEventPublisher_def split: sum.splits\<close>)
qed

definition sample_broker :: broker where
  "sample_broker = \<lparr>amqp_log = [], amqp_count = 0, amqp_fault = (\<lambda>_. None), amqp_alive = (\<lambda>_. True)\<rparr>"

definition sample_publisher :: publisher where
  "sample_publisher = \<lparr>events = [], messages = [], broker_of = sample_broker\<rparr>"

definition sample_event :: domain_event where
  "sample_event = \<lparr>event_type = ''PAYMENT_CONFIRMED'', correlation_id = ''so1'',
     payload = [(''payment_id'', JStr ''p1'')], event_id = ''e1'', occurred_at = sample_time\<rparr>"

definition sample_publisher_settings :: publisher_settings where
  "sample_publisher_settings =
     \<lparr>amqp_url = ''amqp://localhost'', amqp_exchange = ''billing'', amqp_routing_key = ''billing.event'',
      amqp_queue = ''billing-events''\<rparr>"

theorem publisher_reports_what_it_sent_witness:
  "case publish (RabbitMqBlockingEventPublisher sample_publisher_settings) sample_event sample_publisher of (r, s') \<Rightarrow>
    \<exists>ms. messages s' = messages sample_publisher @ ms \<and>
      sent (amqp_log (broker_of s')) = sent (amqp_log (broker_of sample_publisher)) @ map message_body ms \<and>
      (case r of
         Inr _ \<Rightarrow> ms = [to_message sample_event]
       | Inl x \<Rightarrow> is_broker_error x \<and> ms \<in> {[], [to_message sample_event]})"
  by (rule publisher_reports_what_it_sent)
     (simp add: sample_event_def integration_event_types_def)

text \<open>
  The set-up of a publish runs before its \<open>try\<close>: when the broker refuses the channel, the
  connection that was just opened is never closed.
\<close>

lemma failed_set_up_leaks_connection:
  "case publish (RabbitMqBlockingEventPublisher sample_publisher_settings) sample_event
     (sample_publisher\<lparr>broker_of := sample_broker\<lparr>amqp_fault := (\<lambda>n. if n = 1 then Some (Amqp_Error ''refused'') else None)\<rparr>\<rparr>) of
     (r, s') \<Rightarrow> r = Inl (BrokerError ''refused'') \<and> amqp_log (broker_of s') = [Connect ''amqp://localhost'']"
  by (simp add: RabbitMqBlockingEventPublisher_def blocking_publish_def build_publisher_def in_broker_def
      zoom_def andthen_def amqp_def Let_def sample_publisher_def sample_broker_def sample_publisher_settings_def)

end
