(* ===== verification/Json_Total.thy ===== *)
theory Json_Total
  imports Json_Proofs Messaging
begin

text \<open>
  The reader of \<open>json.loads\<close> and its fuel: a result never depends on the fuel once there is one,
  and the fuel that \<open>loads\<close> starts with is enough for every text. So the model of reading a
  message always ends, with the message or with an error about the text itself. (CPython has a
  limit the model has not: a text nested some thousand levels deep ends in a \<open>RecursionError\<close>.)
\<close>

section \<open>Reading consumes the text\<close>

lemma skip_ws_shorter: "length (skip_ws s) \<le> length s"
  by (simp add: skip_ws_def length_dropWhile_le)

lemma scan_str_shorter: "scan_str s = Some (t, r) \<Longrightarrow> length r < length s"
proof (induction s arbitrary: t rule: scan_str.induct)
  case (2 c cs)
  then show ?case
    by (auto split: if_splits list.splits option.splits simp del: unescape_u_def) fastforce+
qed simp

lemma scan_frac_shorter: "scan_frac s = (a, r) \<Longrightarrow> length r \<le> length s"
  by (auto simp: scan_frac_def le_SucI length_dropWhile_le split: list.splits if_splits)

lemma scan_exp_shorter: "scan_exp s = (a, r) \<Longrightarrow> length r \<le> length s"
  by (auto simp: scan_exp_def Let_def le_SucI length_dropWhile_le split: list.splits if_splits)

lemma scan_number_shorter: "scan_number flt s = Some (v, r) \<Longrightarrow> length r < length s"
proof -
  assume a: "scan_number flt s = Some (v, r)"
  obtain neg t where t: "(case s of c # u \<Rightarrow> if c = CHR ''-'' then (True, u) else (False, s) | [] \<Rightarrow> (False, [])) = (neg, t)"
    by fastforce
  let ?ds = "case t of c # u \<Rightarrow> if c = CHR ''0'' then [c] else takeWhile is_digit t | [] \<Rightarrow> []"
  obtain fr r1 ex r2 where f: "scan_frac (drop (length ?ds) t) = (fr, r1)" "scan_exp r1 = (ex, r2)" by fastforce
  have "?ds \<noteq> []" and r: "r = r2" using a t f by (auto simp: scan_number_def Let_def split: if_splits)
  then have "t \<noteq> []" by (auto split: list.splits)
  moreover have "length t \<le> length s" using t by (auto split: list.splits if_splits)
  moreover have "length r2 \<le> length (drop (length ?ds) t)" using scan_frac_shorter[OF f(1)] scan_exp_shorter[OF f(2)] by simp
  ultimately show ?thesis using \<open>?ds \<noteq> []\<close> r by (cases t) (auto split: if_splits)
qed

lemma scan_atom_shorter: "scan_atom flt s = Some (v, r) \<Longrightarrow> length r < length s"
proof (cases "find (\<lambda>(w, v). startswith s w) scan_words")
  case None
  assume "scan_atom flt s = Some (v, r)"
  then show ?thesis using None by (simp add: scan_atom_def scan_number_shorter)
next
  case (Some p)
  assume "scan_atom flt s = Some (v, r)"
  moreover have "p \<in> set scan_words" "startswith s (fst p)" using Some by (auto simp: find_Some_iff dest: nth_mem)
  ultimately show ?thesis using Some by (cases s) (auto simp: scan_atom_def scan_words_def startswith_def)
qed

lemma scan_shorter:
  "scan_value flt n s = Some (v, r) \<Longrightarrow> length r < length s"
  "scan_elems flt n s = Some (vs, r) \<Longrightarrow> length r < length s"
  "scan_members flt n s d = Some (kvs, r) \<Longrightarrow> length r < length s"
proof (induction n arbitrary: s v r vs d kvs)
  case 0
  { case 1 then show ?case by simp }
  { case 2 then show ?case by simp }
  { case 3 then show ?case by simp }
next
  case (Suc n)
  { case 1
    then obtain c cs where s: "s = c # cs" by (cases s) auto
    have ws: "length (skip_ws cs) \<le> length cs" by (rule skip_ws_shorter)
    show ?case
      using 1 ws s
      by (auto split: if_splits list.splits dest!: scan_str_shorter scan_atom_shorter Suc.IH(2) Suc.IH(3))
  next
    case 2
    obtain v u where v: "scan_value flt n s = Some (v, u)" using 2 by (auto split: option.splits)
    have u: "length u < length s" by (rule Suc.IH(1)[OF v])
    show ?case
    proof (cases "skip_ws u")
      case Nil
      then show ?thesis using 2 v by simp
    next
      case (Cons x w)
      have "length w < length u" "length (skip_ws w) \<le> length w"
        using skip_ws_shorter[of u] skip_ws_shorter[of w] Cons by simp_all
      then show ?thesis using 2 v u Cons by (auto split: if_splits dest!: Suc.IH(2))
    qed
  next
    case 3
    obtain cs where s: "s = CHR 0x22 # cs" using 3 by (cases s) (auto split: if_splits)
    obtain k a where k: "scan_str cs = Some (k, a)" using 3 s by (auto split: option.splits)
    obtain b where b: "skip_ws a = CHR '':'' # b" using 3 s k by (auto split: list.splits if_splits)
    obtain v u where v: "scan_value flt n (skip_ws b) = Some (v, u)" using 3 s k b by (auto split: option.splits)
    obtain x w where x: "skip_ws u = x # w" using 3 s k b v by (auto split: list.splits)
    have "length u < length s" "length w < length u" "length (skip_ws w) \<le> length w"
      using scan_str_shorter[OF k] skip_ws_shorter[of a] skip_ws_shorter[of b] Suc.IH(1)[OF v]
        skip_ws_shorter[of u] skip_ws_shorter[of w] s b x by simp_all
    then show ?case using 3 s k b v x by (auto split: if_splits dest!: Suc.IH(3)) }
qed

section \<open>Enough fuel\<close>

text \<open>
  A value needs two units for each character and one more: it opens with a character, and the
  elements or members behind it start with a value of their own.
\<close>

lemma scan_settled:
  "2 * length s + 1 \<le> n \<Longrightarrow> scan_value flt (Suc n) s = scan_value flt n s"
  "2 * length s + 2 \<le> n \<Longrightarrow> scan_elems flt (Suc n) s = scan_elems flt n s"
  "2 * length s + 2 \<le> n \<Longrightarrow> scan_members flt (Suc n) s d = scan_members flt n s d"
proof (induction n arbitrary: s d)
  case 0
  { case 1 then show ?case by simp }
  { case 2 then show ?case by simp }
  { case 3 then show ?case by simp }
next
  case (Suc n)
  { case 1
    show ?case
    proof (cases s)
      case (Cons c cs)
      have inner: "scan_elems flt (Suc n) (skip_ws cs) = scan_elems flt n (skip_ws cs)"
          "scan_members flt (Suc n) (skip_ws cs) [] = scan_members flt n (skip_ws cs) []"
        using 1 Cons skip_ws_shorter[of cs] by (auto intro!: Suc.IH simp del: scan_elems.simps scan_members.simps)
      show ?thesis
        unfolding Cons scan_value.simps(2)[of flt "Suc n" "c # cs"] scan_value.simps(2)[of flt n "c # cs"]
        using inner by (cases "skip_ws cs") (simp_all del: scan_value.simps scan_elems.simps scan_members.simps)
    qed simp
  next
    case 2
    have v: "scan_value flt (Suc n) s = scan_value flt n s" using 2 by (intro Suc.IH(1)) simp
    have rest: "scan_elems flt (Suc n) (skip_ws w) = scan_elems flt n (skip_ws w)"
      if "scan_value flt n s = Some (a, u)" and "skip_ws u = x # w" for a u x w
      using 2 scan_shorter(1)[OF that(1)] skip_ws_shorter[of u] skip_ws_shorter[of w] that(2) by (intro Suc.IH(2)) simp
    show ?case
      unfolding scan_elems.simps(2)[of flt "Suc n" s] scan_elems.simps(2)[of flt n s] v
      by (auto simp del: scan_value.simps scan_elems.simps scan_members.simps simp: rest split: option.split list.split)
  next
    case 3
    show ?case
    proof (cases s)
      case (Cons q cs)
      have v: "scan_value flt (Suc n) (skip_ws b) = scan_value flt n (skip_ws b)"
        if "scan_str cs = Some (k, a)" and "skip_ws a = y # b" for k a y b
        using 3 Cons scan_str_shorter[OF that(1)] skip_ws_shorter[of a] skip_ws_shorter[of b] that(2)
        by (intro Suc.IH(1)) simp
      have rest: "scan_members flt (Suc n) (skip_ws w) d' = scan_members flt n (skip_ws w) d'"
        if "scan_str cs = Some (k, a)" and "skip_ws a = y # b" and "scan_value flt n (skip_ws b) = Some (z, u)"
          and "skip_ws u = x # w" for k a y b z u x w d'
        using 3 Cons scan_str_shorter[OF that(1)] skip_ws_shorter[of a] skip_ws_shorter[of b] scan_shorter(1)[OF that(3)]
          skip_ws_shorter[of u] skip_ws_shorter[of w] that by (intro Suc.IH(3)) simp
      show ?thesis
        unfolding Cons scan_members.simps(2)[of flt "Suc n" "q # cs"] scan_members.simps(2)[of flt n "q # cs"]
        by (auto simp del: scan_value.simps scan_elems.simps scan_members.simps simp: v rest split: option.split list.split)
    qed simp }
qed

lemma scan_value_settled: "2 * length s + 1 \<le> n \<Longrightarrow> scan_value flt n s = scan_value flt (2 * length s + 1) s"
  by (induction n rule: dec_induct) (simp_all add: scan_settled(1) del: scan_value.simps)

text \<open>A result stays when there is more fuel.\<close>

lemma scan_monotone:
  "scan_value flt n s = Some x \<Longrightarrow> scan_value flt (Suc n) s = Some x"
  "scan_elems flt n s = Some y \<Longrightarrow> scan_elems flt (Suc n) s = Some y"
  "scan_members flt n s d = Some z \<Longrightarrow> scan_members flt (Suc n) s d = Some z"
proof (induction n arbitrary: s x y z d)
  case 0
  { case 1 then show ?case by simp }
  { case 2 then show ?case by simp }
  { case 3 then show ?case by simp }
next
  case (Suc n)
  note step = scan_value.simps(2)[of flt "Suc n"] scan_elems.simps(2)[of flt "Suc n"] scan_members.simps(2)[of flt "Suc n"]
  { case 1
    then show ?case unfolding step(1)
      by (auto split: list.splits if_splits dest: Suc.IH(2,3) simp del: scan_elems.simps scan_members.simps)
  next
    case 2
    obtain v u where v: "scan_value flt n s = Some (v, u)" using 2 by (auto split: option.splits)
    note more = Suc.IH(1)[OF v]
    obtain c w where w: "skip_ws u = c # w" using 2 v by (auto split: list.splits)
    show ?case
      using 2 unfolding step(2)[of s] scan_elems.simps(2)[of flt n s] more v option.case prod.case w list.case
      by (auto split: if_splits dest: Suc.IH(2) simp del: scan_elems.simps)
  next
    case 3
    obtain cs where s: "s = CHR 0x22 # cs" using 3 by (cases s) (auto split: if_splits)
    obtain k a where k: "scan_str cs = Some (k, a)" using 3 s by (auto split: option.splits)
    obtain b where b: "skip_ws a = CHR '':'' # b" using 3 s k by (auto split: list.splits if_splits)
    obtain v u where v: "scan_value flt n (skip_ws b) = Some (v, u)" using 3 s k b by (auto split: option.splits)
    note more = Suc.IH(1)[OF v]
    obtain c w where w: "skip_ws u = c # w" using 3 s k b v by (auto split: list.splits)
    show ?case
      using 3 unfolding s step(3)[of "CHR 0x22 # cs" d] scan_members.simps(2)[of flt n "CHR 0x22 # cs" d] list.case k b more v option.case prod.case w list.case
      by (auto split: if_splits dest: Suc.IH(3) simp del: scan_members.simps) }
qed

lemma scan_value_monotone:
  assumes "scan_value flt n s = Some x" and "n \<le> m"
  shows "scan_value flt m s = Some x"
  using assms(2) by (induction m rule: dec_induct) (simp_all add: assms(1) scan_monotone(1) del: scan_value.simps)

lemma loads_total:
  "loads flt s = Inr v \<longleftrightarrow> (\<exists>n r. scan_value flt n (skip_ws s) = Some (v, r) \<and> skip_ws r = [])"
proof -
  let ?t = "skip_ws s"
  let ?bound = "2 * length ?t + 2"
  have "scan_value flt ?bound ?t = Some (v, r)" if "scan_value flt n ?t = Some (v, r)" for n r
  proof -
    have "scan_value flt (max n ?bound) ?t = Some (v, r)" by (rule scan_value_monotone[OF that]) simp
    moreover have "scan_value flt (max n ?bound) ?t = scan_value flt ?bound ?t"
      using scan_value_settled[of ?t "max n ?bound" flt] scan_value_settled[of ?t ?bound flt] by (simp del: scan_value.simps)
    ultimately show ?thesis by simp
  qed
  then have "(\<exists>n r. scan_value flt n ?t = Some (v, r) \<and> skip_ws r = []) \<longleftrightarrow>
      (\<exists>r. scan_value flt ?bound ?t = Some (v, r) \<and> skip_ws r = [])" by blast
  also have "\<dots> \<longleftrightarrow> loads flt s = Inr v"
    unfolding loads_def Let_def by (auto split: option.split simp del: scan_value.simps)
  finally show ?thesis by simp
qed

text \<open>
  So the fuel refuses nothing: a message is accepted when any number of reading steps takes its
  text for an object that is a valid event.
\<close>

lemma parse_message_any_fuel:
  "parse_message flt body = Inr m \<longleftrightarrow>
     (\<exists>text n rest. utf8_decode body = Some text \<and> scan_value flt n (skip_ws text) = Some (JObj m, rest) \<and>
        skip_ws rest = [] \<and> validate_event_message m = Inr ())"
proof -
  have "parse_message flt body = Inr m \<longleftrightarrow> loads_bytes flt body = Inr (JObj m) \<and> validate_event_message m = Inr ()"
    by (auto simp: parse_message_def bind_sum_def split: sum.splits json.splits)
  also have "loads_bytes flt body = Inr (JObj m) \<longleftrightarrow> (\<exists>t. utf8_decode body = Some t \<and> loads flt t = Inr (JObj m))"
    by (simp add: loads_bytes_def split: option.split)
  finally show ?thesis unfolding loads_total by blast
qed

text \<open>The other verdicts are the errors that \<open>loads\<close>, \<open>decode\<close> and the validation name.\<close>

lemma refused_bodies_name_an_error:
  "(\<exists>m. parse_message flt body = Inr m) \<or> (\<exists>msg. parse_message flt body = Inl (ValueError msg)) \<or>
     (\<exists>msg. parse_message flt body = Inl (JSONDecodeError msg)) \<or>
     (\<exists>m e. validate_event_message m = Inl e \<and> parse_message flt body = Inl e)"
  by (auto simp: parse_message_def loads_bytes_def loads_def Let_def bind_sum_def
      split: sum.splits option.splits json.splits simp del: scan_value.simps) (metis obj_sumE)?

end
