(* ===== verification/Storage.thy ===== *)
theory Storage
  imports Domain Json_Text
begin

text \<open>
  \<open>src/infrastructure/repositories\<close>: where quotes and payments live.

  Python objects are shared: the in-memory repository keeps a reference to the object it was
  given, so a method that changes the object changes what is stored. A \<open>cell\<close> therefore has a
  \<open>heap\<close> of objects, and \<open>entries\<close>, the in-memory dictionary, holds addresses. \<open>rows\<close> is
  the table of the SQL repository, which writes a copy of the object and reads back a new one.

  The database is not under \<open>src\<close>: the n-th session fails with \<open>db_fault n\<close> or does its
  work (a failed session applies nothing), and a \<open>select\<close> without order takes whichever
  matching row \<open>db_pick\<close> chooses.
\<close>

section \<open>Cells\<close>

record ('e, 'r) cell =
  heap :: "'e list"
  entries :: "(string \<times> nat) list"
  rows :: "'r list"
  db_sessions :: nat
  db_fault :: "nat \<Rightarrow> string option"
  db_pick :: "'r list \<Rightarrow> nat"

definition alloc :: "'e \<Rightarrow> (('e, 'r) cell, nat) exec" where
  "alloc x c = (Inr (length (heap c)), c\<lparr>heap := heap c @ [x]\<rparr>)"

definition deref :: "nat \<Rightarrow> (('e, 'r) cell, 'e) exec" where
  "deref a c = (Inr (heap c ! a), c)"

definition assign :: "nat \<Rightarrow> 'e \<Rightarrow> (('e, 'r) cell, unit) exec" where
  "assign a x c = (Inr (), c\<lparr>heap := (heap c)[a := x]\<rparr>)"

text \<open>The repository ports of \<open>application/ports.py\<close>: an object is its address.\<close>

record 's repo_port =
  save :: "nat \<Rightarrow> ('s, unit) exec"
  get :: "string \<Rightarrow> ('s, nat) exec"
  get_by_service_order_id :: "string \<Rightarrow> ('s, nat) exec"

section \<open>The in-memory repositories\<close>

definition mem_save :: "('e \<Rightarrow> string) \<Rightarrow> nat \<Rightarrow> (('e, 'r) cell, unit) exec" where
  "mem_save ident a c = (Inr (), c\<lparr>entries := AList.update (ident (heap c ! a)) a (entries c)\<rparr>)"

definition mem_get :: "string \<Rightarrow> string \<Rightarrow> (('e, 'r) cell, nat) exec" where
  "mem_get label i c =
     (case map_of (entries c) i of
        None \<Rightarrow> (Inl (KeyError (label @ '' not found: '' @ i)), c)
      | Some a \<Rightarrow> (Inr a, c))"

definition mem_get_by :: "string \<Rightarrow> ('e \<Rightarrow> string) \<Rightarrow> string \<Rightarrow> (('e, 'r) cell, nat) exec" where
  "mem_get_by label owner so c =
     (case find (\<lambda>a. owner (heap c ! a) = so) (map snd (entries c)) of
        None \<Rightarrow> (Inl (KeyError (label @ '' not found for service order: '' @ so)), c)
      | Some a \<Rightarrow> (Inr a, c))"

section \<open>The SQL repositories\<close>

text \<open>One \<open>with self._session_factory() as session\<close> block.\<close>

definition session :: "(('e, 'r) cell, 'a) exec \<Rightarrow> (('e, 'r) cell, 'a) exec" where
  "session m c =
     (let c' = c\<lparr>db_sessions := Suc (db_sessions c)\<rparr> in
      case db_fault c (db_sessions c) of
        Some msg \<Rightarrow> (Inl (DatabaseError msg), c')
      | None \<Rightarrow> m c')"

text \<open>\<open>select(table).where(P)\<close> and \<open>.first()\<close>.\<close>

definition first :: "('r \<Rightarrow> bool) \<Rightarrow> ('e, 'r) cell \<Rightarrow> 'r option" where
  "first P c =
     (case filter P (rows c) of
        [] \<Rightarrow> None
      | r # rs \<Rightarrow> Some ((r # rs) ! (db_pick c (r # rs) mod length (r # rs))))"

definition sql_save :: "('r \<Rightarrow> string) \<Rightarrow> ('e \<Rightarrow> 'r) \<Rightarrow> nat \<Rightarrow> (('e, 'r) cell, unit) exec" where
  "sql_save key to_row a c =
     (let row = to_row (heap c ! a) in
      session (andthen (reads (first (\<lambda>r. key r = key row))) (\<lambda>existing.
        case existing of
          None \<Rightarrow> writes (\<lambda>c. c\<lparr>rows := rows c @ [row]\<rparr>)
        | Some _ \<Rightarrow> writes (\<lambda>c. c\<lparr>rows := map (\<lambda>r. if key r = key row then row else r) (rows c)\<rparr>))) c)"

definition sql_select ::
    "string \<Rightarrow> ('r \<Rightarrow> string) \<Rightarrow> ('r \<Rightarrow> py_error + 'e) \<Rightarrow> string \<Rightarrow> (('e, 'r) cell, nat) exec" where
  "sql_select label column from_row v =
     andthen (session (reads (first (\<lambda>r. column r = v)))) (\<lambda>row.
       case row of
         None \<Rightarrow> raise (KeyError (label @ v))
       | Some r \<Rightarrow> andthen (from_result (from_row r)) alloc)"

subsection \<open>The quotes table\<close>

record quote_row =
  qr_quote_id :: string
  qr_service_order_id :: string
  qr_items :: json
  qr_amount :: string
  qr_currency :: string
  qr_status :: string

definition quote_to_row :: "quote \<Rightarrow> quote_row" where
  "quote_to_row q =
     \<lparr>qr_quote_id = q_quote_id q, qr_service_order_id = q_service_order_id q,
      qr_items = JArr (map JStr (q_items q)), qr_amount = decimal_str (amount (q_total q)),
      qr_currency = currency (q_total q), qr_status = quote_status_value (q_status q)\<rparr>"

text \<open>\<open>isinstance(v, str)\<close>: the driver gave the JSON column back as text.\<close>

definition parse_column :: "(string \<Rightarrow> string) \<Rightarrow> json \<Rightarrow> py_error + json" where
  "parse_column flt v = (case v of JStr s \<Rightarrow> loads flt s | _ \<Rightarrow> Inr v)"

definition quote_from_row :: "(string \<Rightarrow> string) \<Rightarrow> quote_row \<Rightarrow> py_error + quote" where
  "quote_from_row flt r =
     bind_sum (parse_column flt (qr_items r)) (\<lambda>items.
     bind_sum (case sequence_of items of
                 None \<Rightarrow> Inl (TypeError ''object is not iterable'')
               | Some xs \<Rightarrow> Inr (map str_json xs)) (\<lambda>texts.
     bind_sum (Decimal (qr_amount r)) (\<lambda>d.
     bind_sum (Money d (qr_currency r)) (\<lambda>m.
     bind_sum (QuoteStatus (qr_status r)) (\<lambda>s.
       Inr \<lparr>q_service_order_id = qr_service_order_id r, q_items = texts, q_total = m,
            q_quote_id = qr_quote_id r, q_status = s\<rparr>)))))"

subsection \<open>The payments table\<close>

record payment_row =
  pr_payment_id :: string
  pr_quote_id :: string
  pr_service_order_id :: string
  pr_amount :: string
  pr_currency :: string
  pr_status :: string
  pr_preference :: json

definition preference_to_json :: "payment_preference option \<Rightarrow> json" where
  "preference_to_json p =
     (case p of
        None \<Rightarrow> JNull
      | Some x \<Rightarrow> JObj [(''preference_id'', JStr (preference_id x)),
                        (''checkout_url'', JStr (checkout_url x)),
                        (''external_reference'', external_reference x)])"

definition payment_to_row :: "payment \<Rightarrow> payment_row" where
  "payment_to_row p =
     \<lparr>pr_payment_id = p_payment_id p, pr_quote_id = p_quote_id p,
      pr_service_order_id = p_service_order_id p, pr_amount = decimal_str (amount (p_total p)),
      pr_currency = currency (p_total p), pr_status = payment_status_value (p_status p),
      pr_preference = preference_to_json (p_preference p)\<rparr>"

definition preference_from_json :: "json \<Rightarrow> py_error + payment_preference option" where
  "preference_from_json v =
     (case v of
        JNull \<Rightarrow> Inr None
      | JObj d \<Rightarrow>
          bind_sum (item d ''preference_id'') (\<lambda>i.
          bind_sum (item d ''checkout_url'') (\<lambda>u.
            Inr (Some \<lparr>preference_id = str_json i, checkout_url = str_json u,
                       external_reference = get_default d ''external_reference'' JNull\<rparr>)))
      | _ \<Rightarrow> Inl (TypeError ''object is not subscriptable with a text key''))"

definition payment_from_row :: "(string \<Rightarrow> string) \<Rightarrow> payment_row \<Rightarrow> py_error + payment" where
  "payment_from_row flt r =
     bind_sum (parse_column flt (pr_preference r)) (\<lambda>pref.
     bind_sum (Decimal (pr_amount r)) (\<lambda>d.
     bind_sum (Money d (pr_currency r)) (\<lambda>m.
     bind_sum (PaymentStatus (pr_status r)) (\<lambda>s.
     bind_sum (preference_from_json pref) (\<lambda>p.
       Inr \<lparr>p_quote_id = pr_quote_id r, p_service_order_id = pr_service_order_id r, p_total = m,
            p_payment_id = pr_payment_id r, p_status = s, p_preference = p\<rparr>)))))"

section \<open>The four repositories\<close>

type_synonym quote_cell = "(quote, quote_row) cell"
type_synonym payment_cell = "(payment, payment_row) cell"

definition InMemoryQuoteRepository :: "quote_cell repo_port" where
  "InMemoryQuoteRepository =
     \<lparr>save = mem_save q_quote_id, get = mem_get ''Quote'',
      get_by_service_order_id = mem_get_by ''Quote'' q_service_order_id\<rparr>"

definition InMemoryPaymentRepository :: "payment_cell repo_port" where
  "InMemoryPaymentRepository =
     \<lparr>save = mem_save p_payment_id, get = mem_get ''Payment'',
      get_by_service_order_id = mem_get_by ''Payment'' p_service_order_id\<rparr>"

definition SqlAlchemyQuoteRepository :: "(string \<Rightarrow> string) \<Rightarrow> quote_cell repo_port" where
  "SqlAlchemyQuoteRepository flt =
     \<lparr>save = sql_save qr_quote_id quote_to_row,
      get = sql_select ''Quote not found: '' qr_quote_id (quote_from_row flt),
      get_by_service_order_id =
        sql_select ''Quote not found for service order: '' qr_service_order_id (quote_from_row flt)\<rparr>"

definition SqlAlchemyPaymentRepository :: "(string \<Rightarrow> string) \<Rightarrow> payment_cell repo_port" where
  "SqlAlchemyPaymentRepository flt =
     \<lparr>save = sql_save pr_payment_id payment_to_row,
      get = sql_select ''Payment not found: '' pr_payment_id (payment_from_row flt),
      get_by_service_order_id =
        sql_select ''Payment not found for service order: '' pr_service_order_id (payment_from_row flt)\<rparr>"

end
