(* ===== verification/Repositories.thy ===== *)
theory Repositories
  imports Storage
begin

text \<open>
  What the four repositories promise, as one contract: the locale \<open>repository\<close>. \<open>view\<close> is
  the finite map from identifiers to entities a repository stands for, \<open>good\<close> its
  representation invariant, \<open>linked\<close> says that an object on the heap is stored itself, so
  that a change of the object is a change of the store (in memory), and \<open>reliable\<close> that no
  session of the database will fail. The in-memory and the SQL repositories of quotes and of
  payments are instances.
\<close>

definition reliable :: "('e, 'r) cell \<Rightarrow> bool" where
  "reliable c \<longleftrightarrow> (\<forall>n \<ge> db_sessions c. db_fault c n = None)"

definition is_database_error :: "py_error \<Rightarrow> bool" where
  "is_database_error x = (case x of DatabaseError _ \<Rightarrow> True | _ \<Rightarrow> False)"

lemma is_database_error_simps [simp]:
  "is_database_error (DatabaseError m)" "\<not> is_database_error (KeyError k)"
  "\<not> is_database_error (ValueError v)" "\<not> is_database_error (PaymentGatewayError v s d)"
  by (simp_all add: is_database_error_def)

section \<open>The contract\<close>

locale repository =
  fixes port :: "('e, 'r) cell repo_port"
    and ident owner :: "'e \<Rightarrow> string"
    and valid :: "'e \<Rightarrow> bool"
    and missing missing_owner :: "string \<Rightarrow> string"
    and good :: "('e, 'r) cell \<Rightarrow> bool"
    and view :: "('e, 'r) cell \<Rightarrow> string \<Rightarrow> 'e option"
    and linked :: "('e, 'r) cell \<Rightarrow> nat \<Rightarrow> bool"
  assumes view_ident: "good c \<Longrightarrow> view c i = Some x \<Longrightarrow> ident x = i \<and> valid x"
    and linked_address: "good c \<Longrightarrow> linked c a \<Longrightarrow> a < length (heap c) \<and> valid (heap c ! a)"
    and alloc_law: "good c \<Longrightarrow>
      good (c\<lparr>heap := heap c @ [x]\<rparr>) \<and> view (c\<lparr>heap := heap c @ [x]\<rparr>) = view c \<and>
      linked (c\<lparr>heap := heap c @ [x]\<rparr>) = linked c"
    and assign_law: "good c \<Longrightarrow> a < length (heap c) \<Longrightarrow> ident x = ident (heap c ! a) \<Longrightarrow> valid x \<Longrightarrow>
      good (c\<lparr>heap := (heap c)[a := x]\<rparr>) \<and>
      view (c\<lparr>heap := (heap c)[a := x]\<rparr>) = (if linked c a then (view c)(ident x \<mapsto> x) else view c) \<and>
      linked (c\<lparr>heap := (heap c)[a := x]\<rparr>) = linked c"
    and get_law: "good c \<Longrightarrow> get port i c = (r, c') \<Longrightarrow>
      good c' \<and> view c' = view c \<and>
      (case r of
         Inr a \<Rightarrow> a < length (heap c') \<and> view c i = Some (heap c' ! a)
       | Inl x \<Rightarrow> is_database_error x \<or> view c i = None \<and> x = KeyError (missing i))"
    and get_by_law: "good c \<Longrightarrow> get_by_service_order_id port so c = (r, c') \<Longrightarrow>
      good c' \<and> view c' = view c \<and>
      (case r of
         Inr a \<Rightarrow> a < length (heap c') \<and> owner (heap c' ! a) = so \<and>
                  view c (ident (heap c' ! a)) = Some (heap c' ! a)
       | Inl x \<Rightarrow> is_database_error x \<or>
                  (\<forall>i y. view c i = Some y \<longrightarrow> owner y \<noteq> so) \<and> x = KeyError (missing_owner so))"
    and save_law: "good c \<Longrightarrow> a < length (heap c) \<Longrightarrow> valid (heap c ! a) \<Longrightarrow>
      save port a c = (u, c') \<Longrightarrow>
      good c' \<and> heap c' = heap c \<and>
      (case u of
         Inr _ \<Rightarrow> view c' = (view c)(ident (heap c ! a) \<mapsto> heap c ! a)
       | Inl x \<Rightarrow> is_database_error x \<and> view c' = view c)"
    and reliable_get: "good c \<Longrightarrow> reliable c \<Longrightarrow> get port i c = (r, c') \<Longrightarrow>
      reliable c' \<and> (\<forall>x. r = Inl x \<longrightarrow> \<not> is_database_error x)"
    and reliable_get_by: "good c \<Longrightarrow> reliable c \<Longrightarrow> get_by_service_order_id port so c = (r, c') \<Longrightarrow>
      reliable c' \<and> (\<forall>x. r = Inl x \<longrightarrow> \<not> is_database_error x)"
    and reliable_save: "good c \<Longrightarrow> reliable c \<Longrightarrow> save port a c = (u, c') \<Longrightarrow>
      reliable c' \<and> (\<forall>x. u = Inl x \<longrightarrow> \<not> is_database_error x)"
begin

lemma getE:
  assumes "good c" and "get port i c = (r, c')"
  obtains (found) a where "r = Inr a" "a < length (heap c')" "view c i = Some (heap c' ! a)"
            "ident (heap c' ! a) = i" "valid (heap c' ! a)"
        | (missing) "r = Inl (KeyError (missing i))" "view c i = None"
        | (fault) x where "r = Inl x" "is_database_error x"
proof (cases r)
  case (Inl x)
  then show thesis using get_law[OF assms] missing fault by auto
next
  case (Inr a)
  then have "a < length (heap c')" "view c i = Some (heap c' ! a)"
    using get_law[OF assms] by auto
  then show thesis using found Inr view_ident[OF assms(1)] by blast
qed

lemma get_frame: "good c \<Longrightarrow> get port i c = (r, c') \<Longrightarrow> good c' \<and> view c' = view c"
  using get_law by blast

lemma saveE:
  assumes "good c" and "a < length (heap c)" and "valid (heap c ! a)" and "save port a c = (r, c')"
  obtains (saved) "r = Inr ()" "good c'" "heap c' = heap c"
            "view c' = (view c)(ident (heap c ! a) \<mapsto> heap c ! a)"
        | (fault) x where "r = Inl x" "is_database_error x" "good c'" "heap c' = heap c" "view c' = view c"
  using save_law[OF assms] by (cases r) auto

text \<open>Read an object, change it, save it: the step every command of the service makes.\<close>

lemma change_saved:
  assumes "good c" and "a < length (heap c)" and "view c i = Some (heap c ! a)"
    and "ident x = i" and "valid x"
    and "save port a (c\<lparr>heap := (heap c)[a := x]\<rparr>) = (r, c')"
  shows "good c' \<and> heap c' = (heap c)[a := x] \<and>
    (case r of
       Inr _ \<Rightarrow> view c' = (view c)(i \<mapsto> x)
     | Inl e \<Rightarrow> is_database_error e \<and>
         view c' = (if linked c a then (view c)(i \<mapsto> x) else view c))"
proof -
  let ?c = "c\<lparr>heap := (heap c)[a := x]\<rparr>"
  have i: "ident (heap c ! a) = i"
    using view_ident[OF assms(1,3)] by simp
  note c = assign_law[OF assms(1,2), of x]
  have "good ?c" and v: "view ?c = (if linked c a then (view c)(i \<mapsto> x) else view c)"
    using c assms(4,5) i by simp_all
  then show ?thesis
    using save_law[OF _ _ _ assms(6)] assms(2,4,5) v by (cases r) auto
qed

lemma open_saved:
  assumes "good c" and "valid x"
    and "save port (length (heap c)) (c\<lparr>heap := heap c @ [x]\<rparr>) = (r, c')"
  shows "good c' \<and>
    (case r of
       Inr _ \<Rightarrow> heap c' = heap c @ [x] \<and> view c' = (view c)(ident x \<mapsto> x)
     | Inl e \<Rightarrow> is_database_error e \<and> view c' = view c)"
  using alloc_law[OF assms(1), of x] save_law[OF _ _ _ assms(3)] assms(2) by (cases r) auto

lemma fresh_unlinked: "good c \<Longrightarrow> \<not> linked c (length (heap c))"
  using linked_address by blast

text \<open>Without database faults a look-up ends exactly as the map does.\<close>

lemma reliable_get_iff:
  assumes "good c" and "reliable c" and "get port i c = (r, c')"
  shows "(\<exists>a. r = Inr a) \<longleftrightarrow> view c i \<noteq> None"
  using assms(1,3) by (cases rule: getE) (use reliable_get[OF assms] in auto)

end

section \<open>The in-memory repositories\<close>

definition mem_view :: "('e, 'r) cell \<Rightarrow> string \<Rightarrow> 'e option" where
  "mem_view c i = map_option (\<lambda>a. heap c ! a) (map_of (entries c) i)"

definition mem_good :: "('e \<Rightarrow> string) \<Rightarrow> ('e \<Rightarrow> bool) \<Rightarrow> ('e, 'r) cell \<Rightarrow> bool" where
  "mem_good ident valid c \<longleftrightarrow>
     distinct (map fst (entries c)) \<and>
     (\<forall>(i, a)\<in>set (entries c).
        a < length (heap c) \<and> ident (heap c ! a) = i \<and> valid (heap c ! a))"

definition mem_linked :: "('e, 'r) cell \<Rightarrow> nat \<Rightarrow> bool" where
  "mem_linked c a \<longleftrightarrow> a \<in> snd ` set (entries c)"

lemma mem_goodD:
  "mem_good ident valid c \<Longrightarrow> map_of (entries c) i = Some a \<Longrightarrow>
     a < length (heap c) \<and> ident (heap c ! a) = i \<and> valid (heap c ! a)"
  by (auto simp: mem_good_def dest!: map_of_SomeD)

lemma mem_alloc:
  "mem_good ident valid c \<Longrightarrow>
     mem_good ident valid (c\<lparr>heap := heap c @ [x]\<rparr>) \<and>
     mem_view (c\<lparr>heap := heap c @ [x]\<rparr>) = mem_view c \<and>
     mem_linked (c\<lparr>heap := heap c @ [x]\<rparr>) = mem_linked c"
proof (intro conjI)
  assume g: "mem_good ident valid c"
  then show "mem_good ident valid (c\<lparr>heap := heap c @ [x]\<rparr>)"
    by (fastforce simp: mem_good_def nth_append)
  show "mem_view (c\<lparr>heap := heap c @ [x]\<rparr>) = mem_view c"
    by (rule ext) (auto simp: mem_view_def nth_append dest: mem_goodD[OF g] intro!: map_option_cong)
qed (auto simp: mem_linked_def fun_eq_iff)

lemma mem_assign:
  assumes g: "mem_good ident valid c" and a: "a < length (heap c)"
    and x: "ident x = ident (heap c ! a)" "valid x"
  shows "mem_good ident valid (c\<lparr>heap := (heap c)[a := x]\<rparr>) \<and>
     mem_view (c\<lparr>heap := (heap c)[a := x]\<rparr>) =
       (if mem_linked c a then (mem_view c)(ident x \<mapsto> x) else mem_view c) \<and>
     mem_linked (c\<lparr>heap := (heap c)[a := x]\<rparr>) = mem_linked c"
proof (intro conjI)
  show "mem_good ident valid (c\<lparr>heap := (heap c)[a := x]\<rparr>)"
    using g a x by (fastforce simp: mem_good_def nth_list_update)
  show "mem_view (c\<lparr>heap := (heap c)[a := x]\<rparr>) =
       (if mem_linked c a then (mem_view c)(ident x \<mapsto> x) else mem_view c)"
  proof (rule ext)
    fix i
    have linked: "map_of (entries c) i = Some a \<longleftrightarrow> mem_linked c a \<and> i = ident x"
    proof
      assume "map_of (entries c) i = Some a"
      then show "mem_linked c a \<and> i = ident x"
        using mem_goodD[OF g] x by (force simp: mem_linked_def dest: map_of_SomeD)
    next
      assume l: "mem_linked c a \<and> i = ident x"
      then obtain k where k: "(k, a) \<in> set (entries c)" by (auto simp: mem_linked_def)
      then have "map_of (entries c) k = Some a" using g by (simp add: mem_good_def)
      with l x show "map_of (entries c) i = Some a" using mem_goodD[OF g] by metis
    qed
    show "mem_view (c\<lparr>heap := (heap c)[a := x]\<rparr>) i =
       (if mem_linked c a then (mem_view c)(ident x \<mapsto> x) else mem_view c) i"
    proof (cases "map_of (entries c) i = Some a")
      case True
      then show ?thesis using linked a by (simp add: mem_view_def)
    next
      case False
      then have "mem_view (c\<lparr>heap := (heap c)[a := x]\<rparr>) i = mem_view c i"
        by (auto simp: mem_view_def intro!: map_option_cong nth_list_update_neq)
      then show ?thesis using False linked by auto
    qed
  qed
qed (auto simp: mem_linked_def fun_eq_iff)

lemma mem_save_good:
  assumes "mem_good ident valid c" and "a < length (heap c)" and "valid (heap c ! a)"
    and "mem_save ident a c = (r, c')"
  shows "r = Inr () \<and> mem_good ident valid c' \<and> heap c' = heap c \<and>
    mem_view c' = (mem_view c)(ident (heap c ! a) \<mapsto> heap c ! a) \<and>
    db_fault c' = db_fault c \<and> db_sessions c' = db_sessions c"
proof -
  have c': "r = Inr ()" "c' = c\<lparr>entries := AList.update (ident (heap c ! a)) a (entries c)\<rparr>"
    using assms(4) by (simp_all add: mem_save_def)
  have "mem_good ident valid c'"
    unfolding mem_good_def
  proof (intro conjI ballI)
    show "distinct (map fst (entries c'))"
      using assms(1) by (auto simp: c' mem_good_def intro!: distinct_keys_update)
  next
    fix p assume "p \<in> set (entries c')"
    then have "p = (ident (heap c ! a), a) \<or> p \<in> set (entries c)"
      using set_update_subset[of "ident (heap c ! a)" a "entries c"] by (auto simp: c')
    then show "case p of (i, a) \<Rightarrow>
        a < length (heap c') \<and> ident (heap c' ! a) = i \<and> valid (heap c' ! a)"
      using assms(1-3) by (auto simp: c' mem_good_def)
  qed
  then show ?thesis
    by (simp add: c' mem_view_def map_of_update fun_eq_iff)
qed

lemma mem_get_cases:
  assumes "mem_good ident valid c" and "mem_get label i c = (r, c')"
  shows "c' = c \<and> (case r of
     Inr a \<Rightarrow> a < length (heap c) \<and> mem_view c i = Some (heap c ! a)
   | Inl x \<Rightarrow> mem_view c i = None \<and> x = KeyError (label @ '' not found: '' @ i))"
  using assms by (auto simp: mem_get_def mem_view_def dest: mem_goodD split: option.splits)

lemma mem_get_by_cases:
  assumes g: "mem_good ident valid c" and "mem_get_by label owner so c = (r, c')"
  shows "c' = c \<and> (case r of
     Inr a \<Rightarrow> a < length (heap c) \<and> owner (heap c ! a) = so \<and>
              mem_view c (ident (heap c ! a)) = Some (heap c ! a)
   | Inl x \<Rightarrow> (\<forall>i y. mem_view c i = Some y \<longrightarrow> owner y \<noteq> so) \<and>
              x = KeyError (label @ '' not found for service order: '' @ so))"
proof (cases "find (\<lambda>a. owner (heap c ! a) = so) (map snd (entries c))")
  case None
  then have none: "owner (heap c ! a) \<noteq> so" if "(i, a) \<in> set (entries c)" for i a
    using that by (force simp: find_None_iff)
  have "\<forall>i y. mem_view c i = Some y \<longrightarrow> owner y \<noteq> so"
    by (auto simp: mem_view_def dest!: map_of_SomeD none)
  moreover have "r = Inl (KeyError (label @ '' not found for service order: '' @ so))" "c' = c"
    using assms(2) None by (simp_all add: mem_get_by_def)
  ultimately show ?thesis by simp
next
  case (Some a)
  then have "a \<in> set (map snd (entries c))" and o: "owner (heap c ! a) = so"
    unfolding find_Some_iff by (metis nth_mem)+
  then obtain i where "(i, a) \<in> set (entries c)" by auto
  then have "map_of (entries c) i = Some a" using g by (simp add: mem_good_def)
  then show ?thesis
    using assms(2) Some o mem_goodD[OF g, of i a] by (auto simp: mem_get_by_def mem_view_def)
qed

lemma mem_view_ident: "mem_good ident valid c \<Longrightarrow> mem_view c i = Some x \<Longrightarrow> ident x = i \<and> valid x"
  by (auto simp: mem_view_def dest: mem_goodD)

lemma mem_linked_address:
  "mem_good ident valid c \<Longrightarrow> mem_linked c a \<Longrightarrow> a < length (heap c) \<and> valid (heap c ! a)"
  by (auto simp: mem_linked_def mem_good_def)

lemma mem_reliable:
  "mem_get label i c = (r, c') \<Longrightarrow> c' = c \<and> (\<forall>x. r = Inl x \<longrightarrow> \<not> is_database_error x)"
  "mem_get_by label owner so c = (r, c') \<Longrightarrow> c' = c \<and> (\<forall>x. r = Inl x \<longrightarrow> \<not> is_database_error x)"
  "mem_save ident a c = (u, c') \<Longrightarrow> reliable c' = reliable c \<and> u = Inr ()"
  by (auto simp: mem_get_def mem_get_by_def mem_save_def reliable_def split: option.splits)

lemma mem_repository:
  "repository \<lparr>save = mem_save ident, get = mem_get label, get_by_service_order_id = mem_get_by label owner\<rparr>
     ident owner valid (\<lambda>i. label @ '' not found: '' @ i)
     (\<lambda>so. label @ '' not found for service order: '' @ so)
     (mem_good ident valid) mem_view mem_linked"
proof (unfold_locales, goal_cases)
  case (1 c i x) then show ?case by (rule mem_view_ident)
next
  case (2 c a) then show ?case by (rule mem_linked_address)
next
  case (3 c x) then show ?case by (rule mem_alloc)
next
  case (4 c a x) then show ?case by (rule mem_assign)
next
  case (5 c i r c')
  then show ?case using mem_get_cases[OF 5(1), of label i r c'] by (cases r) simp_all
next
  case (6 c so r c')
  then show ?case using mem_get_by_cases[OF 6(1), of label owner so r c'] by (cases r) simp_all
next
  case (7 c a u c')
  then show ?case using mem_save_good[OF 7(1-3), of u c'] by simp
next
  case (8 c i r c') then show ?case using mem_reliable(1)[of label i c r c'] by auto
next
  case (9 c so r c') then show ?case using mem_reliable(2)[of label owner so c r c'] by auto
next
  case (10 c a u c') then show ?case using mem_reliable(3)[of ident a c u c'] by auto
qed

interpretation memory_quotes: repository
  InMemoryQuoteRepository q_quote_id q_service_order_id "\<lambda>q. valid_money (q_total q)"
  "\<lambda>i. ''Quote'' @ '' not found: '' @ i" "\<lambda>so. ''Quote'' @ '' not found for service order: '' @ so"
  "mem_good q_quote_id (\<lambda>q. valid_money (q_total q))" mem_view mem_linked
  unfolding InMemoryQuoteRepository_def by (rule mem_repository)

interpretation memory_payments: repository
  InMemoryPaymentRepository p_payment_id p_service_order_id "\<lambda>p. valid_money (p_total p)"
  "\<lambda>i. ''Payment'' @ '' not found: '' @ i" "\<lambda>so. ''Payment'' @ '' not found for service order: '' @ so"
  "mem_good p_payment_id (\<lambda>p. valid_money (p_total p))" mem_view mem_linked
  unfolding InMemoryPaymentRepository_def by (rule mem_repository)

section \<open>The SQL repositories\<close>

subsection \<open>Rows\<close>

lemma sequence_of_JArr [simp]: "sequence_of (JArr xs) = Some xs"
  by simp

lemma quote_row_round_trip: "valid_money (q_total q) \<Longrightarrow> quote_from_row flt (quote_to_row q) = Inr q"
  by (simp add: quote_from_row_def quote_to_row_def parse_column_def comp_def)

lemma preference_round_trip: "preference_from_json (preference_to_json p) = Inr p"
  by (cases p) (simp_all add: preference_from_json_def preference_to_json_def item_def get_default_def)

lemma parse_preference: "parse_column flt (preference_to_json p) = Inr (preference_to_json p)"
  by (cases p) (simp_all add: parse_column_def preference_to_json_def)

lemma payment_row_round_trip:
  "valid_money (p_total p) \<Longrightarrow> payment_from_row flt (payment_to_row p) = Inr p"
  by (simp add: payment_from_row_def payment_to_row_def parse_preference preference_round_trip)

lemma row_columns [simp]:
  "qr_quote_id (quote_to_row q) = q_quote_id q"
  "qr_service_order_id (quote_to_row q) = q_service_order_id q"
  "pr_payment_id (payment_to_row p) = p_payment_id p"
  "pr_service_order_id (payment_to_row p) = p_service_order_id p"
  by (simp_all add: quote_to_row_def payment_to_row_def)

subsection \<open>Tables\<close>

definition sql_view :: "('r \<Rightarrow> string) \<Rightarrow> ('r \<Rightarrow> py_error + 'e) \<Rightarrow> ('e, 'r) cell \<Rightarrow> string \<Rightarrow> 'e option" where
  "sql_view key from_row c i =
     (case find (\<lambda>r. key r = i) (rows c) of
        None \<Rightarrow> None
      | Some r \<Rightarrow> (case from_row r of Inl _ \<Rightarrow> None | Inr x \<Rightarrow> Some x))"

definition sql_good ::
    "('r \<Rightarrow> string) \<Rightarrow> ('e \<Rightarrow> 'r) \<Rightarrow> ('r \<Rightarrow> py_error + 'e) \<Rightarrow> ('e \<Rightarrow> bool) \<Rightarrow> ('e, 'r) cell \<Rightarrow> bool" where
  "sql_good key to_row from_row valid c \<longleftrightarrow>
     distinct (map key (rows c)) \<and>
     (\<forall>r\<in>set (rows c). case from_row r of Inl _ \<Rightarrow> False | Inr x \<Rightarrow> valid x \<and> to_row x = r)"

lemma find_distinct:
  "distinct (map f xs) \<Longrightarrow> x \<in> set xs \<Longrightarrow> find (\<lambda>y. f y = f x) xs = Some x"
  by (induction xs) auto

lemma sql_goodE:
  assumes "sql_good key to_row from_row valid c" and "r \<in> set (rows c)"
  obtains x where "from_row r = Inr x" "valid x" "to_row x = r"
    "sql_view key from_row c (key r) = Some x"
proof -
  obtain x where "from_row r = Inr x" "valid x" "to_row x = r"
    using assms by (cases "from_row r") (auto simp: sql_good_def dest!: bspec)
  moreover have "find (\<lambda>y. key y = key r) (rows c) = Some r"
    using assms by (auto simp: sql_good_def intro: find_distinct)
  ultimately show thesis using that by (simp add: sql_view_def)
qed

lemma sql_viewE:
  assumes "sql_view key from_row c i = Some x"
  obtains r where "r \<in> set (rows c)" "key r = i" "from_row r = Inr x"
proof -
  obtain r where r: "find (\<lambda>r. key r = i) (rows c) = Some r" "from_row r = Inr x"
    using assms by (auto simp: sql_view_def split: option.splits sum.splits)
  then show thesis using that unfolding find_Some_iff by (metis nth_mem)
qed

lemma first_cases:
  obtains (none) "first P c = None" "\<forall>r\<in>set (rows c). \<not> P r"
        | (row) r where "first P c = Some r" "r \<in> set (rows c)" "P r"
proof (cases "filter P (rows c)")
  case Nil
  then show thesis using none by (simp add: first_def filter_empty_conv)
next
  case (Cons r rs)
  let ?r = "(r # rs) ! (db_pick c (r # rs) mod length (r # rs))"
  have "?r \<in> set (r # rs)" by (rule nth_mem) simp
  then have "?r \<in> set (filter P (rows c))" unfolding Cons .
  then have "?r \<in> set (rows c)" "P ?r" by (simp_all only: set_filter mem_Collect_eq)
  moreover have "first P c = Some ?r" by (simp add: first_def Cons)
  ultimately show thesis using row by blast
qed

lemma session_cases:
  assumes "session m c = (r, c')"
  obtains (fault) msg where "db_fault c (db_sessions c) = Some msg" "r = Inl (DatabaseError msg)"
            "c' = c\<lparr>db_sessions := Suc (db_sessions c)\<rparr>"
        | (runs) "db_fault c (db_sessions c) = None" "m (c\<lparr>db_sessions := Suc (db_sessions c)\<rparr>) = (r, c')"
  using assms by (auto simp: session_def Let_def split: option.splits)

lemma sql_rows_frame:
  "rows c' = rows c \<Longrightarrow> sql_good key to_row from_row valid c' = sql_good key to_row from_row valid c"
  "rows c' = rows c \<Longrightarrow> sql_view key from_row c' = sql_view key from_row c"
  by (simp_all add: sql_good_def sql_view_def fun_eq_iff)

lemma sql_selectE:
  assumes g: "sql_good key to_row from_row valid c"
    and s: "sql_select label column from_row v c = (r, c')"
  obtains (fault) msg where "r = Inl (DatabaseError msg)" "rows c' = rows c"
            "db_fault c (db_sessions c) = Some msg"
        | (none) "r = Inl (KeyError (label @ v))" "rows c' = rows c" "\<forall>row\<in>set (rows c). column row \<noteq> v"
        | (row) row x where "r = Inr (length (heap c))" "rows c' = rows c" "heap c' = heap c @ [x]"
            "row \<in> set (rows c)" "column row = v" "valid x" "to_row x = row"
            "sql_view key from_row c (key row) = Some x"
proof -
  let ?read = "reads (first (\<lambda>r. column r = v)) :: ('b, 'a) cell \<Rightarrow> (py_error + 'a option) \<times> ('b, 'a) cell"
  let ?c = "c\<lparr>db_sessions := Suc (db_sessions c)\<rparr>"
  show thesis
  proof (cases "db_fault c (db_sessions c)")
    case (Some msg)
    then have "session ?read c = (Inl (DatabaseError msg), ?c)" by (simp add: session_def)
    then show thesis using s fault[of msg] Some by (auto simp: sql_select_def)
  next
    case None
    then have run: "session ?read c = (Inr (first (\<lambda>r. column r = v) ?c), ?c)"
      by (simp add: session_def Let_def)
    show thesis
    proof (rule first_cases[of "\<lambda>r. column r = v" ?c])
      assume none: "first (\<lambda>r. column r = v) ?c = None" "\<forall>r\<in>set (rows ?c). column r \<noteq> v"
      then show thesis using s run that(2) by (auto simp: sql_select_def)
    next
      fix rw assume row: "first (\<lambda>r. column r = v) ?c = Some rw" "rw \<in> set (rows ?c)" "column rw = v"
      obtain x where x: "from_row rw = Inr x" "valid x" "to_row x = rw"
          "sql_view key from_row c (key rw) = Some x"
        using sql_goodE[OF g] row(2) by simp metis
      then have "r = Inr (length (heap c)) \<and> c' = ?c\<lparr>heap := heap c @ [x]\<rparr>"
        using s run row(1) by (auto simp: sql_select_def alloc_def)
      then show thesis using that(3)[of x rw] row x by simp
    qed
  qed
qed

lemma sql_view_insert:
  assumes "\<forall>r\<in>set rs. key r \<noteq> key row" and "from_row row = Inr x"
    and "rows c = rs" and "rows c' = rs @ [row]"
  shows "sql_view key from_row c' = (sql_view key from_row c)(key row \<mapsto> x)"
proof (rule ext)
  fix i
  have "find (\<lambda>r. key r = i) (rs @ [row]) =
      (if i = key row then Some row else find (\<lambda>r. key r = i) rs)"
    using assms(1) by (induction rs) auto
  then show "sql_view key from_row c' i = ((sql_view key from_row c)(key row \<mapsto> x)) i"
    using assms(2-4) by (simp add: sql_view_def)
qed

lemma find_replace:
  "i \<noteq> key row \<Longrightarrow>
     find (\<lambda>r. key r = i) (map (\<lambda>r. if key r = key row then row else r) rs) = find (\<lambda>r. key r = i) rs"
  "r \<in> set rs \<Longrightarrow> key r = key row \<Longrightarrow>
     find (\<lambda>r. key r = key row) (map (\<lambda>r. if key r = key row then row else r) rs) = Some row"
  by (induction rs) auto

lemma sql_view_replace:
  assumes "r \<in> set rs" and "key r = key row" and "from_row row = Inr x"
    and "rows c = rs" and "rows c' = map (\<lambda>r. if key r = key row then row else r) rs"
  shows "sql_view key from_row c' = (sql_view key from_row c)(key row \<mapsto> x)"
proof (rule ext)
  fix i
  show "sql_view key from_row c' i = ((sql_view key from_row c)(key row \<mapsto> x)) i"
    using assms find_replace(1)[of i key row rs] find_replace(2)[of r rs key row]
    by (cases "i = key row") (simp_all add: sql_view_def)
qed

lemma map_key_replace: "map key (map (\<lambda>r. if key r = key row then row else r) rs) = map key rs"
  by (induction rs) auto

lemma sql_save_cases:
  assumes g: "sql_good key to_row from_row valid c" and x: "valid (heap c ! a)"
    and rt: "from_row (to_row (heap c ! a)) = Inr (heap c ! a)"
    and s: "sql_save key to_row a c = (r, c')"
  shows "sql_good key to_row from_row valid c' \<and> heap c' = heap c \<and>
    (case r of
       Inr _ \<Rightarrow> sql_view key from_row c' = (sql_view key from_row c)(key (to_row (heap c ! a)) \<mapsto> heap c ! a)
     | Inl x \<Rightarrow> is_database_error x \<and> sql_view key from_row c' = sql_view key from_row c)"
proof -
  let ?row = "to_row (heap c ! a)"
  let ?c = "c\<lparr>db_sessions := Suc (db_sessions c)\<rparr>"
  show ?thesis
  proof (cases "db_fault c (db_sessions c)")
    case (Some msg)
    then have "r = Inl (DatabaseError msg)" "c' = ?c"
      using s by (auto simp: sql_save_def session_def Let_def)
    then show ?thesis using g by (simp add: sql_good_def sql_view_def fun_eq_iff)
  next
    case None
    show ?thesis
    proof (rule first_cases[of "\<lambda>r. key r = key ?row" ?c])
      assume none: "first (\<lambda>r. key r = key ?row) ?c = None" "\<forall>r\<in>set (rows ?c). key r \<noteq> key ?row"
      then have c': "r = Inr ()" "c' = ?c\<lparr>rows := rows c @ [?row]\<rparr>"
        using s None by (auto simp: sql_save_def session_def Let_def)
      moreover have "sql_good key to_row from_row valid c'"
        using g none rt x by (auto simp: c' sql_good_def)
      moreover have "sql_view key from_row c' = (sql_view key from_row c)(key ?row \<mapsto> heap c ! a)"
        using none rt c' by (intro sql_view_insert) auto
      ultimately show ?thesis by simp
    next
      fix rw assume row: "first (\<lambda>r. key r = key ?row) ?c = Some rw" "rw \<in> set (rows ?c)" "key rw = key ?row"
      then have c': "r = Inr ()"
          "c' = ?c\<lparr>rows := map (\<lambda>r. if key r = key ?row then ?row else r) (rows c)\<rparr>"
        using s None by (auto simp: sql_save_def session_def Let_def)
      moreover have "sql_good key to_row from_row valid c'"
        using g rt x unfolding c' sql_good_def by (simp add: map_key_replace del: map_map) auto
      moreover have "sql_view key from_row c' = (sql_view key from_row c)(key ?row \<mapsto> heap c ! a)"
        using row rt c' by (intro sql_view_replace[of rw]) auto
      ultimately show ?thesis by simp
    qed
  qed
qed

lemma reliable_step:
  "reliable c \<Longrightarrow> db_fault c' = db_fault c \<Longrightarrow> db_sessions c \<le> db_sessions c' \<Longrightarrow> reliable c'"
  by (simp add: reliable_def)

lemma sql_save_reliable:
  assumes "reliable c" and "sql_save key to_row a c = (u, c')"
  shows "reliable c' \<and> u = Inr ()"
proof -
  have "db_fault c (db_sessions c) = None" using assms(1) by (simp add: reliable_def)
  then have "u = Inr () \<and> db_fault c' = db_fault c \<and> db_sessions c' = Suc (db_sessions c)"
    using assms(2) by (auto simp: sql_save_def session_def Let_def andthen_def split: option.splits)
  then show ?thesis using reliable_step[OF assms(1), of c'] by simp
qed

lemma sql_select_reliable:
  assumes g: "sql_good key to_row from_row valid c" and rel: "reliable c"
    and s: "sql_select label column from_row v c = (r, c')"
  shows "reliable c' \<and> (\<forall>x. r = Inl x \<longrightarrow> \<not> is_database_error x)"
proof -
  have frame: "db_fault c' = db_fault c \<and> db_sessions c' = Suc (db_sessions c)"
    using s by (auto simp: sql_select_def session_def Let_def andthen_def alloc_def
        split: option.splits sum.splits)
  have "db_fault c (db_sessions c) = None" using rel by (simp add: reliable_def)
  with g s have "\<forall>x. r = Inl x \<longrightarrow> \<not> is_database_error x"
    by (auto elim!: sql_selectE)
  with frame show ?thesis using reliable_step[OF rel, of c'] by simp
qed

lemma sql_alloc:
  "sql_good key to_row from_row valid c \<Longrightarrow>
     sql_good key to_row from_row valid (c\<lparr>heap := h\<rparr>) \<and>
     sql_view key from_row (c\<lparr>heap := h\<rparr>) = sql_view key from_row c"
  by (simp add: sql_good_def sql_view_def fun_eq_iff)

lemma sql_repository:
  assumes round_trip: "\<And>x. valid x \<Longrightarrow> from_row (to_row x) = Inr x"
    and key: "\<And>x. key (to_row x) = ident x" and so: "\<And>x. column (to_row x) = owner x"
  shows "repository \<lparr>save = sql_save key to_row, get = sql_select label key from_row,
                     get_by_service_order_id = sql_select label_owner column from_row\<rparr>
     ident owner valid (\<lambda>i. label @ i) (\<lambda>so. label_owner @ so)
     (sql_good key to_row from_row valid) (sql_view key from_row) (\<lambda>_ _. False)"
proof (unfold_locales, goal_cases)
  case (1 c i x)
  then obtain r where r: "r \<in> set (rows c)" "key r = i" "from_row r = Inr x"
    by (auto elim: sql_viewE)
  from sql_goodE[OF 1(1) r(1)] obtain y where "from_row r = Inr y" "valid y" "to_row y = r" .
  with r key[of x] show ?case by simp
next
  case (3 c x) then show ?case using sql_alloc[OF 3] by simp
next
  case (4 c a x) then show ?case using sql_alloc[OF 4(1)] by simp
next
  case (5 c i r c')
  from 5(2) have run: "sql_select label key from_row i c = (r, c')" by simp
  show ?case
  proof (cases rule: sql_selectE[OF 5(1) run])
    case 2
    then have "find (\<lambda>r. key r = i) (rows c) = None" by (auto simp: find_None_iff)
    then have "sql_view key from_row c i = None" by (simp add: sql_view_def)
    with 2 5(1) show ?thesis by (simp add: sql_rows_frame[of c' c])
  qed (use 5(1) sql_rows_frame[of c' c] in simp_all)
next
  case (6 c v r c')
  from 6(2) have run: "sql_select label_owner column from_row v c = (r, c')" by simp
  show ?case
  proof (cases rule: sql_selectE[OF 6(1) run])
    case none: 2
    have "owner y \<noteq> v" if stored: "sql_view key from_row c i = Some y" for i y
    proof -
      obtain rw where rw: "rw \<in> set (rows c)" "from_row rw = Inr y"
        by (rule sql_viewE[OF stored])
      from sql_goodE[OF 6(1) rw(1)] obtain z where "from_row rw = Inr z" "to_row z = rw" .
      with rw none so[of y] show ?thesis by auto
    qed
    with none 6(1) show ?thesis by (simp add: sql_rows_frame[of c' c])
  next
    case row: (3 rw x)
    then show ?thesis using 6(1) key[of x] so[of x] by (simp add: sql_rows_frame[of c' c])
  qed (use 6(1) sql_rows_frame[of c' c] in simp_all)
next
  case (7 c a u c')
  then show ?case using sql_save_cases[OF 7(1,3) round_trip[OF 7(3)], of u c'] key by (cases u) simp_all
next
  case (8 c i r c') then show ?case using sql_select_reliable[OF 8(1,2)] by simp
next
  case (9 c v r c') then show ?case using sql_select_reliable[OF 9(1,2)] by simp
next
  case (10 c a u c') then show ?case using sql_save_reliable[OF 10(2)] by fastforce
qed simp

interpretation table_quotes: repository
  "SqlAlchemyQuoteRepository flt" q_quote_id q_service_order_id "\<lambda>q. valid_money (q_total q)"
  "\<lambda>i. ''Quote not found: '' @ i" "\<lambda>so. ''Quote not found for service order: '' @ so"
  "sql_good qr_quote_id quote_to_row (quote_from_row flt) (\<lambda>q. valid_money (q_total q))"
  "sql_view qr_quote_id (quote_from_row flt)" "\<lambda>_ _. False"
  for flt
  unfolding SqlAlchemyQuoteRepository_def
  by (rule sql_repository) (simp_all add: quote_row_round_trip)

interpretation table_payments: repository
  "SqlAlchemyPaymentRepository flt" p_payment_id p_service_order_id "\<lambda>p. valid_money (p_total p)"
  "\<lambda>i. ''Payment not found: '' @ i" "\<lambda>so. ''Payment not found for service order: '' @ so"
  "sql_good pr_payment_id payment_to_row (payment_from_row flt) (\<lambda>p. valid_money (p_total p))"
  "sql_view pr_payment_id (payment_from_row flt)" "\<lambda>_ _. False"
  for flt
  unfolding SqlAlchemyPaymentRepository_def
  by (rule sql_repository) (simp_all add: payment_row_round_trip)

section \<open>Properties of the repositories\<close>

definition empty_cell :: "('e, 'r) cell" where
  "empty_cell = \<lparr>heap = [], entries = [], rows = [], db_sessions = 0, db_fault = \<lambda>_. None, db_pick = \<lambda>_. 0\<rparr>"

lemma empty_cell_good [simp]:
  "mem_good ident valid empty_cell" "sql_good key to_row from_row valid empty_cell"
  "reliable empty_cell" "reliable (empty_cell\<lparr>heap := h\<rparr>)"
  "mem_good ident valid (empty_cell\<lparr>heap := h\<rparr>)"
  "sql_good key to_row from_row valid (empty_cell\<lparr>heap := h\<rparr>)"
  "mem_view (empty_cell\<lparr>heap := h\<rparr>) = Map.empty" "sql_view key from_row (empty_cell\<lparr>heap := h\<rparr>) = Map.empty"
  by (auto simp: empty_cell_def mem_good_def sql_good_def reliable_def mem_view_def sql_view_def)

text \<open>
  Property C12. What the payments table is given it gives back: with a database that answers,
  saving a payment succeeds, and looking its identifier up afterwards returns a new object
  equal in every field to the saved one (amount, currency, status and checkout preference
  included, through their text and JSON columns).
\<close>

theorem payment_table_round_trip:
  assumes "sql_good pr_payment_id payment_to_row (payment_from_row flt) (\<lambda>p. valid_money (p_total p)) c"
    and "reliable c" and "a < length (heap c)" and "valid_money (p_total (heap c ! a))"
  shows "case save (SqlAlchemyPaymentRepository flt) a c of (r, c1) \<Rightarrow>
     r = Inr () \<and>
     (case get (SqlAlchemyPaymentRepository flt) (p_payment_id (heap c ! a)) c1 of
        (Inl x, c2) \<Rightarrow> False
      | (Inr b, c2) \<Rightarrow> heap c2 ! b = heap c ! a \<and> b < length (heap c2))"
proof -
  obtain r c1 where s: "save (SqlAlchemyPaymentRepository flt) a c = (r, c1)" by fastforce
  note rel = table_payments.reliable_save[OF assms(1,2) s]
  from assms(1,3,4) s have c1: "r = Inr ()"
      "sql_good pr_payment_id payment_to_row (payment_from_row flt) (\<lambda>p. valid_money (p_total p)) c1"
      "sql_view pr_payment_id (payment_from_row flt) c1 (p_payment_id (heap c ! a)) = Some (heap c ! a)"
    by (cases rule: table_payments.saveE; use rel in simp)+
  obtain r2 c2 where g: "get (SqlAlchemyPaymentRepository flt) (p_payment_id (heap c ! a)) c1 = (r2, c2)"
    by fastforce
  have "reliable c1" using rel by simp
  from table_payments.reliable_get[OF c1(2) this g] table_payments.get_law[OF c1(2) g] c1(3)
  show ?thesis using s g c1(1) by (cases r2) auto
qed

theorem payment_table_round_trip_witness:
  "case save (SqlAlchemyPaymentRepository id) 0 (empty_cell\<lparr>heap := [sample_payment]\<rparr>) of (r, c1) \<Rightarrow>
     r = Inr () \<and>
     (case get (SqlAlchemyPaymentRepository id) ''p1'' c1 of
        (Inl x, c2) \<Rightarrow> False
      | (Inr b, c2) \<Rightarrow> heap c2 ! b = sample_payment \<and> b < length (heap c2))"
  using payment_table_round_trip[of id "empty_cell\<lparr>heap := [sample_payment]\<rparr>" 0]
  by (simp split: prod.splits sum.splits)

text \<open>
  Property C13. The two modes of the service store quotes alike, in all three operations of the
  port. Take an in-memory and an SQL repository that hold the same quotes, with a database that
  answers. (1) For every identifier they give equal quotes or raise the same \<open>KeyError\<close>. (2) For
  every service order either both raise the same \<open>KeyError\<close>, or both give a stored quote of that
  order, and they give equal quotes when a single stored quote carries the order. With several
  quotes of one order, which nothing in the service excludes, the two may differ: the dictionary
  is searched in the order of insertion, and the \<open>SELECT\<close> names no order. (3) After saving equal
  quotes they again hold the same quotes.
\<close>

theorem quote_repositories_agree:
  assumes "mem_good q_quote_id (\<lambda>q. valid_money (q_total q)) m"
    and "sql_good qr_quote_id quote_to_row (quote_from_row flt) (\<lambda>q. valid_money (q_total q)) s"
    and "reliable s" and "mem_view m = sql_view qr_quote_id (quote_from_row flt) s"
    and "a < length (heap m)" and "b < length (heap s)" and "heap m ! a = heap s ! b"
    and "valid_money (q_total (heap m ! a))"
  shows "(case (get InMemoryQuoteRepository i m, get (SqlAlchemyQuoteRepository flt) i s) of
       ((r, m'), (r', s')) \<Rightarrow>
         mem_view m' = sql_view qr_quote_id (quote_from_row flt) s' \<and>
         (case (r, r') of
            (Inr x, Inr y) \<Rightarrow> heap m' ! x = heap s' ! y \<and> q_quote_id (heap m' ! x) = i
          | (Inl e, Inl e') \<Rightarrow> e = e' \<and> e = KeyError (''Quote not found: '' @ i)
          | _ \<Rightarrow> False)) \<and>
     (case (get_by_service_order_id InMemoryQuoteRepository so m,
            get_by_service_order_id (SqlAlchemyQuoteRepository flt) so s) of
       ((r, m'), (r', s')) \<Rightarrow>
         mem_view m' = mem_view m \<and> mem_view m' = sql_view qr_quote_id (quote_from_row flt) s' \<and>
         (case (r, r') of
            (Inr x, Inr y) \<Rightarrow>
              q_service_order_id (heap m' ! x) = so \<and> q_service_order_id (heap s' ! y) = so \<and>
              mem_view m (q_quote_id (heap m' ! x)) = Some (heap m' ! x) \<and>
              mem_view m (q_quote_id (heap s' ! y)) = Some (heap s' ! y) \<and>
              ((\<exists>!k. \<exists>q. mem_view m k = Some q \<and> q_service_order_id q = so) \<longrightarrow>
                 heap m' ! x = heap s' ! y)
          | (Inl e, Inl e') \<Rightarrow>
              e = e' \<and> e = KeyError (''Quote not found for service order: '' @ so) \<and>
              (\<forall>k q. mem_view m k = Some q \<longrightarrow> q_service_order_id q \<noteq> so)
          | _ \<Rightarrow> False)) \<and>
     (case (save InMemoryQuoteRepository a m, save (SqlAlchemyQuoteRepository flt) b s) of
       ((r, m'), (r', s')) \<Rightarrow>
         r = Inr () \<and> r' = Inr () \<and> mem_view m' = sql_view qr_quote_id (quote_from_row flt) s')"
proof -
  obtain r m' r' s' where g: "get InMemoryQuoteRepository i m = (r, m')"
      "get (SqlAlchemyQuoteRepository flt) i s = (r', s')" by fastforce
  obtain v n v' t where sel: "get_by_service_order_id InMemoryQuoteRepository so m = (v, n)"
      "get_by_service_order_id (SqlAlchemyQuoteRepository flt) so s = (v', t)" by fastforce
  note memb = memory_quotes.get_by_law[OF assms(1) sel(1)]
  note sqlb = table_quotes.get_by_law[OF assms(2) sel(2)] table_quotes.reliable_get_by[OF assms(2,3) sel(2)]
  have eb: "\<not> is_database_error x" if "v = Inl x" for x
    using sel(1) that by (auto simp: InMemoryQuoteRepository_def mem_get_by_def split: option.splits)
  have orders: "mem_view n = mem_view m \<and> mem_view n = sql_view qr_quote_id (quote_from_row flt) t \<and>
         (case (v, v') of
            (Inr x, Inr y) \<Rightarrow>
              q_service_order_id (heap n ! x) = so \<and> q_service_order_id (heap t ! y) = so \<and>
              mem_view m (q_quote_id (heap n ! x)) = Some (heap n ! x) \<and>
              mem_view m (q_quote_id (heap t ! y)) = Some (heap t ! y) \<and>
              ((\<exists>!k. \<exists>q. mem_view m k = Some q \<and> q_service_order_id q = so) \<longrightarrow>
                 heap n ! x = heap t ! y)
          | (Inl e, Inl e') \<Rightarrow>
              e = e' \<and> e = KeyError (''Quote not found for service order: '' @ so) \<and>
              (\<forall>k q. mem_view m k = Some q \<longrightarrow> q_service_order_id q \<noteq> so)
          | _ \<Rightarrow> False)"
  proof (cases v)
    case (Inl e)
    then show ?thesis using memb sqlb assms(4) eb by (cases v') auto
  next
    case x: (Inr x)
    then obtain y where y: "v' = Inr y" using memb sqlb assms(4) by (cases v') auto
    have "heap n ! x = heap t ! y" if "\<exists>!k. \<exists>q. mem_view m k = Some q \<and> q_service_order_id q = so"
    proof -
      have "q_quote_id (heap n ! x) = q_quote_id (heap t ! y)"
        using that memb sqlb x y assms(4) by auto
      then show ?thesis using memb sqlb x y assms(4) by simp
    qed
    then show ?thesis using memb sqlb x y assms(4) by simp
  qed
  obtain u m'' u' s'' where sv: "save InMemoryQuoteRepository a m = (u, m'')"
      "save (SqlAlchemyQuoteRepository flt) b s = (u', s'')" by fastforce
  note mem = memory_quotes.get_law[OF assms(1) g(1)]
  note sql = table_quotes.get_law[OF assms(2) g(2)] table_quotes.reliable_get[OF assms(2,3) g(2)]
  have e: "\<not> is_database_error x" if "r = Inl x" for x
    using g(1) that by (auto simp: InMemoryQuoteRepository_def mem_get_def split: option.splits)
  have lookups: "mem_view m' = sql_view qr_quote_id (quote_from_row flt) s' \<and>
         (case (r, r') of
            (Inr x, Inr y) \<Rightarrow> heap m' ! x = heap s' ! y \<and> q_quote_id (heap m' ! x) = i
          | (Inl e, Inl e') \<Rightarrow> e = e' \<and> e = KeyError (''Quote not found: '' @ i)
          | _ \<Rightarrow> False)"
    using mem sql assms(4) e memory_quotes.view_ident[OF assms(1), of i]
    by (cases r; cases r') auto
  have "u = Inr () \<and> mem_view m'' = (mem_view m)(q_quote_id (heap m ! a) \<mapsto> heap m ! a)"
    using mem_save_good[OF assms(1,5,8)] sv(1) by (simp add: InMemoryQuoteRepository_def)
  moreover have "u' = Inr () \<and> sql_view qr_quote_id (quote_from_row flt) s'' =
      (mem_view m)(q_quote_id (heap m ! a) \<mapsto> heap m ! a)"
    using table_quotes.save_law[OF assms(2,6) _ sv(2)] table_quotes.reliable_save[OF assms(2,3) sv(2)]
      assms(4,7,8) by (cases u') auto
  ultimately have "u = Inr () \<and> u' = Inr () \<and> mem_view m'' = sql_view qr_quote_id (quote_from_row flt) s''" by simp
  then show ?thesis unfolding g sel sv prod.case by (rule conjI[OF lookups[unfolded prod.case] conjI[OF orders[unfolded prod.case]]])
qed

definition one_quote :: "(quote, quote_row) cell" where
  "one_quote = empty_cell\<lparr>heap := [sample_quote], entries := [(''q1'', 0)], rows := [quote_to_row sample_quote]\<rparr>"

lemma one_quote_good:
  "mem_good q_quote_id (\<lambda>q. valid_money (q_total q)) one_quote"
  "sql_good qr_quote_id quote_to_row (quote_from_row flt) (\<lambda>q. valid_money (q_total q)) one_quote"
  "reliable one_quote" "mem_view one_quote = [''q1'' \<mapsto> sample_quote]"
  "sql_view qr_quote_id (quote_from_row flt) one_quote = [''q1'' \<mapsto> sample_quote]"
  by (auto simp: one_quote_def empty_cell_def mem_good_def sql_good_def reliable_def mem_view_def sql_view_def
      quote_row_round_trip fun_eq_iff)

theorem quote_repositories_agree_witness:
  "(case (get InMemoryQuoteRepository ''q1'' one_quote, get (SqlAlchemyQuoteRepository id) ''q1'' one_quote) of
       ((r, m'), (r', s')) \<Rightarrow> \<exists>x y. r = Inr x \<and> r' = Inr y \<and> heap m' ! x = heap s' ! y) \<and>
   (case (get_by_service_order_id InMemoryQuoteRepository ''so1'' one_quote,
          get_by_service_order_id (SqlAlchemyQuoteRepository id) ''so1'' one_quote) of
       ((r, m'), (r', s')) \<Rightarrow> \<exists>x y. r = Inr x \<and> r' = Inr y \<and> heap m' ! x = heap s' ! y)"
proof -
  have one: "\<exists>!k. \<exists>q. mem_view one_quote k = Some q \<and> q_service_order_id q = ''so1''"
    by (auto simp: one_quote_good(4) sample_quote_def)
  have len: "0 < length (heap one_quote)" "heap one_quote ! 0 = sample_quote"
    by (simp_all add: one_quote_def)
  have stored: "\<exists>k q. mem_view one_quote k = Some q \<and> q_service_order_id q = ''so1''" using one by blast
  note agree = quote_repositories_agree[OF one_quote_good(1) one_quote_good(2)[of id] one_quote_good(3) _ len(1) len(1),
      of "''q1''" "''so1''"]
  have found: "fst (get InMemoryQuoteRepository ''q1'' one_quote) = Inr 0"
    by (simp add: InMemoryQuoteRepository_def mem_get_def one_quote_def)
  show ?thesis
    using agree one stored found by (auto simp: one_quote_good len split: prod.splits sum.splits)
qed

text \<open>With two quotes of one order the two modes can indeed name different ones.\<close>

lemma quotes_of_one_order_may_differ:
  assumes "c = empty_cell\<lparr>heap := [sample_quote, sample_quote\<lparr>q_quote_id := ''q2''\<rparr>],
     entries := [(''q1'', 0), (''q2'', 1)], db_pick := \<lambda>_. 1,
     rows := [quote_to_row sample_quote, quote_to_row (sample_quote\<lparr>q_quote_id := ''q2''\<rparr>)]\<rparr>"
  shows "get_by_service_order_id InMemoryQuoteRepository ''so1'' c = (Inr 0, c) \<and>
     (case get_by_service_order_id (SqlAlchemyQuoteRepository id) ''so1'' c of
        (Inr b, c') \<Rightarrow> q_quote_id (heap c' ! b) = ''q2'' | _ \<Rightarrow> False)"
  by (simp add: assms InMemoryQuoteRepository_def mem_get_by_def SqlAlchemyQuoteRepository_def sql_select_def session_def
      first_def empty_cell_def quote_row_round_trip andthen_def alloc_def Let_def sample_quote_def)

end
