(* ===== verification/Gateway.thy ===== *)
theory Gateway
  imports Domain
begin

text \<open>
  \<open>src/infrastructure/payment\<close>: the fake gateway, the Mercado Pago checkout adapter, and the
  client around the SDK. The SDK itself (package mercadopago) is not under \<open>src\<close>: a call of
  it is an entry of the call log of the environment, and its outcome is the environment's
  \<open>mp_reply\<close> (theory Environment), which may be any value or any exception.
\<close>

type_synonym dict = "(string \<times> json) list"

section \<open>The fake gateway (fake\_payment\_gateway.py)\<close>

definition FakePaymentGateway :: gateway_port where
  "FakePaymentGateway =
     \<lparr>create_checkout_preference = (\<lambda>quote_id so tot.
        ret \<lparr>preference_id = ''fake-'' @ quote_id,
             checkout_url = ''https://checkout.local/'' @ so,
             external_reference = JStr so\<rparr>),
      get_payment_status = (\<lambda>p. raise (PaymentGatewayError
        ''Payment status synchronization is available only in Mercado Pago mode.'' (Some 501) None))\<rparr>"

section \<open>The SDK client (mercado\_pago\_sdk\_client.py)\<close>

record sdk_port =
  sdk_create_preference :: "dict \<Rightarrow> string \<Rightarrow> (env, dict) exec"
  sdk_search_payments :: "dict \<Rightarrow> (env, dict) exec"

text \<open>\<open>_status_message\<close>: the argument is printed as it is (a bool prints as a bool).\<close>

definition status_message :: "json \<Rightarrow> string" where
  "status_message v =
     (if as_int v = Some 401 \<or> as_int v = Some 403
      then ''Mercado Pago request was rejected. Check whether '' @
           ''MERCADO_PAGO_ACCESS_TOKEN is valid for the configured environment.''
      else ''Mercado Pago request failed with status '' @ str_json v @ ''.'')"

definition is_int :: "json option \<Rightarrow> bool" where
  "is_int v = (case v of None \<Rightarrow> False | Some j \<Rightarrow> as_int j \<noteq> None)"

text \<open>\<open>_translate_error\<close>: the two attributes of the exception, where it has them.\<close>

definition translate_error :: "json option \<Rightarrow> json option \<Rightarrow> py_error" where
  "translate_error status_code status =
     (let v = (if is_int status_code then status_code else status);
          code = (case v of Some j \<Rightarrow> if as_int j \<noteq> None then j else JInt 502 | None \<Rightarrow> JInt 502)
      in PaymentGatewayError (status_message code) (as_int code) None)"

definition invalid_response :: py_error where
  "invalid_response = PaymentGatewayError ''Mercado Pago SDK returned an invalid response.'' (Some 502) None"

text \<open>\<open>_execute\<close>.\<close>

definition execute :: "mp_call \<Rightarrow> (env, dict) exec" where
  "execute call =
     andthen (sdk_call call) (\<lambda>outcome.
       case outcome of
         SdkRaised status_code status \<Rightarrow> raise (translate_error status_code status)
       | SdkReturned (JObj result) \<Rightarrow>
           (let status = get_default result ''status'' JNull;
                response = get_default result ''response'' JNull
            in case as_int status of
                 Some n \<Rightarrow>
                   if n \<ge> 400 then raise (PaymentGatewayError (status_message status) (Some n) None)
                   else (case response of JObj d \<Rightarrow> ret d | _ \<Rightarrow> raise invalid_response)
               | None \<Rightarrow> (case response of JObj d \<Rightarrow> ret d | _ \<Rightarrow> raise invalid_response))
       | SdkReturned _ \<Rightarrow> raise invalid_response)"

text \<open>The two methods: the timeout goes into the options of the first only.\<close>

definition sdk_client :: "int \<Rightarrow> sdk_port" where
  "sdk_client seconds =
     \<lparr>sdk_create_preference = (\<lambda>pl key. execute (SdkCreatePreference (JObj pl) key seconds)),
      sdk_search_payments = (\<lambda>filters. execute (SdkSearchPayments filters))\<rparr>"

definition MercadoPagoSdkClient :: "string \<Rightarrow> int \<Rightarrow> py_error + sdk_port" where
  "MercadoPagoSdkClient token seconds =
     (if strip token = [] then Inl (ValueError ''Mercado Pago access token is required'')
      else Inr (sdk_client seconds))"

definition new_idempotency_key :: "(env, string) exec" where
  "new_idempotency_key = uuid4"

section \<open>The checkout adapter (mercado\_pago\_checkout\_adapter.py)\<close>

record checkout_settings =
  access_token :: string
  success_url :: string
  failure_url :: string
  pending_url :: string
  timeout_seconds :: int

definition preference_request :: "checkout_settings \<Rightarrow> string \<Rightarrow> string \<Rightarrow> money \<Rightarrow> string \<Rightarrow> dict" where
  "preference_request st quote_id so tot unit_price =
     [(''external_reference'', JStr so),
      (''items'', JArr [JObj [(''id'', JStr quote_id),
                              (''title'', JStr (''Service order '' @ so)),
                              (''quantity'', JInt 1),
                              (''currency_id'', JStr (currency tot)),
                              (''unit_price'', JFloat unit_price)]]),
      (''back_urls'', JObj [(''success'', JStr (success_url st)),
                            (''failure'', JStr (failure_url st)),
                            (''pending'', JStr (pending_url st))])]"

definition adapter_create_checkout_preference ::
    "checkout_settings \<Rightarrow> sdk_port \<Rightarrow> string \<Rightarrow> string \<Rightarrow> money \<Rightarrow> (env, payment_preference) exec" where
  "adapter_create_checkout_preference st sdk quote_id so tot =
     andthen (reads (\<lambda>e. float_repr e (amount tot))) (\<lambda>price.
     andthen new_idempotency_key (\<lambda>key.
     andthen (sdk_create_preference sdk (preference_request st quote_id so tot price) key) (\<lambda>response.
       let pref = strip (str_json (get_default response ''id'' (JStr [])));
           url = or_else (get_default response ''init_point'' JNull)
                         (get_default response ''sandbox_init_point'' JNull)
       in if pref = [] then raise (ValueError ''Mercado Pago preference response did not include an id'')
          else if \<not> truthy url
          then raise (ValueError ''Mercado Pago preference response did not include checkout URL'')
          else ret \<lparr>preference_id = pref, checkout_url = str_json url, external_reference = JStr so\<rparr>)))"

text \<open>The results whose \<open>external_reference\<close>, as text, equals the payment's.\<close>

definition matching :: "json \<Rightarrow> json list \<Rightarrow> dict list" where
  "matching ref results =
     concat (map (\<lambda>r. case r of
         JObj d \<Rightarrow> if JStr (str_json (get_default d ''external_reference'' (JStr []))) = ref then [d] else []
       | _ \<Rightarrow> []) results)"

definition gateway_error :: "string \<Rightarrow> int \<Rightarrow> py_error" where
  "gateway_error m c = PaymentGatewayError m (Some c) None"

text \<open>What the adapter demands of the one matching payment of the provider.\<close>

definition checked_status :: "payment \<Rightarrow> dict \<Rightarrow> py_error + provider_status" where
  "checked_status p d =
     (let amt = get_default d ''transaction_amount'' JNull;
          wrong_amount = gateway_error ''Mercado Pago payment amount does not match the billing amount.'' 409;
          differs = (if amt = JNull then Inr True
                     else case Decimal (str_json amt) of
                            Inl x \<Rightarrow> Inl x
                          | Inr a \<Rightarrow> decimal_ne a (amount (p_total p)))
      in case differs of
           Inl x \<Rightarrow> Inl x
         | Inr True \<Rightarrow> Inl wrong_amount
         | Inr False \<Rightarrow>
             (if str_json (get_default d ''currency_id'' (JStr [])) \<noteq> currency (p_total p)
              then Inl (gateway_error ''Mercado Pago payment currency does not match the billing currency.'' 409)
              else let i = strip (str_json (get_default d ''id'' (JStr [])));
                       s = strip (str_json (get_default d ''status'' (JStr [])));
                       detail = get_default d ''status_detail'' JNull
                in if i = [] \<or> s = []
                   then Inl (gateway_error ''Mercado Pago payment response is missing id or status.'' 502)
                   else Inr \<lparr>provider_payment_id = i, ps_status = s,
                             status_detail = (if detail = JNull then None else Some (str_json detail))\<rparr>))"

definition adapter_get_payment_status :: "sdk_port \<Rightarrow> payment \<Rightarrow> (env, provider_status) exec" where
  "adapter_get_payment_status sdk p =
     (case p_preference p of
        None \<Rightarrow> raise (gateway_error ''Payment has no Mercado Pago external reference.'' 422)
      | Some pref \<Rightarrow>
          let ref = external_reference pref in
          if \<not> truthy ref then raise (gateway_error ''Payment has no Mercado Pago external reference.'' 422)
          else andthen (sdk_search_payments sdk
                 [(''external_reference'', ref), (''sort'', JStr ''date_created''), (''criteria'', JStr ''desc'')])
            (\<lambda>response.
              case get_default response ''results'' JNull of
                JArr results \<Rightarrow>
                  (case matching ref results of
                     [] \<Rightarrow> raise (gateway_error ''No Mercado Pago payment was found for this payment.'' 404)
                   | [d] \<Rightarrow> from_result (checked_status p d)
                   | _ \<Rightarrow> raise (gateway_error
                       ''More than one Mercado Pago payment matches this external reference.'' 409))
              | _ \<Rightarrow> raise (gateway_error ''Mercado Pago payment search returned an invalid response.'' 502)))"

definition checkout_adapter :: "checkout_settings \<Rightarrow> sdk_port \<Rightarrow> gateway_port" where
  "checkout_adapter st sdk =
     \<lparr>create_checkout_preference = adapter_create_checkout_preference st sdk,
      get_payment_status = adapter_get_payment_status sdk\<rparr>"

text \<open>The constructor; \<open>client\<close> is an SDK client handed in, or \<open>None\<close> for the real one.\<close>

definition MercadoPagoCheckoutAdapter ::
    "checkout_settings \<Rightarrow> sdk_port option \<Rightarrow> py_error + gateway_port" where
  "MercadoPagoCheckoutAdapter st client =
     (if strip (access_token st) = [] then Inl (ValueError ''Mercado Pago access token is required'')
      else bind_sum
        (case client of
           Some c \<Rightarrow> Inr c
         | None \<Rightarrow> MercadoPagoSdkClient (access_token st) (timeout_seconds st))
        (\<lambda>sdk. Inr (checkout_adapter st sdk)))"

section \<open>How the client and the adapter end\<close>

definition called :: "mp_call \<Rightarrow> env \<Rightarrow> env" where
  "called c e = e\<lparr>mp_calls := mp_calls e @ [c]\<rparr>"

lemma sdk_call_run [exec_simps]: "sdk_call c e = (Inr (mp_reply e (mp_calls e) c), called c e)"
  by (simp add: sdk_call_def called_def)

lemma status_message_simps [simp]:
  "status_message (JInt 401) = status_message (JInt 403)"
  by (simp add: status_message_def)

text \<open>\<open>a == b\<close> on amounts, as numbers.\<close>

definition same_amount :: "decimal \<Rightarrow> decimal \<Rightarrow> bool" where
  "same_amount a b =
     (case (a, b) of
        (Finite s c e, Finite s' c' e') \<Rightarrow> finite_value s c e = finite_value s' c' e'
      | (Infinite s, Infinite s') \<Rightarrow> s = s'
      | _ \<Rightarrow> False)"

lemma decimal_ne_False: "decimal_ne a b = Inr False \<longleftrightarrow> same_amount a b"
  by (cases a; cases b) (auto simp: decimal_ne_def same_amount_def finite_eq_value)

lemma translate_error_shape:
  "\<exists>msg n. translate_error status_code status = PaymentGatewayError msg (Some n) None"
  by (auto simp: translate_error_def Let_def is_int_def split: option.splits)

lemma checked_statusE:
  assumes "checked_status p d = Inr ps"
  obtains a where "Decimal (str_json (get_default d ''transaction_amount'' JNull)) = Inr a"
    "same_amount a (amount (p_total p))"
    "str_json (get_default d ''currency_id'' (JStr [])) = currency (p_total p)"
    "provider_payment_id ps = strip (str_json (get_default d ''id'' (JStr [])))"
    "ps_status ps = strip (str_json (get_default d ''status'' (JStr [])))"
    "provider_payment_id ps \<noteq> []" "ps_status ps \<noteq> []"
proof -
  from assms obtain a where "Decimal (str_json (get_default d ''transaction_amount'' JNull)) = Inr a"
      "same_amount a (amount (p_total p))"
    by (auto simp flip: decimal_ne_False simp: checked_status_def Let_def split: if_splits sum.splits bool.splits)
  moreover from assms
  have "str_json (get_default d ''currency_id'' (JStr [])) = currency (p_total p) \<and>
      provider_payment_id ps = strip (str_json (get_default d ''id'' (JStr []))) \<and>
      ps_status ps = strip (str_json (get_default d ''status'' (JStr []))) \<and>
      provider_payment_id ps \<noteq> [] \<and> ps_status ps \<noteq> []"
    by (auto simp: checked_status_def Let_def split: if_splits sum.splits bool.splits)
  ultimately show thesis using that by blast
qed

lemma matching_in: "d \<in> set (matching ref results) \<Longrightarrow>
  JObj d \<in> set results \<and> JStr (str_json (get_default d ''external_reference'' (JStr []))) = ref"
  by (auto simp: matching_def split: json.splits if_splits)

section \<open>Properties of the gateway\<close>

text \<open>
  Property C11. Every call of the SDK is made once and ends in the port's own terms: either it
  returns the \<open>response\<close> object of a reply whose status is not an error, or it raises
  \<open>PaymentGatewayError\<close> with a status code, whatever the SDK returned or raised. The
  exceptions of the SDK never get past the client.
\<close>

theorem sdk_failures_are_gateway_errors:
  "case execute call e of (r, e') \<Rightarrow>
     e' = called call e \<and>
     (case r of
        Inl x \<Rightarrow> (\<exists>msg n. x = PaymentGatewayError msg (Some n) None)
      | Inr d \<Rightarrow> (\<exists>result. mp_reply e (mp_calls e) call = SdkReturned (JObj result) \<and>
          map_of result ''response'' = Some (JObj d) \<and>
          (case as_int (get_default result ''status'' JNull) of None \<Rightarrow> True | Some n \<Rightarrow> n < 400)))"
proof -
  obtain o' where o': "mp_reply e (mp_calls e) call = o'" by simp
  have run: "execute call e = (case o' of
         SdkRaised status_code status \<Rightarrow> raise (translate_error status_code status)
       | SdkReturned (JObj result) \<Rightarrow>
           (case as_int (get_default result ''status'' JNull) of
                 Some n \<Rightarrow>
                   if n \<ge> 400 then raise (PaymentGatewayError (status_message (get_default result ''status'' JNull)) (Some n) None)
                   else (case get_default result ''response'' JNull of JObj d \<Rightarrow> ret d | _ \<Rightarrow> raise invalid_response)
               | None \<Rightarrow> (case get_default result ''response'' JNull of JObj d \<Rightarrow> ret d | _ \<Rightarrow> raise invalid_response))
       | SdkReturned _ \<Rightarrow> raise invalid_response) (called call e)"
    unfolding execute_def Let_def by (simp add: sdk_call_run o')
  show ?thesis
  proof (cases o')
    case (SdkRaised a b)
    then show ?thesis using run translate_error_shape[of a b] by auto
  next
    case (SdkReturned j)
    show ?thesis
    proof (cases j)
      case (JObj result)
      have resp: "map_of result ''response'' = Some (JObj d)"
        if "get_default result ''response'' JNull = JObj d" for d
        using that by (auto simp: get_default_def split: option.splits)
      show ?thesis
        using run SdkReturned JObj o' resp
        by (auto simp: invalid_response_def split: option.splits json.splits)
    qed (use run SdkReturned in \<open>auto simp: invalid_response_def\<close>)
  qed
qed

text \<open>
  Property C10. The adapter reports a provider status only for a payment that is unmistakably
  this one: the search returned a list in which exactly one object carries the payment's
  external reference, and that object has an amount equal to the payment's as a number, the
  same currency, and an identifier and a status that are not blank.
\<close>

theorem status_only_of_the_matching_payment:
  assumes "adapter_get_payment_status sdk p e = (Inr ps, e')"
  shows "\<exists>pref so response results d a.
     p_preference p = Some pref \<and> external_reference pref = JStr so \<and> so \<noteq> [] \<and>
     sdk_search_payments sdk
       [(''external_reference'', JStr so), (''sort'', JStr ''date_created''), (''criteria'', JStr ''desc'')] e
       = (Inr response, e') \<and>
     map_of response ''results'' = Some (JArr results) \<and>
     matching (JStr so) results = [d] \<and> JObj d \<in> set results \<and>
     Decimal (str_json (get_default d ''transaction_amount'' JNull)) = Inr a \<and>
     same_amount a (amount (p_total p)) \<and>
     str_json (get_default d ''currency_id'' (JStr [])) = currency (p_total p) \<and>
     provider_payment_id ps = strip (str_json (get_default d ''id'' (JStr []))) \<and>
     provider_payment_id ps \<noteq> [] \<and>
     ps_status ps = strip (str_json (get_default d ''status'' (JStr []))) \<and> ps_status ps \<noteq> []"
proof -
  obtain pref where pref: "p_preference p = Some pref" "truthy (external_reference pref)"
    using assms by (auto simp: adapter_get_payment_status_def Let_def split: option.splits if_splits)
  then obtain response where resp: "sdk_search_payments sdk
       [(''external_reference'', external_reference pref), (''sort'', JStr ''date_created''), (''criteria'', JStr ''desc'')] e
       = (Inr response, e')"
      and m: "\<exists>results d. get_default response ''results'' JNull = JArr results \<and>
        matching (external_reference pref) results = [d] \<and> checked_status p d = Inr ps"
    using assms by (auto simp: adapter_get_payment_status_def Let_def elim!: andthen_InrE
        split: json.splits list.splits)
  obtain results d where rd: "get_default response ''results'' JNull = JArr results"
      "matching (external_reference pref) results = [d]" "checked_status p d = Inr ps"
    using m by blast
  have d: "JObj d \<in> set results"
      "JStr (str_json (get_default d ''external_reference'' (JStr []))) = external_reference pref"
    using matching_in[of d "external_reference pref" results] rd(2) by simp_all
  obtain so where so: "external_reference pref = JStr so" "so \<noteq> []"
    using d(2) pref(2) by (metis truthy.simps(5))
  have "map_of response ''results'' = Some (JArr results)"
    using rd(1) by (auto simp: get_default_def split: option.splits)
  with checked_statusE[OF rd(3)] pref(1) resp so d(1) rd(2) show ?thesis
    by (metis (no_types, lifting))
qed

definition sample_provider :: "string \<Rightarrow> env" where
  "sample_provider status =
     sample_env\<lparr>mp_reply := (\<lambda>_ _. SdkReturned (JObj
       [(''status'', JInt 200),
        (''response'', JObj [(''results'', JArr
          [JObj [(''id'', JInt 77), (''external_reference'', JStr ''other'')],
           JObj [(''id'', JInt 78), (''external_reference'', JStr ''q1''), (''status'', JStr status),
                 (''transaction_amount'', JFloat ''120.5''), (''currency_id'', JStr ''BRL'')]])])]))\<rparr>"

theorem status_only_of_the_matching_payment_witness:
  "\<exists>pref so response results d a.
     p_preference sample_payment = Some pref \<and> external_reference pref = JStr so \<and> so \<noteq> [] \<and>
     sdk_search_payments (sdk_client 10)
       [(''external_reference'', JStr so), (''sort'', JStr ''date_created''), (''criteria'', JStr ''desc'')]
       (sample_provider ''approved'')
       = (Inr response, snd (adapter_get_payment_status (sdk_client 10) sample_payment (sample_provider ''approved''))) \<and>
     map_of response ''results'' = Some (JArr results) \<and>
     matching (JStr so) results = [d] \<and> JObj d \<in> set results \<and>
     Decimal (str_json (get_default d ''transaction_amount'' JNull)) = Inr a \<and>
     same_amount a (amount (p_total sample_payment)) \<and>
     str_json (get_default d ''currency_id'' (JStr [])) = currency (p_total sample_payment) \<and>
     ''78'' = strip (str_json (get_default d ''id'' (JStr []))) \<and> ''78'' \<noteq> [] \<and>
     ''approved'' = strip (str_json (get_default d ''status'' (JStr []))) \<and> ''approved'' \<noteq> []"
proof -
  have texts: "Decimal ''120.5'' = Inr (Finite False 1205 (-1))" "show_int 78 = ''78''"
      "strip ''78'' = ''78''" "strip ''approved'' = ''approved''"
    by code_simp+
  have equal: "decimal_ne (Finite False 1205 (-1)) (Finite False 12050 (-2)) = Inr False"
    by (simp add: decimal_ne_def finite_eq_def)
  have "fst (adapter_get_payment_status (sdk_client 10) sample_payment (sample_provider ''approved'')) =
      Inr \<lparr>provider_payment_id = ''78'', ps_status = ''approved'', status_detail = None\<rparr>"
    by (simp add: adapter_get_payment_status_def sdk_client_def sample_provider_def execute_def
        sdk_call_run sample_payment_def sample_env_def get_default_def Let_def matching_def checked_status_def
        str_json_def texts equal sample_money_def)
  then have "adapter_get_payment_status (sdk_client 10) sample_payment (sample_provider ''approved'') =
      (Inr \<lparr>provider_payment_id = ''78'', ps_status = ''approved'', status_detail = None\<rparr>,
       snd (adapter_get_payment_status (sdk_client 10) sample_payment (sample_provider ''approved'')))"
    by (simp add: prod_eq_iff)
  from status_only_of_the_matching_payment[OF this] show ?thesis by simp
qed

end
