(* ===== verification/Use_Cases.thy ===== *)
theory Use_Cases
  imports Repositories Messaging Gateway
begin

text \<open>
  \<open>src/application\<close>: the use cases and the handler of integration events, over the state of
  the whole process. \<open>app\<close> is what the constructors were given: the repositories, the
  publisher, the gateway and the record of processed events, any of their implementations.
\<close>

section \<open>The state of the process\<close>

text \<open>
  \<open>w_channel\<close> is the worker's own connection to the broker, \<open>w_transitions\<close> the counter
  \<open>PAYMENT_TRANSITION_COUNTER\<close> by its label.
\<close>

record processed_row =
  pe_event_id :: string
  pe_event_type :: string
  pe_correlation_id :: string
  pe_processed_at :: datetime

record processed_store =
  processed_ids :: "string list"
  processed_rows :: "processed_row list"
  pe_sessions :: nat
  pe_fault :: "nat \<Rightarrow> string option"

record world =
  w_env :: env
  w_quotes :: quote_cell
  w_payments :: payment_cell
  w_publisher :: publisher
  w_processed :: processed_store
  w_channel :: broker
  w_transitions :: "(string \<times> nat) list"

definition in_env :: "(env, 'a) exec \<Rightarrow> (world, 'a) exec" where
  "in_env = zoom w_env (\<lambda>x w. w\<lparr>w_env := x\<rparr>)"

definition in_quotes :: "(quote_cell, 'a) exec \<Rightarrow> (world, 'a) exec" where
  "in_quotes = zoom w_quotes (\<lambda>x w. w\<lparr>w_quotes := x\<rparr>)"

definition in_payments :: "(payment_cell, 'a) exec \<Rightarrow> (world, 'a) exec" where
  "in_payments = zoom w_payments (\<lambda>x w. w\<lparr>w_payments := x\<rparr>)"

definition in_publisher :: "(publisher, 'a) exec \<Rightarrow> (world, 'a) exec" where
  "in_publisher = zoom w_publisher (\<lambda>x w. w\<lparr>w_publisher := x\<rparr>)"

definition in_processed :: "(processed_store, 'a) exec \<Rightarrow> (world, 'a) exec" where
  "in_processed = zoom w_processed (\<lambda>x w. w\<lparr>w_processed := x\<rparr>)"

definition in_channel :: "(broker, 'a) exec \<Rightarrow> (world, 'a) exec" where
  "in_channel = zoom w_channel (\<lambda>x w. w\<lparr>w_channel := x\<rparr>)"

lemmas in_defs = in_env_def in_quotes_def in_payments_def in_publisher_def in_processed_def in_channel_def

section \<open>The record of processed events (processed\_event\_repositories.py)\<close>

record 's processed_port =
  is_processed :: "string \<Rightarrow> ('s, bool) exec"
  mark_processed :: "string \<Rightarrow> string \<Rightarrow> string \<Rightarrow> ('s, unit) exec"

definition InMemoryProcessedEventRepository :: "world processed_port" where
  "InMemoryProcessedEventRepository =
     \<lparr>is_processed = (\<lambda>i. in_processed (reads (\<lambda>s. i \<in> set (processed_ids s)))),
      mark_processed = (\<lambda>i et corr. in_processed (writes (\<lambda>s.
        s\<lparr>processed_ids := (if i \<in> set (processed_ids s) then processed_ids s else i # processed_ids s)\<rparr>)))\<rparr>"

definition pe_session :: "(processed_store, 'a) exec \<Rightarrow> (processed_store, 'a) exec" where
  "pe_session m s =
     (let s' = s\<lparr>pe_sessions := Suc (pe_sessions s)\<rparr> in
      case pe_fault s (pe_sessions s) of
        Some msg \<Rightarrow> (Inl (DatabaseError msg), s')
      | None \<Rightarrow> m s')"

definition sql_is_processed :: "string \<Rightarrow> (world, bool) exec" where
  "sql_is_processed i =
     in_processed (pe_session (reads (\<lambda>s. i \<in> pe_event_id ` set (processed_rows s))))"

definition sql_mark_processed :: "string \<Rightarrow> string \<Rightarrow> string \<Rightarrow> (world, unit) exec" where
  "sql_mark_processed i et corr =
     andthen (sql_is_processed i) (\<lambda>known.
       if known then ret ()
       else andthen (in_env now) (\<lambda>t.
         in_processed (pe_session (writes (\<lambda>s. s\<lparr>processed_rows := processed_rows s @
           [\<lparr>pe_event_id = i, pe_event_type = et, pe_correlation_id = corr, pe_processed_at = t\<rparr>]\<rparr>)))))"

definition SqlAlchemyProcessedEventRepository :: "world processed_port" where
  "SqlAlchemyProcessedEventRepository =
     \<lparr>is_processed = sql_is_processed, mark_processed = sql_mark_processed\<rparr>"

section \<open>The use cases (use\_cases.py)\<close>

record app =
  quote_repo :: "quote_cell repo_port"
  payment_repo :: "payment_cell repo_port"
  event_pub :: "publisher publisher_port"
  gateway :: gateway_port
  processed_repo :: "world processed_port"

text \<open>A method call on the object at an address: the object is changed where it is.\<close>

definition on_quote :: "(quote \<Rightarrow> (env, quote \<times> 'a) exec) \<Rightarrow> nat \<Rightarrow> (world, 'a) exec" where
  "on_quote method a =
     andthen (in_quotes (deref a)) (\<lambda>q.
     andthen (in_env (method q)) (\<lambda>(q', x).
     andthen (in_quotes (assign a q')) (\<lambda>_. ret x)))"

definition on_payment :: "(payment \<Rightarrow> (env, payment \<times> 'a) exec) \<Rightarrow> nat \<Rightarrow> (world, 'a) exec" where
  "on_payment method a =
     andthen (in_payments (deref a)) (\<lambda>p.
     andthen (in_env (method p)) (\<lambda>(p', x).
     andthen (in_payments (assign a p')) (\<lambda>_. ret x)))"

definition CreateQuoteUseCase :: "app \<Rightarrow> string \<Rightarrow> string list \<Rightarrow> decimal \<Rightarrow> (world, nat) exec" where
  "CreateQuoteUseCase app so items amt =
     andthen (from_result (Money amt ''BRL'')) (\<lambda>tot.
     andthen (in_env (quote_create so items tot)) (\<lambda>(q, ev).
     andthen (in_quotes (alloc q)) (\<lambda>a.
     andthen (in_quotes (save (quote_repo app) a)) (\<lambda>_.
     andthen (in_publisher (publish (event_pub app) ev)) (\<lambda>_.
       ret a)))))"

definition ApproveQuoteUseCase :: "app \<Rightarrow> string \<Rightarrow> (world, nat) exec" where
  "ApproveQuoteUseCase app quote_id =
     andthen (in_quotes (get (quote_repo app) quote_id)) (\<lambda>a.
     andthen (on_quote quote_approve a) (\<lambda>approved_event.
     andthen (in_quotes (deref a)) (\<lambda>q.
     andthen (in_env (payment_from_quote q)) (\<lambda>p.
     andthen (in_payments (alloc p)) (\<lambda>b.
     andthen (on_payment (payment_create_preference (gateway app)) b) (\<lambda>preference_event.
     andthen (in_quotes (save (quote_repo app) a)) (\<lambda>_.
     andthen (in_payments (save (payment_repo app) b)) (\<lambda>_.
     andthen (in_publisher (publish (event_pub app) approved_event)) (\<lambda>_.
     andthen (in_publisher (publish (event_pub app) preference_event)) (\<lambda>_.
       ret b))))))))))"

definition ConfirmPaymentUseCase :: "app \<Rightarrow> string \<Rightarrow> (world, nat) exec" where
  "ConfirmPaymentUseCase app payment_id =
     andthen (in_payments (get (payment_repo app) payment_id)) (\<lambda>a.
     andthen (on_payment payment_confirm a) (\<lambda>ev.
     andthen (in_payments (save (payment_repo app) a)) (\<lambda>_.
     andthen (in_publisher (publish (event_pub app) ev)) (\<lambda>_.
       ret a))))"

definition FailPaymentUseCase :: "app \<Rightarrow> string \<Rightarrow> string \<Rightarrow> (world, nat) exec" where
  "FailPaymentUseCase app payment_id reason =
     andthen (in_payments (get (payment_repo app) payment_id)) (\<lambda>a.
     andthen (on_payment (payment_fail reason) a) (\<lambda>ev.
     andthen (in_payments (save (payment_repo app) a)) (\<lambda>_.
     andthen (in_publisher (publish (event_pub app) ev)) (\<lambda>_.
       ret a))))"

datatype status_action = Act_Confirmed | Act_Failed | Act_Ignored | Act_Duplicate

fun action_value :: "status_action \<Rightarrow> string" where
  "action_value Act_Confirmed = ''confirmed''"
| "action_value Act_Failed = ''failed''"
| "action_value Act_Ignored = ''ignored''"
| "action_value Act_Duplicate = ''duplicate''"

record apply_command =
  cmd_payment_id :: string
  cmd_provider_status :: string
  cmd_status_detail :: "string option"

record apply_result =
  res_payment :: nat
  res_action :: status_action
  res_published :: "string option"

definition fail_reason :: "apply_command \<Rightarrow> string" where
  "fail_reason cmd =
     (case cmd_status_detail cmd of
        Some d \<Rightarrow> if d \<noteq> [] then d else ''Mercado Pago status: '' @ cmd_provider_status cmd
      | None \<Rightarrow> ''Mercado Pago status: '' @ cmd_provider_status cmd)"

definition normalized :: "string \<Rightarrow> string" where
  "normalized s = lower (strip s)"

definition paid_statuses :: "string list" where
  "paid_statuses = [''approved'', ''accredited'']"

definition lost_statuses :: "string list" where
  "lost_statuses = [''rejected'', ''cancelled'', ''refunded'', ''charged_back'', ''expired'', ''failure'']"

definition open_statuses :: "string list" where
  "open_statuses = [''pending'', ''in_process'']"

text \<open>The branches on the provider's status: the event, if one was made, and the action.\<close>

definition decide_status :: "apply_command \<Rightarrow> nat \<Rightarrow> (world, domain_event option \<times> status_action) exec" where
  "decide_status cmd a =
     andthen (in_payments (deref a)) (\<lambda>p.
       let s = normalized (cmd_provider_status cmd) in
       if s \<in> set paid_statuses then
         (if p_status p = CONFIRMED then ret (None, Act_Duplicate)
          else if p_status p = FAILED then ret (None, Act_Ignored)
          else andthen (on_payment payment_confirm a) (\<lambda>ev. ret (Some ev, Act_Confirmed)))
       else if s \<in> set lost_statuses then
         (if p_status p = CONFIRMED then ret (None, Act_Ignored)
          else if p_status p = FAILED then ret (None, Act_Duplicate)
          else andthen (on_payment (payment_fail (fail_reason cmd)) a) (\<lambda>ev. ret (Some ev, Act_Failed)))
       else if s \<in> set open_statuses then ret (None, Act_Ignored)
       else raise (ValueError (''Unsupported Mercado Pago status: '' @ cmd_provider_status cmd)))"

definition ApplyPaymentStatusUseCase :: "app \<Rightarrow> apply_command \<Rightarrow> (world, apply_result) exec" where
  "ApplyPaymentStatusUseCase app cmd =
     andthen (in_payments (get (payment_repo app) (cmd_payment_id cmd))) (\<lambda>a.
     andthen (decide_status cmd a) (\<lambda>(event, action).
     andthen (in_payments (save (payment_repo app) a)) (\<lambda>_.
     andthen (case event of None \<Rightarrow> ret () | Some ev \<Rightarrow> in_publisher (publish (event_pub app) ev)) (\<lambda>_.
       ret \<lparr>res_payment = a, res_action = action, res_published = map_option event_type event\<rparr>))))"

record sync_result =
  sync_payment :: nat
  sync_provider_payment_id :: string
  sync_provider_status :: string
  sync_status_detail :: "string option"
  sync_action :: status_action
  sync_published :: "string option"

definition SyncPaymentStatusUseCase :: "app \<Rightarrow> string \<Rightarrow> (world, sync_result) exec" where
  "SyncPaymentStatusUseCase app payment_id =
     andthen (in_payments (get (payment_repo app) payment_id)) (\<lambda>a.
     andthen (in_payments (deref a)) (\<lambda>p.
     andthen (in_env (get_payment_status (gateway app) p)) (\<lambda>ps.
     andthen (ApplyPaymentStatusUseCase app
        \<lparr>cmd_payment_id = payment_id, cmd_provider_status = ps_status ps,
         cmd_status_detail = status_detail ps\<rparr>) (\<lambda>r.
       ret \<lparr>sync_payment = res_payment r, sync_provider_payment_id = provider_payment_id ps,
            sync_provider_status = ps_status ps, sync_status_detail = status_detail ps,
            sync_action = res_action r, sync_published = res_published r\<rparr>))))"

section \<open>The handler of integration events (event\_handlers.py)\<close>

definition handle_event :: "app \<Rightarrow> string list \<Rightarrow> decimal \<Rightarrow> message \<Rightarrow> (world, string) exec" where
  "handle_event app default_items default_amount m =
     andthen (from_result (item m ''event_id'')) (\<lambda>i.
     andthen (from_result (item m ''event_type'')) (\<lambda>et.
     andthen (from_result (item m ''correlation_id'')) (\<lambda>corr.
     andthen (is_processed (processed_repo app) (str_json i)) (\<lambda>known.
       if known then ret ''skipped''
       else if str_json et \<noteq> ''OS_OPENED'' then ret ''ignored''
       else andthen (from_result (item m ''payload'')) (\<lambda>v.
            andthen (from_result (dict_of v)) (\<lambda>pl.
            andthen (from_result (item pl ''service_order_id'')) (\<lambda>so.
            andthen (CreateQuoteUseCase app (str_json so) default_items default_amount) (\<lambda>_.
            andthen (mark_processed (processed_repo app) (str_json i) (str_json et) (str_json corr)) (\<lambda>_.
              ret ''processed'')))))))))"

end
