(* ===== verification/Ledger.thy ===== *)
theory Ledger
  imports Messaging
begin

text \<open>
  What the billing service promises, free of repositories, objects and failures: a ledger of
  quotes by identifier, payments by identifier, and the messages announced so far. The steps
  are the only changes the service may make; theory Billing shows that every use case, on
  every path, makes only these. A step may or may not be announced: publishing comes last and
  can fail.
\<close>

type_synonym ledger = "(string \<rightharpoonup> quote) \<times> (string \<rightharpoonup> payment) \<times> message list"

definition announces :: "domain_event \<Rightarrow> message list \<Rightarrow> bool" where
  "announces ev ms \<longleftrightarrow> ms = [] \<or> ms = [to_message ev]"

definition about :: "domain_event \<Rightarrow> string \<Rightarrow> string \<Rightarrow> string \<Rightarrow> bool" where
  "about ev et key i \<longleftrightarrow> event_type ev = et \<and> map_of (payload ev) key = Some (JStr i)"

inductive ledger_step :: "ledger \<Rightarrow> ledger \<Rightarrow> bool" where
  creates: "Q (q_quote_id q) = None \<Longrightarrow> q_status q = CREATED \<Longrightarrow> valid_money (q_total q) \<Longrightarrow>
    about ev ''QUOTE_CREATED'' ''quote_id'' (q_quote_id q) \<Longrightarrow> announces ev ms \<Longrightarrow>
    ledger_step (Q, P, E) (Q(q_quote_id q \<mapsto> q), P, E @ ms)"
| approves: "Q i = Some q \<Longrightarrow> q_status q = CREATED \<Longrightarrow>
    about ev ''QUOTE_APPROVED'' ''quote_id'' i \<Longrightarrow> announces ev ms \<Longrightarrow>
    ledger_step (Q, P, E) (Q(i \<mapsto> q\<lparr>q_status := APPROVED\<rparr>), P, E @ ms)"
| requests: "Q i = Some q \<Longrightarrow> q_status q = APPROVED \<Longrightarrow> P (p_payment_id p) = None \<Longrightarrow>
    \<forall>p'\<in>ran P. p_quote_id p' \<noteq> i \<Longrightarrow> p_quote_id p = i \<Longrightarrow>
    p_service_order_id p = q_service_order_id q \<Longrightarrow> p_total p = q_total q \<Longrightarrow>
    p_status p = PENDING \<Longrightarrow> p_preference p \<noteq> None \<Longrightarrow>
    about ev ''PAYMENT_PREFERENCE_CREATED'' ''payment_id'' (p_payment_id p) \<Longrightarrow> announces ev ms \<Longrightarrow>
    ledger_step (Q, P, E) (Q, P(p_payment_id p \<mapsto> p), E @ ms)"
| confirms: "P j = Some p \<Longrightarrow> p_status p = PENDING \<Longrightarrow>
    about ev ''PAYMENT_CONFIRMED'' ''payment_id'' j \<Longrightarrow> announces ev ms \<Longrightarrow>
    ledger_step (Q, P, E) (Q, P(j \<mapsto> p\<lparr>p_status := CONFIRMED\<rparr>), E @ ms)"
| fails: "P j = Some p \<Longrightarrow> p_status p \<noteq> CONFIRMED \<Longrightarrow>
    about ev ''PAYMENT_FAILED'' ''payment_id'' j \<Longrightarrow> announces ev ms \<Longrightarrow>
    ledger_step (Q, P, E) (Q, P(j \<mapsto> p\<lparr>p_status := FAILED\<rparr>), E @ ms)"
| drains: "ledger_step (Q, P, E) (Q, P, [])"

abbreviation ledger_steps :: "ledger \<Rightarrow> ledger \<Rightarrow> bool" where
  "ledger_steps \<equiv> ledger_step\<^sup>*\<^sup>*"

section \<open>The invariant of the ledger\<close>

text \<open>The payments a list of messages announces with the given event type.\<close>

definition named :: "string \<Rightarrow> message \<Rightarrow> string option" where
  "named et m =
     (case (map_of m ''event_type'', map_of m ''payload'') of
        (Some (JStr t), Some (JObj pl)) \<Rightarrow>
          (if t = et then (case map_of pl ''payment_id'' of Some (JStr j) \<Rightarrow> Some j | _ \<Rightarrow> None) else None)
      | _ \<Rightarrow> None)"

definition announced :: "string \<Rightarrow> message list \<Rightarrow> string list" where
  "announced et ms = concat (map (\<lambda>m. case named et m of None \<Rightarrow> [] | Some j \<Rightarrow> [j]) ms)"

lemma announced_simps [simp]:
  "announced et [] = []" "announced et (a @ b) = announced et a @ announced et b"
  by (simp_all add: announced_def)

lemma announced_event:
  assumes "announces ev ms" and "about ev et' ''payment_id'' j"
  shows "announced et ms = (if ms \<noteq> [] \<and> et = et' then [j] else [])"
  using assms by (auto simp: announces_def announced_def named_def about_def)

lemma announced_other:
  assumes "announces ev ms" and "about ev et' key i" and "et \<noteq> et'"
  shows "announced et ms = []"
  using assms by (auto simp: announces_def announced_def named_def about_def)

definition payment_fits :: "(string \<rightharpoonup> quote) \<Rightarrow> payment \<Rightarrow> bool" where
  "payment_fits Q p \<longleftrightarrow>
     (\<exists>q. Q (p_quote_id p) = Some q \<and> q_status q = APPROVED \<and> q_total q = p_total p \<and>
          q_service_order_id q = p_service_order_id p)"

fun ledger_ok :: "ledger \<Rightarrow> bool" where
  "ledger_ok (Q, P, E) \<longleftrightarrow>
     (\<forall>i q. Q i = Some q \<longrightarrow> q_quote_id q = i \<and> q_status q \<noteq> CANCELLED \<and> valid_money (q_total q)) \<and>
     (\<forall>j p. P j = Some p \<longrightarrow> p_payment_id p = j \<and> p_status p \<noteq> WAITING_PREFERENCE \<and>
        p_preference p \<noteq> None \<and> payment_fits Q p) \<and>
     (\<forall>j p j' p'. P j = Some p \<longrightarrow> P j' = Some p' \<longrightarrow> p_quote_id p = p_quote_id p' \<longrightarrow> j = j') \<and>
     distinct (announced ''PAYMENT_CONFIRMED'' E) \<and>
     (\<forall>j\<in>set (announced ''PAYMENT_CONFIRMED'' E). \<exists>p. P j = Some p \<and> p_status p = CONFIRMED) \<and>
     (\<forall>j\<in>set (announced ''PAYMENT_FAILED'' E). \<exists>p. P j = Some p \<and> p_status p = FAILED) \<and>
     (\<forall>m\<in>set E. map_of m ''event_type'' \<noteq> Some (JStr ''QUOTE_CANCELLED''))"

definition empty_ledger :: ledger where
  "empty_ledger = (Map.empty, Map.empty, [])"

lemma empty_ledger_ok [simp]: "ledger_ok empty_ledger"
  by (simp add: empty_ledger_def)

lemma about_not_cancelled:
  "announces ev ms \<Longrightarrow> about ev et key i \<Longrightarrow> et \<noteq> ''QUOTE_CANCELLED'' \<Longrightarrow>
     \<forall>m\<in>set ms. map_of m ''event_type'' \<noteq> Some (JStr ''QUOTE_CANCELLED'')"
  by (auto simp: announces_def about_def)

lemma payment_fits_update:
  "payment_fits Q p \<Longrightarrow> Q i = None \<or> (\<exists>q'. Q i = Some q' \<and> q_status q' = CREATED) \<Longrightarrow>
     payment_fits (Q(i \<mapsto> q)) p"
  by (auto simp: payment_fits_def)

lemma payment_fits_status [simp]: "payment_fits Q (p\<lparr>p_status := s\<rparr>) = payment_fits Q p"
  by (simp add: payment_fits_def)

lemma ledger_step_ok: "ledger_step L L' \<Longrightarrow> ledger_ok L \<Longrightarrow> ledger_ok L'"
proof (induction rule: ledger_step.induct)
  case (creates Q q ev ms P E)
  note a = announced_other[OF creates(5,4)] and c = about_not_cancelled[OF creates(5,4)]
  show ?case using creates.prems creates(1-3)
    by (auto simp: a intro: payment_fits_update dest: c[rule_format, rotated])
next
  case (approves Q i q ev ms P E)
  note a = announced_other[OF approves(4,3)] and c = about_not_cancelled[OF approves(4,3)]
  show ?case using approves.prems approves(1,2)
    by (auto simp: a intro: payment_fits_update dest: c[rule_format, rotated])
next
  case (requests Q i q P p ev E ms)
  note a = announced_other[OF requests(11,10)] and c = about_not_cancelled[OF requests(11,10)]
  have fits: "payment_fits Q p" using requests(1,2,5-7) by (auto simp: payment_fits_def)
  have new: "p_quote_id p' \<noteq> i" if "P j = Some p'" for j p'
    using requests(4) that by (auto simp: ran_def)
  from requests.prems requests(3,5,8,9) fits show ?case
    by (auto simp: a dest: new c[rule_format, rotated])
next
  case (confirms P j p ev ms Q E)
  note a = announced_event[OF confirms(4,3)] and c = about_not_cancelled[OF confirms(4,3)]
  have new: "j \<notin> set (announced ''PAYMENT_CONFIRMED'' E)" "j \<notin> set (announced ''PAYMENT_FAILED'' E)"
    using confirms.prems confirms(1,2) by fastforce+
  from confirms.prems confirms(1) new show ?case
    by (auto simp: a dest: c[rule_format, rotated])
next
  case (fails P j p ev ms Q E)
  note a = announced_event[OF fails(4,3)] and c = about_not_cancelled[OF fails(4,3)]
  have new: "j \<notin> set (announced ''PAYMENT_CONFIRMED'' E)"
    using fails.prems fails(1,2) by fastforce
  from fails.prems fails(1) new show ?case
    by (auto simp: a dest: c[rule_format, rotated])
qed simp

lemma ledger_steps_ok: "ledger_steps L L' \<Longrightarrow> ledger_ok L \<Longrightarrow> ledger_ok L'"
  by (induction rule: rtranclp_induct) (auto intro: ledger_step_ok)

text \<open>What is stored only moves forward: nothing is forgotten, identities and totals stay.\<close>

definition quote_grows :: "quote \<Rightarrow> quote \<Rightarrow> bool" where
  "quote_grows q q' \<longleftrightarrow> same_quote q q' \<and> q_status q \<le> q_status q' \<and> (q_status q = APPROVED \<longrightarrow> q' = q)"

definition payment_grows :: "payment \<Rightarrow> payment \<Rightarrow> bool" where
  "payment_grows p p' \<longleftrightarrow> same_payment p p' \<and> p_preference p' = p_preference p \<and> p_status p \<le> p_status p'"

lemma same_quote_iff:
  "same_quote q q' \<longleftrightarrow> q_service_order_id q' = q_service_order_id q \<and> q_items q' = q_items q \<and>
     q_total q' = q_total q \<and> q_quote_id q' = q_quote_id q"
  by (cases q; cases q') (auto simp: same_quote_def)

lemma quote_grows_refl [simp]: "quote_grows q q"
  by (simp add: quote_grows_def same_quote_iff)

lemma quote_grows_trans: "quote_grows a b \<Longrightarrow> quote_grows b c \<Longrightarrow> quote_grows a c"
  by (auto simp: quote_grows_def same_quote_iff)

lemma payment_grows_refl [simp]: "payment_grows p p"
  by (simp add: payment_grows_def)

lemma payment_grows_trans: "payment_grows a b \<Longrightarrow> payment_grows b c \<Longrightarrow> payment_grows a c"
  by (auto simp: payment_grows_def same_payment_iff)

definition map_grows :: "('e \<Rightarrow> 'e \<Rightarrow> bool) \<Rightarrow> (string \<rightharpoonup> 'e) \<Rightarrow> (string \<rightharpoonup> 'e) \<Rightarrow> bool" where
  "map_grows R m m' \<longleftrightarrow> (\<forall>i x. m i = Some x \<longrightarrow> (\<exists>x'. m' i = Some x' \<and> R x x'))"

text \<open>A payment in a final status stays as it is.\<close>

lemma payment_grows_final:
  assumes "payment_grows p p'" and "p_status p \<in> {CONFIRMED, FAILED}"
  shows "p' = p"
proof -
  have "p_status p' = p_status p" and "p_preference p' = p_preference p"
    using assms by (auto simp: payment_grows_def less_eq_payment_status_def)
  then show ?thesis
    using assms(1) by (cases p; cases p') (auto simp: payment_grows_def same_payment_iff)
qed

lemma payment_growsD:
  "payment_grows p p' \<Longrightarrow> same_payment p p' \<and> p_status p \<le> p_status p' \<and> p_preference p' = p_preference p \<and>
     (p_status p \<in> {CONFIRMED, FAILED} \<longrightarrow> p' = p)"
  using payment_grows_final[of p p'] unfolding payment_grows_def by blast

lemma map_grows_refl: "(\<And>x. R x x) \<Longrightarrow> map_grows R m m"
  by (simp add: map_grows_def)

lemma map_grows_trans:
  assumes "\<And>x y z. R x y \<Longrightarrow> R y z \<Longrightarrow> R x z" and "map_grows R a b" and "map_grows R b c"
  shows "map_grows R a c"
  unfolding map_grows_def
proof (intro allI impI)
  fix i x assume "a i = Some x"
  then obtain y where "b i = Some y" "R x y" using assms(2) by (auto simp: map_grows_def)
  moreover from this obtain z where "c i = Some z" "R y z" using assms(3) by (auto simp: map_grows_def)
  ultimately show "\<exists>x'. c i = Some x' \<and> R x x'" using assms(1) by blast
qed

fun ledger_grows :: "ledger \<Rightarrow> ledger \<Rightarrow> bool" where
  "ledger_grows (Q, P, E) (Q', P', E') \<longleftrightarrow> map_grows quote_grows Q Q' \<and> map_grows payment_grows P P'"

lemma ledger_grows_refl: "ledger_grows L L"
  by (cases L) (simp add: map_grows_refl)

lemma ledger_grows_trans: "ledger_grows A B \<Longrightarrow> ledger_grows B C \<Longrightarrow> ledger_grows A C"
  by (cases A; cases B; cases C)
     (auto intro: map_grows_trans quote_grows_trans payment_grows_trans)

lemma ledger_step_grows: "ledger_step L L' \<Longrightarrow> ledger_grows L L'"
  by (induction rule: ledger_step.induct)
     (auto simp: map_grows_def quote_grows_def payment_grows_def same_quote_iff same_payment_iff
         less_eq_quote_status_def payment_edge_le[OF payment_edge.confirms] payment_edge_le[OF payment_edge.fails])

lemma ledger_steps_grow: "ledger_steps L L' \<Longrightarrow> ledger_grows L L'"
proof (induction rule: rtranclp_induct)
  case base
  show ?case by (rule ledger_grows_refl)
next
  case (step y z)
  then show ?case using ledger_step_grows ledger_grows_trans by blast
qed

section \<open>The two steps of an approval\<close>

lemma approval_steps:
  assumes ok: "ledger_ok (Q, P, E)" and q: "Q i = Some q" "q_status q = CREATED"
    and ev1: "about ev1 ''QUOTE_APPROVED'' ''quote_id'' i"
  shows "announces ev1 ms1 \<Longrightarrow> ledger_steps (Q, P, E) (Q(i \<mapsto> q\<lparr>q_status := APPROVED\<rparr>), P, E @ ms1)"
    and "announces ev1 ms1 \<Longrightarrow> announces ev2 ms2 \<Longrightarrow> P (p_payment_id p) = None \<Longrightarrow> p_quote_id p = i \<Longrightarrow>
      p_service_order_id p = q_service_order_id q \<Longrightarrow> p_total p = q_total q \<Longrightarrow>
      p_status p = PENDING \<Longrightarrow> p_preference p \<noteq> None \<Longrightarrow>
      about ev2 ''PAYMENT_PREFERENCE_CREATED'' ''payment_id'' (p_payment_id p) \<Longrightarrow>
      ledger_steps (Q, P, E)
        (Q(i \<mapsto> q\<lparr>q_status := APPROVED\<rparr>), P(p_payment_id p \<mapsto> p), (E @ ms1) @ ms2)"
proof -
  let ?q = "q\<lparr>q_status := APPROVED\<rparr>"
  show one: "ledger_steps (Q, P, E) (Q(i \<mapsto> ?q), P, E @ ms1)" if "announces ev1 ms1" for ms1
    by (rule r_into_rtranclp, rule ledger_step.approves[where Q = Q and i = i and q = q and ev = ev1])
      (use q ev1 that in simp_all)
  have free: "\<forall>p'\<in>ran P. p_quote_id p' \<noteq> i"
    using ok q by (force simp: ran_def payment_fits_def)
  assume a: "announces ev1 ms1" "announces ev2 ms2" and p: "P (p_payment_id p) = None" "p_quote_id p = i"
      "p_service_order_id p = q_service_order_id q" "p_total p = q_total q"
      "p_status p = PENDING" "p_preference p \<noteq> None"
      "about ev2 ''PAYMENT_PREFERENCE_CREATED'' ''payment_id'' (p_payment_id p)"
  have "ledger_step (Q(i \<mapsto> ?q), P, E @ ms1) (Q(i \<mapsto> ?q), P(p_payment_id p \<mapsto> p), (E @ ms1) @ ms2)"
    by (rule ledger_step.requests[where q = ?q and ev = ev2]) (use p free a in simp_all)
  with one[OF a(1)] show "ledger_steps (Q, P, E)
      (Q(i \<mapsto> ?q), P(p_payment_id p \<mapsto> p), (E @ ms1) @ ms2)"
    by (rule rtranclp.rtrancl_into_rtrancl)
qed

end
