(* ===== verification/Billing.thy ===== *)
theory Billing
  imports Use_Cases Ledger
begin

text \<open>
  The use cases keep the promises of the ledger. The locale \<open>billing_service\<close> puts the
  contracts of the collaborators together: a quote and a payment repository, a publisher and
  a gateway. In it every use case is shown to make only ledger steps, on every path,
  exceptions of every collaborator included. It is interpreted on the process as the runtime
  wires it, in memory and in real mode.
\<close>

section \<open>Identifiers\<close>

definition ids_drawn :: "env \<Rightarrow> (string \<rightharpoonup> 'a) \<Rightarrow> bool" where
  "ids_drawn e m \<longleftrightarrow> (\<forall>i. m i \<noteq> None \<longrightarrow> (\<exists>n<uuid_used e. i = uuid_at e n))"

lemma ids_drawn_fresh: "inj (uuid_at e) \<Longrightarrow> ids_drawn e m \<Longrightarrow> m (fresh_uuid e) = None"
  by (auto simp: ids_drawn_def fresh_uuid_def dest: injD)

lemma ids_drawn_mono: "ids_drawn e m \<Longrightarrow> same_world e e' \<Longrightarrow> ids_drawn e' m"
  by (auto simp: ids_drawn_def same_world_def) (metis order_less_le_trans)

lemma ids_drawn_empty [simp]: "ids_drawn e Map.empty"
  by (simp add: ids_drawn_def)

lemma ids_drawn_update: "ids_drawn e m \<Longrightarrow> m i \<noteq> None \<Longrightarrow> ids_drawn e (m(i \<mapsto> x))"
  by (auto simp: ids_drawn_def)

lemma ids_drawn_new:
  "ids_drawn e m \<Longrightarrow> same_world (drawn e) e' \<Longrightarrow> ids_drawn e' (m(fresh_uuid e \<mapsto> x))"
  using ids_drawn_mono[of e m e'] same_world_trans[OF same_world_drawn]
  by (auto simp: ids_drawn_def fresh_uuid_def drawn_def same_world_def) (metis Suc_le_eq)+

lemma fresh_inj: "same_world e e' \<Longrightarrow> inj (uuid_at e) \<Longrightarrow> inj (uuid_at e')"
  by (simp add: same_world_def)

section \<open>The contract of the service\<close>

definition gateway_frame :: "gateway_port \<Rightarrow> bool" where
  "gateway_frame g \<longleftrightarrow>
     (\<forall>i so m e r e'. create_checkout_preference g i so m e = (r, e') \<longrightarrow> same_world e e') \<and>
     (\<forall>p e r e'. get_payment_status g p e = (r, e') \<longrightarrow> same_world e e')"

definition elsewhere :: "world \<Rightarrow> world \<Rightarrow> bool" where
  "elsewhere w w' \<longleftrightarrow> w_quotes w' = w_quotes w \<and> w_payments w' = w_payments w \<and>
     w_publisher w' = w_publisher w \<and> same_world (w_env w) (w_env w')"

definition processed_frame :: "world processed_port \<Rightarrow> bool" where
  "processed_frame pr \<longleftrightarrow>
     (\<forall>i w r w'. is_processed pr i w = (r, w') \<longrightarrow> elsewhere w w') \<and>
     (\<forall>i et corr w r w'. mark_processed pr i et corr w = (r, w') \<longrightarrow> elsewhere w w')"

text \<open>What confirming and failing have in common: nothing changes, or the payment settles.\<close>

definition settles :: "(payment \<Rightarrow> (env, payment \<times> domain_event) exec) \<Rightarrow> bool" where
  "settles m \<longleftrightarrow> (\<forall>p e. case m p e of
       (Inl x, e') \<Rightarrow> e' = e
     | (Inr (p', ev), e') \<Rightarrow> e' = stamped e \<and> known_event ev \<and>
         (p_status p = PENDING \<and> p' = p\<lparr>p_status := CONFIRMED\<rparr> \<and>
            about ev ''PAYMENT_CONFIRMED'' ''payment_id'' (p_payment_id p) \<or>
          p_status p \<noteq> CONFIRMED \<and> p' = p\<lparr>p_status := FAILED\<rparr> \<and>
            about ev ''PAYMENT_FAILED'' ''payment_id'' (p_payment_id p)))"

lemma settles_methods [simp]: "settles payment_confirm" "settles (payment_fail reason)"
  by (simp_all add: settles_def payment_confirm_run payment_fail_run about_def payment_payload_def
      map_of_dict_update known_event_def integration_event_types_def)

lemma settlesE:
  assumes "settles m" and "m p e = (Inr (p', ev), e')"
  obtains "e' = stamped e" "known_event ev" "same_payment p p'" "p_payment_id p' = p_payment_id p"
    "\<And>Q P E ms. P (p_payment_id p) = Some p \<Longrightarrow> announces ev ms \<Longrightarrow>
       ledger_steps (Q, P, E) (Q, P(p_payment_id p \<mapsto> p'), E @ ms)"
proof -
  have m: "e' = stamped e \<and> known_event ev \<and>
         (p_status p = PENDING \<and> p' = p\<lparr>p_status := CONFIRMED\<rparr> \<and>
            about ev ''PAYMENT_CONFIRMED'' ''payment_id'' (p_payment_id p) \<or>
          p_status p \<noteq> CONFIRMED \<and> p' = p\<lparr>p_status := FAILED\<rparr> \<and>
            about ev ''PAYMENT_FAILED'' ''payment_id'' (p_payment_id p))"
    using assms unfolding settles_def by (auto dest!: spec[of _ p] spec[of _ e])
  have "ledger_step (Q, P, E) (Q, P(p_payment_id p \<mapsto> p'), E @ ms)"
    if "P (p_payment_id p) = Some p" "announces ev ms" for Q P E ms
    using m that ledger_step.confirms[of P "p_payment_id p" p ev ms Q E]
      ledger_step.fails[of P "p_payment_id p" p ev ms Q E] by auto
  then show thesis using m by (intro that) (auto simp: same_payment_iff)
qed

locale billing_service =
  quotes: repository "quote_repo app" q_quote_id q_service_order_id "\<lambda>q. valid_money (q_total q)"
    mq mqo goodq viewq linkedq +
  payments: repository "payment_repo app" p_payment_id p_service_order_id "\<lambda>p. valid_money (p_total p)"
    mp mpo goodp viewp linkedp +
  pub: event_publisher "event_pub app" outbox
  for app :: app and mq mqo goodq viewq linkedq mp mpo goodp viewp linkedp outbox +
  assumes gateway: "gateway_frame (gateway app)"
    and processed: "processed_frame (processed_repo app)"
begin

definition ledger_of :: "world \<Rightarrow> ledger" where
  "ledger_of w = (viewq (w_quotes w), viewp (w_payments w), outbox (w_publisher w))"

definition kept :: "world \<Rightarrow> bool" where
  "kept w \<longleftrightarrow> goodq (w_quotes w) \<and> goodp (w_payments w) \<and> inj (uuid_at (w_env w)) \<and>
     ids_drawn (w_env w) (viewq (w_quotes w)) \<and> ids_drawn (w_env w) (viewp (w_payments w))"

definition moves :: "world \<Rightarrow> world \<Rightarrow> bool" where
  "moves w0 w \<longleftrightarrow> kept w \<and> ledger_steps (ledger_of w0) (ledger_of w) \<and> same_world (w_env w0) (w_env w)"

lemma moves_refl: "kept w \<Longrightarrow> moves w w"
  by (simp add: moves_def)

lemma wp_publish:
  assumes "known_event ev"
    and "\<And>ps. outbox ps = outbox (w_publisher w) @ [to_message ev] \<Longrightarrow> Q () (w\<lparr>w_publisher := ps\<rparr>)"
    and "\<And>x ps ms. announces ev ms \<Longrightarrow> outbox ps = outbox (w_publisher w) @ ms \<Longrightarrow> E x (w\<lparr>w_publisher := ps\<rparr>)"
  shows "wp (in_publisher (publish (event_pub app) ev)) Q E w"
  unfolding in_publisher_def wp_zoom
proof (rule wpI)
  fix x ps assume "publish (event_pub app) ev (w_publisher w) = (Inr x, ps)"
  from pub.publish_law[OF assms(1) this] show "Q x (w\<lparr>w_publisher := ps\<rparr>)"
    using assms(2)[of ps] by simp
next
  fix x ps assume "publish (event_pub app) ev (w_publisher w) = (Inl x, ps)"
  from pub.publish_law[OF assms(1) this] show "E x (w\<lparr>w_publisher := ps\<rparr>)"
    using assms(3)[of "[]" ps x] assms(3)[of "[to_message ev]" ps x] by (auto simp: announces_def)
qed

lemma wp_get_quote:
  assumes "goodq (w_quotes w)"
    and "\<And>a c. goodq c \<Longrightarrow> viewq c = viewq (w_quotes w) \<Longrightarrow> a < length (heap c) \<Longrightarrow>
      viewq (w_quotes w) i = Some (heap c ! a) \<Longrightarrow> Q a (w\<lparr>w_quotes := c\<rparr>)"
    and "\<And>x c. goodq c \<Longrightarrow> viewq c = viewq (w_quotes w) \<Longrightarrow> E x (w\<lparr>w_quotes := c\<rparr>)"
  shows "wp (in_quotes (get (quote_repo app) i)) Q E w"
  unfolding in_quotes_def wp_zoom
proof (rule wpI)
  fix a c assume "get (quote_repo app) i (w_quotes w) = (Inr a, c)"
  from quotes.get_law[OF assms(1) this] show "Q a (w\<lparr>w_quotes := c\<rparr>)" using assms(2) by simp
next
  fix x c assume "get (quote_repo app) i (w_quotes w) = (Inl x, c)"
  from quotes.get_law[OF assms(1) this] show "E x (w\<lparr>w_quotes := c\<rparr>)" using assms(3) by simp
qed

lemma wp_get_payment:
  assumes "goodp (w_payments w)"
    and "\<And>a c. goodp c \<Longrightarrow> viewp c = viewp (w_payments w) \<Longrightarrow> a < length (heap c) \<Longrightarrow>
      viewp (w_payments w) i = Some (heap c ! a) \<Longrightarrow> Q a (w\<lparr>w_payments := c\<rparr>)"
    and "\<And>x c. goodp c \<Longrightarrow> viewp c = viewp (w_payments w) \<Longrightarrow> E x (w\<lparr>w_payments := c\<rparr>)"
  shows "wp (in_payments (get (payment_repo app) i)) Q E w"
  unfolding in_payments_def wp_zoom
proof (rule wpI)
  fix a c assume "get (payment_repo app) i (w_payments w) = (Inr a, c)"
  from payments.get_law[OF assms(1) this] show "Q a (w\<lparr>w_payments := c\<rparr>)" using assms(2) by simp
next
  fix x c assume "get (payment_repo app) i (w_payments w) = (Inl x, c)"
  from payments.get_law[OF assms(1) this] show "E x (w\<lparr>w_payments := c\<rparr>)" using assms(3) by simp
qed

lemma wp_save_quote:
  assumes "goodq (w_quotes w)" and "a < length (heap (w_quotes w))"
    and "valid_money (q_total (heap (w_quotes w) ! a))"
    and "\<And>c. goodq c \<Longrightarrow> heap c = heap (w_quotes w) \<Longrightarrow>
      viewq c = (viewq (w_quotes w))(q_quote_id (heap c ! a) \<mapsto> heap c ! a) \<Longrightarrow> Q () (w\<lparr>w_quotes := c\<rparr>)"
    and "\<And>x c. goodq c \<Longrightarrow> viewq c = viewq (w_quotes w) \<Longrightarrow> E x (w\<lparr>w_quotes := c\<rparr>)"
  shows "wp (in_quotes (save (quote_repo app) a)) Q E w"
  unfolding in_quotes_def wp_zoom
proof (rule wpI)
  fix u c assume "save (quote_repo app) a (w_quotes w) = (Inr u, c)"
  from quotes.save_law[OF assms(1-3) this] show "Q u (w\<lparr>w_quotes := c\<rparr>)" using assms(4)[of c] by simp
next
  fix x c assume "save (quote_repo app) a (w_quotes w) = (Inl x, c)"
  from quotes.save_law[OF assms(1-3) this] show "E x (w\<lparr>w_quotes := c\<rparr>)" using assms(5) by simp
qed

lemma wp_save_payment:
  assumes "goodp (w_payments w)" and "a < length (heap (w_payments w))"
    and "valid_money (p_total (heap (w_payments w) ! a))"
    and "\<And>c. goodp c \<Longrightarrow> heap c = heap (w_payments w) \<Longrightarrow>
      viewp c = (viewp (w_payments w))(p_payment_id (heap c ! a) \<mapsto> heap c ! a) \<Longrightarrow> Q () (w\<lparr>w_payments := c\<rparr>)"
    and "\<And>x c. goodp c \<Longrightarrow> viewp c = viewp (w_payments w) \<Longrightarrow> E x (w\<lparr>w_payments := c\<rparr>)"
  shows "wp (in_payments (save (payment_repo app) a)) Q E w"
  unfolding in_payments_def wp_zoom
proof (rule wpI)
  fix u c assume "save (payment_repo app) a (w_payments w) = (Inr u, c)"
  from payments.save_law[OF assms(1-3) this] show "Q u (w\<lparr>w_payments := c\<rparr>)" using assms(4)[of c] by simp
next
  fix x c assume "save (payment_repo app) a (w_payments w) = (Inl x, c)"
  from payments.save_law[OF assms(1-3) this] show "E x (w\<lparr>w_payments := c\<rparr>)" using assms(5) by simp
qed

lemma wp_on_quote:
  assumes "goodq (w_quotes w)" and "a < length (heap (w_quotes w))"
    and "valid_money (q_total (heap (w_quotes w) ! a))"
    and "\<And>x e. method (heap (w_quotes w) ! a) (w_env w) = (Inl x, e) \<Longrightarrow> E x (w\<lparr>w_env := e\<rparr>)"
    and "\<And>q' y e. method (heap (w_quotes w) ! a) (w_env w) = (Inr (q', y), e) \<Longrightarrow>
      same_quote (heap (w_quotes w) ! a) q'"
    and "\<And>q' y e c. method (heap (w_quotes w) ! a) (w_env w) = (Inr (q', y), e) \<Longrightarrow> goodq c \<Longrightarrow>
      heap c = (heap (w_quotes w))[a := q'] \<Longrightarrow>
      viewq c = (if linkedq (w_quotes w) a then (viewq (w_quotes w))(q_quote_id q' \<mapsto> q')
                 else viewq (w_quotes w)) \<Longrightarrow>
      Q y (w\<lparr>w_env := e, w_quotes := c\<rparr>)"
  shows "wp (on_quote method a) Q E w"
proof -
  let ?q = "heap (w_quotes w) ! a"
  obtain r e where m: "method ?q (w_env w) = (r, e)" by fastforce
  show ?thesis
  proof (cases r)
    case (Inl x)
    then have "on_quote method a w = (Inl x, w\<lparr>w_env := e\<rparr>)"
      using m by (simp add: on_quote_def in_quotes_def in_env_def zoom_def deref_def andthen_def)
    then show ?thesis using assms(4) m Inl by (simp add: wp_def)
  next
    case (Inr p)
    then obtain q' y where y: "method ?q (w_env w) = (Inr (q', y), e)" using m by (cases p) auto
    let ?c = "(w_quotes w)\<lparr>heap := (heap (w_quotes w))[a := q']\<rparr>"
    have "same_quote ?q q'" using assms(5)[OF y] .
    then have q': "q_quote_id q' = q_quote_id ?q" "valid_money (q_total q')"
      using assms(3) by (auto simp: same_quote_iff)
    from quotes.assign_law[OF assms(1,2) q'] have "Q y (w\<lparr>w_env := e, w_quotes := ?c\<rparr>)"
      by (intro assms(6)[OF y]) auto
    moreover have "on_quote method a w = (Inr y, w\<lparr>w_env := e, w_quotes := ?c\<rparr>)"
      using y by (simp add: on_quote_def in_quotes_def in_env_def zoom_def deref_def assign_def andthen_def)
    ultimately show ?thesis by (simp add: wp_def)
  qed
qed

lemma wp_on_payment:
  assumes "goodp (w_payments w)" and "a < length (heap (w_payments w))"
    and "valid_money (p_total (heap (w_payments w) ! a))"
    and "\<And>x e. method (heap (w_payments w) ! a) (w_env w) = (Inl x, e) \<Longrightarrow> E x (w\<lparr>w_env := e\<rparr>)"
    and "\<And>p' y e. method (heap (w_payments w) ! a) (w_env w) = (Inr (p', y), e) \<Longrightarrow>
      same_payment (heap (w_payments w) ! a) p'"
    and "\<And>p' y e c. method (heap (w_payments w) ! a) (w_env w) = (Inr (p', y), e) \<Longrightarrow> goodp c \<Longrightarrow>
      heap c = (heap (w_payments w))[a := p'] \<Longrightarrow>
      viewp c = (if linkedp (w_payments w) a then (viewp (w_payments w))(p_payment_id p' \<mapsto> p')
                 else viewp (w_payments w)) \<Longrightarrow>
      Q y (w\<lparr>w_env := e, w_payments := c\<rparr>)"
  shows "wp (on_payment method a) Q E w"
proof -
  let ?p = "heap (w_payments w) ! a"
  obtain r e where m: "method ?p (w_env w) = (r, e)" by fastforce
  show ?thesis
  proof (cases r)
    case (Inl x)
    then have "on_payment method a w = (Inl x, w\<lparr>w_env := e\<rparr>)"
      using m by (simp add: on_payment_def in_payments_def in_env_def zoom_def deref_def andthen_def)
    then show ?thesis using assms(4) m Inl by (simp add: wp_def)
  next
    case (Inr y0)
    then obtain p' y where y: "method ?p (w_env w) = (Inr (p', y), e)" using m by (cases y0) auto
    let ?c = "(w_payments w)\<lparr>heap := (heap (w_payments w))[a := p']\<rparr>"
    have "same_payment ?p p'" using assms(5)[OF y] .
    then have p': "p_payment_id p' = p_payment_id ?p" "valid_money (p_total p')"
      using assms(3) by (auto simp: same_payment_iff)
    from payments.assign_law[OF assms(1,2) p'] have "Q y (w\<lparr>w_env := e, w_payments := ?c\<rparr>)"
      by (intro assms(6)[OF y]) auto
    moreover have "on_payment method a w = (Inr y, w\<lparr>w_env := e, w_payments := ?c\<rparr>)"
      using y by (simp add: on_payment_def in_payments_def in_env_def zoom_def deref_def assign_def andthen_def)
    ultimately show ?thesis by (simp add: wp_def)
  qed
qed

lemma wp_env:
  assumes "\<And>x e. m (w_env w) = (Inr x, e) \<Longrightarrow> Q x (w\<lparr>w_env := e\<rparr>)"
    and "\<And>x e. m (w_env w) = (Inl x, e) \<Longrightarrow> E x (w\<lparr>w_env := e\<rparr>)"
  shows "wp (in_env m) Q E w"
  unfolding in_env_def wp_zoom using assms by (auto intro: wpI)

lemma wp_alloc_quote:
  assumes "goodq (w_quotes w)"
    and "\<And>c. goodq c \<Longrightarrow> heap c = heap (w_quotes w) @ [q] \<Longrightarrow> viewq c = viewq (w_quotes w) \<Longrightarrow>
      linkedq c = linkedq (w_quotes w) \<Longrightarrow> Q (length (heap (w_quotes w))) (w\<lparr>w_quotes := c\<rparr>)"
  shows "wp (in_quotes (alloc q)) Q E w"
proof -
  let ?c = "(w_quotes w)\<lparr>heap := heap (w_quotes w) @ [q]\<rparr>"
  have "Q (length (heap (w_quotes w))) (w\<lparr>w_quotes := ?c\<rparr>)"
    using quotes.alloc_law[OF assms(1), of q] by (intro assms(2)) simp_all
  then show ?thesis by (simp add: in_quotes_def wp_zoom alloc_def wp_def)
qed

lemma wp_alloc_payment:
  assumes "goodp (w_payments w)"
    and "\<And>c. goodp c \<Longrightarrow> heap c = heap (w_payments w) @ [p] \<Longrightarrow> viewp c = viewp (w_payments w) \<Longrightarrow>
      linkedp c = linkedp (w_payments w) \<Longrightarrow> Q (length (heap (w_payments w))) (w\<lparr>w_payments := c\<rparr>)"
  shows "wp (in_payments (alloc p)) Q E w"
proof -
  let ?c = "(w_payments w)\<lparr>heap := heap (w_payments w) @ [p]\<rparr>"
  have "Q (length (heap (w_payments w))) (w\<lparr>w_payments := ?c\<rparr>)"
    using payments.alloc_law[OF assms(1), of p] by (intro assms(2)) simp_all
  then show ?thesis by (simp add: in_payments_def wp_zoom alloc_def wp_def)
qed

lemma wp_deref [simp]:
  "wp (in_quotes (deref a)) Q E w = Q (heap (w_quotes w) ! a) w"
  "wp (in_payments (deref a)) Q' E w = Q' (heap (w_payments w) ! a) w"
  by (simp_all add: in_quotes_def in_payments_def wp_zoom deref_def wp_def)

section \<open>The use cases make only ledger steps\<close>

lemma create_moves:
  assumes "kept w"
  shows "wp (CreateQuoteUseCase app so items amt) (\<lambda>a w'. moves w w') (\<lambda>x w'. moves w w') w"
proof (cases "Money amt ''BRL''")
  case (Inl x)
  then show ?thesis using assms by (simp add: CreateQuoteUseCase_def wp_andthen moves_refl)
next
  case (Inr tot)
  have tot: "valid_money tot" using Inr unfolding Money_iff by blast
  have k: "goodq (w_quotes w)" "goodp (w_payments w)" "inj (uuid_at (w_env w))"
      "ids_drawn (w_env w) (viewq (w_quotes w))" "ids_drawn (w_env w) (viewp (w_payments w))"
    using assms by (simp_all add: kept_def)
  show ?thesis
    unfolding CreateQuoteUseCase_def wp_andthen Inr wp_simple sum.case
  proof (rule wp_env, goal_cases)
    case (2 x e)
    then have "e = w_env w" by (auto simp: quote_create_run Let_def split: if_splits)
    then show ?case using assms by (simp add: moves_refl)
  next
    case (1 y e)
    obtain q ev where y: "y = (q, ev)" by (cases y)
    have run: "quote_create so items tot (w_env w) = (Inr (q, ev), e)" using 1 y by simp
    then have q: "q = created_quote (w_env w) so items tot" and e: "e = stamped (drawn (w_env w))"
        and ab: "about ev ''QUOTE_CREATED'' ''quote_id'' (q_quote_id q)"
      by (auto simp: quote_create_run Let_def about_def quote_payload_def map_of_dict_update split: if_splits)
    have known: "known_event ev" using quote_create_event[OF run] by simp
    have world: "same_world (drawn (w_env w)) e" "same_world (w_env w) e"
      unfolding e using same_world_trans[OF same_world_drawn same_world_stamped] by simp_all
    have new: "viewq (w_quotes w) (q_quote_id q) = None"
      using ids_drawn_fresh[OF k(3,4)] by (simp add: q)
    have ids: "inj (uuid_at e)" "ids_drawn e (viewq (w_quotes w))" "ids_drawn e (viewp (w_payments w))"
        "ids_drawn e ((viewq (w_quotes w))(q_quote_id q \<mapsto> q))"
      using k world ids_drawn_mono ids_drawn_new[OF k(4) world(1)] by (auto simp: q intro: fresh_inj)
    have step: "ledger_steps (ledger_of w)
        ((viewq (w_quotes w))(q_quote_id q \<mapsto> q), viewp (w_payments w), outbox (w_publisher w) @ ms)"
      if "announces ev ms" for ms
      unfolding ledger_of_def
      by (rule r_into_rtranclp, rule ledger_step.creates[where ev = ev]) (use new ab that tot in \<open>simp_all add: q\<close>)
    show ?case
      unfolding y prod.case wp_andthen
    proof (rule wp_alloc_quote, goal_cases)
      case (2 c)
      show ?case
        unfolding wp_andthen
        by (rule wp_save_quote; (rule wp_publish[OF known])?)
          (use 2 k ids world step step[of "[]"] tot q in
            \<open>auto simp: moves_def kept_def ledger_of_def announces_def\<close>)
    qed (use k in simp)
  qed
qed

lemma approve_tail_moves:
  assumes k: "kept w" and ok: "ledger_ok (ledger_of w)"
    and q: "viewq (w_quotes w) i = Some q" "q_status q = CREATED"
    and ev1: "about ev1 ''QUOTE_APPROVED'' ''quote_id'' i" "known_event ev1"
    and ev2: "about ev2 ''PAYMENT_PREFERENCE_CREATED'' ''payment_id'' (p_payment_id p)" "known_event ev2"
    and p: "viewp (w_payments w) (p_payment_id p) = None" "p_quote_id p = i"
      "p_service_order_id p = q_service_order_id q" "p_total p = q_total q"
      "p_status p = PENDING" "p_preference p \<noteq> None"
    and w1: "goodq (w_quotes w1)" "goodp (w_payments w1)" "outbox (w_publisher w1) = outbox (w_publisher w)"
      "viewq (w_quotes w1) = viewq (w_quotes w) \<or>
       viewq (w_quotes w1) = (viewq (w_quotes w))(i \<mapsto> q\<lparr>q_status := APPROVED\<rparr>)"
      "viewp (w_payments w1) = viewp (w_payments w)"
      "a < length (heap (w_quotes w1))" "heap (w_quotes w1) ! a = q\<lparr>q_status := APPROVED\<rparr>"
      "b < length (heap (w_payments w1))" "heap (w_payments w1) ! b = p"
      "same_world (w_env w) (w_env w1)"
      "ids_drawn (w_env w1) ((viewp (w_payments w))(p_payment_id p \<mapsto> p))"
  shows "wp (andthen (in_quotes (save (quote_repo app) a)) (\<lambda>_.
     andthen (in_payments (save (payment_repo app) b)) (\<lambda>_.
     andthen (in_publisher (publish (event_pub app) ev1)) (\<lambda>_.
     andthen (in_publisher (publish (event_pub app) ev2)) (\<lambda>_. ret b)))))
     (\<lambda>b w'. moves w w') (\<lambda>x w'. moves w w') w1"
proof -
  let ?q = "q\<lparr>q_status := APPROVED\<rparr>"
  have vq: "q_quote_id q = i" "valid_money (q_total q)"
    using quotes.view_ident k q(1) by (auto simp: kept_def)
  have kept1: "inj (uuid_at (w_env w1))" "ids_drawn (w_env w1) (viewq (w_quotes w))"
      "ids_drawn (w_env w1) (viewp (w_payments w))"
      "ids_drawn (w_env w1) ((viewq (w_quotes w))(i \<mapsto> ?q))"
    using k w1(10) q(1) ids_drawn_mono by (auto simp: kept_def intro: fresh_inj ids_drawn_update)
  note steps = approval_steps[OF ok[unfolded ledger_of_def] q ev1(1), folded ledger_of_def]
  have one: "ledger_steps (ledger_of w)
      ((viewq (w_quotes w))(i \<mapsto> ?q), viewp (w_payments w), outbox (w_publisher w) @ ms)"
    if "announces ev1 ms" for ms
    using steps(1)[OF that] .
  have two: "ledger_steps (ledger_of w) ((viewq (w_quotes w))(i \<mapsto> ?q),
      (viewp (w_payments w))(p_payment_id p \<mapsto> p), (outbox (w_publisher w) @ ms1) @ ms2)"
    if "announces ev1 ms1" "announces ev2 ms2" for ms1 ms2
    using steps(2)[OF that p ev2(1)] .
  have ann: "announces e []" "announces e [to_message e]" for e by (simp_all add: announces_def)
  note done1 = one[OF ann(1)] two[OF ann(1) ann(1)] two[OF ann(2)] two[OF ann(2) ann(2)] two[OF _ ann(1)]
  show ?thesis
    unfolding wp_andthen
    by (rule wp_save_quote; (rule wp_save_payment)?; (rule wp_publish[OF ev1(2)])?;
        (rule wp_publish[OF ev2(2)])?)
      (use w1 vq p kept1 done1 in \<open>auto simp: moves_def kept_def ledger_of_def\<close>)
qed

lemma moves_quotes_frame:
  assumes "kept w" and "goodq c" and "same_world (w_env w) e" and "goodp d"
    and "viewq c = viewq (w_quotes w)" and "viewp d = viewp (w_payments w)"
  shows "moves w (w\<lparr>w_env := e, w_quotes := c, w_payments := d\<rparr>)"
  using assms by (auto simp: moves_def kept_def ledger_of_def
      intro: fresh_inj[OF assms(3)] ids_drawn_mono[OF _ assms(3)])

lemma moves_approved_only:
  assumes "kept w" and "ledger_ok (ledger_of w)"
    and "viewq (w_quotes w) i = Some q" and "q_status q = CREATED"
    and "goodq c" and "same_world (w_env w) e" and "goodp d"
    and "viewq c = viewq (w_quotes w) \<or> viewq c = (viewq (w_quotes w))(i \<mapsto> q\<lparr>q_status := APPROVED\<rparr>)"
    and "viewp d = viewp (w_payments w)"
  shows "moves w (w\<lparr>w_env := e, w_quotes := c, w_payments := d\<rparr>)"
  using assms(8)
proof
  assume "viewq c = viewq (w_quotes w)"
  then show ?thesis using assms by (intro moves_quotes_frame) auto
next
  assume v: "viewq c = (viewq (w_quotes w))(i \<mapsto> q\<lparr>q_status := APPROVED\<rparr>)"
  define ev where "ev = event_at (w_env w) ''QUOTE_APPROVED'' [] [(''quote_id'', JStr i)]"
  have "about ev ''QUOTE_APPROVED'' ''quote_id'' i" by (simp add: about_def ev_def)
  from approval_steps(1)[OF assms(2)[unfolded ledger_of_def] assms(3,4) this, of "[]"]
  have "ledger_steps (ledger_of w) (viewq c, viewp d, outbox (w_publisher w))"
    by (simp add: ledger_of_def announces_def v assms(9))
  then show ?thesis
    using assms(1,3,5-7,9) v
    by (auto simp: moves_def kept_def ledger_of_def
        intro: fresh_inj[OF assms(6)] ids_drawn_mono[OF _ assms(6)] ids_drawn_update)
qed

lemma approve_preference_moves:
  assumes k: "kept w" and ok: "ledger_ok (ledger_of w)"
    and q: "viewq (w_quotes w) i = Some q" "q_status q = CREATED"
    and ev: "about ev ''QUOTE_APPROVED'' ''quote_id'' i" "known_event ev"
    and p: "p = opened_payment (stamped (w_env w)) (q\<lparr>q_status := APPROVED\<rparr>)"
    and w1: "goodq (w_quotes w1)" "goodp (w_payments w1)" "w_publisher w1 = w_publisher w"
      "w_env w1 = drawn (stamped (w_env w))" "\<And>e. w1\<lparr>w_env := e\<rparr> = w\<lparr>w_env := e, w_quotes := w_quotes w1, w_payments := w_payments w1\<rparr>"
      "viewq (w_quotes w1) = viewq (w_quotes w) \<or>
       viewq (w_quotes w1) = (viewq (w_quotes w))(i \<mapsto> q\<lparr>q_status := APPROVED\<rparr>)"
      "viewp (w_payments w1) = viewp (w_payments w)"
      "a < length (heap (w_quotes w1))" "heap (w_quotes w1) ! a = q\<lparr>q_status := APPROVED\<rparr>"
      "b < length (heap (w_payments w1))" "heap (w_payments w1) ! b = p" "\<not> linkedp (w_payments w1) b"
  shows "wp (on_payment (payment_create_preference (gateway app)) b)
     (\<lambda>ev2. wp (andthen (in_quotes (save (quote_repo app) a)) (\<lambda>_.
       andthen (in_payments (save (payment_repo app) b)) (\<lambda>_.
       andthen (in_publisher (publish (event_pub app) ev)) (\<lambda>_.
       andthen (in_publisher (publish (event_pub app) ev2)) (\<lambda>_. ret b)))))
       (\<lambda>b w'. moves w w') (\<lambda>x w'. moves w w')) (\<lambda>x w'. moves w w') w1"
proof -
  have g: "goodq (w_quotes w)" "inj (uuid_at (w_env w))" "ids_drawn (w_env w) (viewp (w_payments w))"
    using k by (simp_all add: kept_def)
  have vq: "q_quote_id q = i" "valid_money (q_total q)" using quotes.view_ident[OF g(1) q(1)] by simp_all
  have world1: "same_world (w_env w) (stamped (w_env w))" "same_world (w_env w) (w_env w1)"
    unfolding w1(4) using same_world_trans[OF same_world_stamped same_world_drawn] by simp_all
  have frame: "same_world (w_env w1) e" if "payment_create_preference (gateway app) p (w_env w1) = (r, e)" for r e
  proof -
    obtain rp ep where c: "create_checkout_preference (gateway app) (p_quote_id p) (p_service_order_id p)
        (p_total p) (w_env w1) = (rp, ep)" by fastforce
    then have "same_world (w_env w1) ep" using gateway unfolding gateway_frame_def by blast
    then show ?thesis
      using that c same_world_trans[OF _ same_world_stamped]
      by (auto simp: payment_create_preference_run p split: sum.splits)
  qed
  have drawn_p: "viewp (w_payments w) (p_payment_id p) = None"
      "ids_drawn e ((viewp (w_payments w))(p_payment_id p \<mapsto> x))" if "same_world (w_env w1) e" for e x
    using ids_drawn_fresh[OF fresh_inj[OF world1(1) g(2)] ids_drawn_mono[OF g(3) world1(1)]]
      ids_drawn_new[OF ids_drawn_mono[OF g(3) world1(1)]] that unfolding w1(4) by (simp_all add: p)
  show ?thesis
  proof (rule wp_on_payment, goal_cases)
    case (4 x e)
    then have "same_world (w_env w) e" using frame[of "Inl x" e] world1(2) same_world_trans w1(11) by auto
    then show ?case
      unfolding w1(5) by (intro moves_approved_only[OF k ok q w1(1) _ w1(2,6,7)])
  next
    case (5 p' y e)
    then show ?case using payment_method_same[of "gateway app" Request_Preference] by simp
  next
    case (6 p' ev2 e d)
    then have run: "payment_create_preference (gateway app) p (w_env w1) = (Inr (p', ev2), e)" using w1(11) by simp
    have p': "p_payment_id p' = p_payment_id p" "p_quote_id p' = i" "p_status p' = PENDING"
        "p_service_order_id p' = q_service_order_id q" "p_total p' = q_total q" "p_preference p' \<noteq> None"
        "about ev2 ''PAYMENT_PREFERENCE_CREATED'' ''payment_id'' (p_payment_id p')" "known_event ev2"
      using run vq(1) by (auto simp: payment_create_preference_run p about_def payment_payload_def
          map_of_dict_update known_event_def integration_event_types_def split: if_splits prod.splits sum.splits)
    note e = frame[OF run]
    show ?case
      by (rule approve_tail_moves[OF k ok q ev p'(7,8)])
         (use w1 6 p' e drawn_p[OF e] same_world_trans[OF world1(2) e] in auto)
  qed (use w1 vq in \<open>simp_all add: p\<close>)
qed

lemma approve_moves:
  assumes k: "kept w" and ok: "ledger_ok (ledger_of w)"
  shows "wp (ApproveQuoteUseCase app i) (\<lambda>b w'. moves w w') (\<lambda>x w'. moves w w') w"
proof -
  have g: "goodq (w_quotes w)" "goodp (w_payments w)" "inj (uuid_at (w_env w))"
      "ids_drawn (w_env w) (viewp (w_payments w))"
    using k by (simp_all add: kept_def)
  show ?thesis
    unfolding ApproveQuoteUseCase_def wp_andthen
  proof (rule wp_get_quote, goal_cases)
    case (3 x c)
    then show ?case using moves_quotes_frame[OF k, of c "w_env w" "w_payments w"] g by simp
  next
    case (2 a c)
    define q where "q = heap c ! a"
    have q: "viewq (w_quotes w) i = Some q" "q_quote_id q = i" "valid_money (q_total q)"
      using 2 quotes.view_ident[OF g(1)] by (auto simp: q_def)
    show ?case
    proof (rule wp_on_quote, goal_cases)
      case (4 x e)
      then have "e = w_env w" by (auto simp: quote_approve_run split: if_splits)
      then show ?case using moves_quotes_frame[OF k 2(1), of "w_env w" "w_payments w"] 2 g by simp
    next
      case (5 q' ev e)
      then show ?case by (auto simp: quote_approve_run same_quote_iff split: if_splits)
    next
      case (6 q' ev e c')
      then have s: "q_status q = CREATED" and q': "q' = q\<lparr>q_status := APPROVED\<rparr>" and e: "e = stamped (w_env w)"
          and ev: "about ev ''QUOTE_APPROVED'' ''quote_id'' i" "known_event ev"
        using q(2) by (auto simp: quote_approve_run q_def about_def quote_payload_def map_of_dict_update
            known_event_def integration_event_types_def split: if_splits)
      have c': "goodq c'" "a < length (heap c')" "heap c' ! a = q\<lparr>q_status := APPROVED\<rparr>"
          "viewq c' = viewq (w_quotes w) \<or> viewq c' = (viewq (w_quotes w))(i \<mapsto> q\<lparr>q_status := APPROVED\<rparr>)"
        using 6 2 q q' by (auto split: if_splits)
      let ?w = "w\<lparr>w_env := e, w_quotes := c'\<rparr>"
      have "wp (andthen (in_env (payment_from_quote (q\<lparr>q_status := APPROVED\<rparr>))) (\<lambda>p.
         andthen (in_payments (alloc p)) (\<lambda>b.
         andthen (on_payment (payment_create_preference (gateway app)) b) (\<lambda>preference_event.
         andthen (in_quotes (save (quote_repo app) a)) (\<lambda>_.
         andthen (in_payments (save (payment_repo app) b)) (\<lambda>_.
         andthen (in_publisher (publish (event_pub app) ev)) (\<lambda>_.
         andthen (in_publisher (publish (event_pub app) preference_event)) (\<lambda>_.
           ret b)))))))) (\<lambda>b w'. moves w w') (\<lambda>x w'. moves w w') ?w"
      proof (unfold wp_andthen, rule wp_env, goal_cases)
        case (2 x e2)
        then show ?case by (simp add: payment_from_quote_run)
      next
        case (1 p e2)
        then have p: "p = opened_payment e (q\<lparr>q_status := APPROVED\<rparr>)" and e2: "e2 = drawn e"
          by (simp_all add: payment_from_quote_run split: if_splits)
        show ?case
        proof (rule wp_alloc_payment, goal_cases)
          case (2 d)
          show ?case
            by (rule approve_preference_moves[OF k ok q(1) s ev p[unfolded e], unfolded wp_andthen])
               (use 2 c' g e e2 q p in \<open>auto simp: payments.fresh_unlinked\<close>)
        qed (use g in simp)
      qed
      then show ?case unfolding wp_andthen by (simp add: c')
    qed (use 2 q g in \<open>auto simp: q_def\<close>)
  qed (use g in simp)
qed

text \<open>
  The moment between the decision on a payment and its save: the object at \<open>a\<close> is what will be
  stored under \<open>j\<close>, and announcing the event, if there is one, completes a ledger step.
\<close>

definition ready :: "world \<Rightarrow> string \<Rightarrow> nat \<Rightarrow> domain_event option \<Rightarrow> world \<Rightarrow> bool" where
  "ready w j a evo w1 \<longleftrightarrow>
     (let p = heap (w_payments w1) ! a in
      kept w \<and> goodp (w_payments w1) \<and> a < length (heap (w_payments w1)) \<and>
      valid_money (p_total p) \<and> p_payment_id p = j \<and> viewp (w_payments w) j \<noteq> None \<and>
      viewp (w_payments w1) \<in> {viewp (w_payments w), (viewp (w_payments w))(j \<mapsto> p)} \<and>
      same_world (w_env w) (w_env w1) \<and> w_quotes w1 = w_quotes w \<and> w_publisher w1 = w_publisher w \<and>
      (case evo of
         None \<Rightarrow> viewp (w_payments w) j = Some p
       | Some ev \<Rightarrow> known_event ev \<and> (\<forall>ms. announces ev ms \<longrightarrow> ledger_steps (ledger_of w)
           (viewq (w_quotes w), (viewp (w_payments w))(j \<mapsto> p), outbox (w_publisher w) @ ms))))"

lemma kept_payments:
  assumes "kept w" and "goodp d" and "same_world (w_env w) e" and "viewp (w_payments w) j \<noteq> None"
    and "viewp d = viewp (w_payments w) \<or> viewp d = (viewp (w_payments w))(j \<mapsto> p)"
    and "w_quotes w1 = w_quotes w" and "w_payments w1 = d" and "w_env w1 = e"
  shows "kept w1"
proof -
  have s: "same_world (w_env w) (w_env w1)" using assms(3,8) by simp
  have u: "ids_drawn (w_env w1) ((viewp (w_payments w))(j \<mapsto> p))"
    using assms(1,4) by (intro ids_drawn_update ids_drawn_mono[OF _ s]) (auto simp: kept_def)
  show ?thesis
    using assms(5,1,2,4,6,7) u
    by (auto simp: kept_def intro: fresh_inj[OF s] ids_drawn_mono[OF _ s])
qed

lemma ready_tail:
  assumes r: "ready w j a evo w1"
  shows "wp (in_payments (save (payment_repo app) a))
     (\<lambda>_. wp (case evo of None \<Rightarrow> ret () | Some ev \<Rightarrow> in_publisher (publish (event_pub app) ev))
       (\<lambda>_ w'. moves w w') (\<lambda>x w'. moves w w')) (\<lambda>x w'. moves w w') w1"
proof -
  let ?p = "heap (w_payments w1) ! a"
  have f: "kept w" "goodp (w_payments w1)" "a < length (heap (w_payments w1))" "valid_money (p_total ?p)"
      "p_payment_id ?p = j" "viewp (w_payments w) j \<noteq> None"
      "viewp (w_payments w1) = viewp (w_payments w) \<or> viewp (w_payments w1) = (viewp (w_payments w))(j \<mapsto> ?p)"
      "same_world (w_env w) (w_env w1)" "w_quotes w1 = w_quotes w" "w_publisher w1 = w_publisher w"
    using r by (auto simp: ready_def Let_def)
  have ev: "case evo of
         None \<Rightarrow> viewp (w_payments w) j = Some ?p
       | Some ev \<Rightarrow> known_event ev \<and> (\<forall>ms. announces ev ms \<longrightarrow> ledger_steps (ledger_of w)
           (viewq (w_quotes w), (viewp (w_payments w))(j \<mapsto> ?p), outbox (w_publisher w) @ ms))"
    using r by (simp add: ready_def Let_def)
  then have quiet: "ledger_steps (ledger_of w)
      (viewq (w_quotes w), (viewp (w_payments w))(j \<mapsto> ?p), outbox (w_publisher w))"
    by (cases evo) (auto simp: announces_def ledger_of_def fun_upd_idem dest: spec[of _ "[]"])
  have moved: "moves w w2"
    if "ledger_steps (ledger_of w) (viewq (w_quotes w), viewp d, E)" "goodp d" "outbox (w_publisher w2) = E"
      "viewp d = viewp (w_payments w) \<or> viewp d = (viewp (w_payments w))(j \<mapsto> ?p)"
      "w_quotes w2 = w_quotes w" "w_payments w2 = d" "w_env w2 = w_env w1" for w2 d E
    using that kept_payments[OF f(1) that(2) f(8,6) that(4-7)] f(8)
    by (simp add: moves_def ledger_of_def[of w2])
  show ?thesis
  proof (rule wp_save_payment, goal_cases)
    case (4 d)
    then have d: "goodp d" "viewp d = (viewp (w_payments w))(j \<mapsto> ?p)" using f by auto
    show ?case
    proof (cases evo)
      case None
      then show ?thesis using moved[of d "outbox (w_publisher w)"] quiet d f by simp
    next
      case (Some ev0)
      with ev have k: "known_event ev0" and st: "\<And>ms. announces ev0 ms \<Longrightarrow> ledger_steps (ledger_of w)
          (viewq (w_quotes w), viewp d, outbox (w_publisher w) @ ms)" by (simp_all add: d)
      have "announces ev0 [to_message ev0]" by (simp add: announces_def)
      then show ?thesis
        unfolding Some option.case
        by (intro wp_publish[OF k] moved[of d]) (use st d f in simp_all)
    qed
  next
    case (5 x d)
    then show ?case
      using moved[of d "outbox (w_publisher w)"] quiet f by (auto simp: ledger_of_def)
  qed (use f in simp_all)
qed

lemma ready_settled:
  assumes k: "kept w" and m: "settles m" and c: "goodp c" "viewp c = viewp (w_payments w)"
    and a: "a < length (heap c)" "viewp (w_payments w) j = Some (heap c ! a)"
  shows "wp (on_payment m a) (\<lambda>ev. ready w j a (Some ev)) (\<lambda>x w'. moves w w') (w\<lparr>w_payments := c\<rparr>)"
proof -
  have g: "goodp (w_payments w)" "goodq (w_quotes w)" using k by (simp_all add: kept_def)
  have p: "p_payment_id (heap c ! a) = j" "valid_money (p_total (heap c ! a))"
    using payments.view_ident[OF g(1) a(2)] by simp_all
  show ?thesis
  proof (rule wp_on_payment, goal_cases)
    case (4 x e)
    then have "e = w_env w" using m unfolding settles_def by (auto dest!: spec[of _ "heap c ! a"] spec[of _ "w_env w"])
    then show ?case using moves_quotes_frame[OF k g(2) _ c(1), of "w_env w"] c(2) by simp
  next
    case (5 p' y e)
    then show ?case using m by (auto elim!: settlesE)
  next
    case (6 p' ev e d)
    from m 6(1) show ?case
    proof (rule settlesE)
      assume s: "e = stamped (w_env (w\<lparr>w_payments := c\<rparr>))" "known_event ev"
        "same_payment (heap (w_payments (w\<lparr>w_payments := c\<rparr>)) ! a) p'"
        "p_payment_id p' = p_payment_id (heap (w_payments (w\<lparr>w_payments := c\<rparr>)) ! a)"
        "\<And>Q P E ms. P (p_payment_id (heap (w_payments (w\<lparr>w_payments := c\<rparr>)) ! a)) =
             Some (heap (w_payments (w\<lparr>w_payments := c\<rparr>)) ! a) \<Longrightarrow> announces ev ms \<Longrightarrow>
           ledger_steps (Q, P, E) (Q, P(p_payment_id (heap (w_payments (w\<lparr>w_payments := c\<rparr>)) ! a) \<mapsto> p'), E @ ms)"
      have st: "ledger_steps (ledger_of w)
          (viewq (w_quotes w), (viewp (w_payments w))(j \<mapsto> p'), outbox (w_publisher w) @ ms)"
        if "announces ev ms" for ms
        using s(5)[OF _ that] a(2) p(1) by (simp add: ledger_of_def)
      have h: "heap d ! a = p'" using 6(3) a by simp
      show ?thesis
        using k 6 s(1-4) st a p c h by (auto simp: ready_def Let_def same_payment_iff)
    qed
  qed (use c a p in simp_all)
qed

lemma moves_trans: "moves a b \<Longrightarrow> moves b c \<Longrightarrow> moves a c"
  by (auto simp: moves_def intro: same_world_trans)

lemma moves_ledger_ok: "moves w w' \<Longrightarrow> ledger_ok (ledger_of w) \<Longrightarrow> ledger_ok (ledger_of w')"
  by (auto simp: moves_def intro: ledger_steps_ok)

lemma moves_elsewhere: "kept w \<Longrightarrow> elsewhere w w' \<Longrightarrow> moves w w'"
  by (auto simp: moves_def kept_def ledger_of_def elsewhere_def intro: fresh_inj ids_drawn_mono)

lemma wp_payment_found:
  assumes k: "kept w"
    and found: "\<And>a c. goodp c \<Longrightarrow> viewp c = viewp (w_payments w) \<Longrightarrow> a < length (heap c) \<Longrightarrow>
      viewp (w_payments w) j = Some (heap c ! a) \<Longrightarrow>
      wp (f a) Q (\<lambda>x w'. moves w w') (w\<lparr>w_payments := c\<rparr>)"
  shows "wp (andthen (in_payments (get (payment_repo app) j)) f) Q (\<lambda>x w'. moves w w') w"
  unfolding wp_andthen
proof (rule wp_get_payment, goal_cases)
  case (3 x c)
  then show ?case
    using moves_quotes_frame[OF k, of "w_quotes w" "w_env w" c] k by (simp add: kept_def)
qed (use k found in \<open>auto simp: kept_def\<close>)

lemma settle_moves:
  assumes k: "kept w" and m: "settles m"
  shows "wp (andthen (in_payments (get (payment_repo app) j)) (\<lambda>a.
     andthen (on_payment m a) (\<lambda>ev.
     andthen (in_payments (save (payment_repo app) a)) (\<lambda>_.
     andthen (in_publisher (publish (event_pub app) ev)) (\<lambda>_. ret a))))) (\<lambda>_ w'. moves w w') (\<lambda>_ w'. moves w w') w"
proof (rule wp_payment_found[OF k], unfold wp_andthen wp_ret)
  fix a c assume c: "goodp c" "viewp c = viewp (w_payments w)" "a < length (heap c)"
    "viewp (w_payments w) j = Some (heap c ! a)"
  show "wp (on_payment m a) (\<lambda>ev. wp (in_payments (save (payment_repo app) a))
      (\<lambda>_. wp (in_publisher (publish (event_pub app) ev)) (\<lambda>_ w'. moves w w') (\<lambda>_ w'. moves w w'))
      (\<lambda>_ w'. moves w w')) (\<lambda>_ w'. moves w w') (w\<lparr>w_payments := c\<rparr>)"
    by (rule wp_mono[OF ready_settled[OF k m c]]) (auto dest: ready_tail)
qed

lemma confirm_moves:
  "kept w \<Longrightarrow> wp (ConfirmPaymentUseCase app j) (\<lambda>_ w'. moves w w') (\<lambda>_ w'. moves w w') w"
  unfolding ConfirmPaymentUseCase_def by (rule settle_moves) simp_all

lemma fail_moves:
  "kept w \<Longrightarrow> wp (FailPaymentUseCase app j reason) (\<lambda>_ w'. moves w w') (\<lambda>_ w'. moves w w') w"
  unfolding FailPaymentUseCase_def by (rule settle_moves) simp_all

lemma decide_ready:
  assumes k: "kept w" and c: "goodp c" "viewp c = viewp (w_payments w)" "a < length (heap c)"
    "viewp (w_payments w) j = Some (heap c ! a)"
  shows "wp (decide_status cmd a) (\<lambda>(evo, act) w'. ready w j a evo w') (\<lambda>_ w'. moves w w') (w\<lparr>w_payments := c\<rparr>)"
proof -
  have g: "goodp (w_payments w)" "goodq (w_quotes w)" using k by (simp_all add: kept_def)
  have same: "ready w j a None (w\<lparr>w_payments := c\<rparr>)"
    using k c payments.view_ident[OF g(1) c(4)] by (simp add: ready_def Let_def)
  have stop: "moves w (w\<lparr>w_payments := c\<rparr>)"
    using moves_quotes_frame[OF k g(2) _ c(1), of "w_env w"] c(2) by simp
  have settled: "wp (andthen (on_payment m a) (\<lambda>ev. ret (Some ev, act))) (\<lambda>(evo, act) w'. ready w j a evo w')
      (\<lambda>_ w'. moves w w') (w\<lparr>w_payments := c\<rparr>)" if "settles m" for m act
    using ready_settled[OF k that c] by (simp add: wp_andthen)
  show ?thesis
    using same stop settled by (simp add: decide_status_def wp_andthen Let_def)
qed

lemma apply_moves:
  assumes k: "kept w"
  shows "wp (ApplyPaymentStatusUseCase app cmd) (\<lambda>_ w'. moves w w') (\<lambda>_ w'. moves w w') w"
  unfolding ApplyPaymentStatusUseCase_def
proof (rule wp_payment_found[OF k])
  fix a c assume c: "goodp c" "viewp c = viewp (w_payments w)" "a < length (heap c)"
    "viewp (w_payments w) (cmd_payment_id cmd) = Some (heap c ! a)"
  show "wp (andthen (decide_status cmd a) (\<lambda>(event, action).
     andthen (in_payments (save (payment_repo app) a)) (\<lambda>_.
     andthen (case event of None \<Rightarrow> ret () | Some ev \<Rightarrow> in_publisher (publish (event_pub app) ev)) (\<lambda>_.
       ret \<lparr>res_payment = a, res_action = action, res_published = map_option event_type event\<rparr>))))
     (\<lambda>_ w'. moves w w') (\<lambda>_ w'. moves w w') (w\<lparr>w_payments := c\<rparr>)"
    unfolding wp_andthen
    by (rule wp_mono[OF decide_ready[OF k c]]) (auto simp: wp_andthen dest: ready_tail)
qed

lemma wp_after:
  assumes "moves w w1" and "wp m (\<lambda>_ w'. moves w1 w') (\<lambda>_ w'. moves w1 w') w1"
  shows "wp m (\<lambda>_ w'. moves w w') (\<lambda>_ w'. moves w w') w1"
  by (rule wp_mono[OF assms(2)]) (auto intro: moves_trans[OF assms(1)])

lemma sync_moves:
  assumes k: "kept w"
  shows "wp (SyncPaymentStatusUseCase app j) (\<lambda>_ w'. moves w w') (\<lambda>_ w'. moves w w') w"
  unfolding SyncPaymentStatusUseCase_def
proof (rule wp_payment_found[OF k], unfold wp_andthen wp_deref wp_ret)
  fix a c assume c: "goodp c" "viewp c = viewp (w_payments w)"
  have g: "goodq (w_quotes w)" using k by (simp add: kept_def)
  have swap: "w\<lparr>w_payments := c, w_env := e\<rparr> = w\<lparr>w_env := e, w_payments := c\<rparr>" for e
    by simp
  show "wp (in_env (get_payment_status (gateway app) (heap (w_payments (w\<lparr>w_payments := c\<rparr>)) ! a)))
     (\<lambda>ps. wp (ApplyPaymentStatusUseCase app \<lparr>cmd_payment_id = j, cmd_provider_status = ps_status ps,
         cmd_status_detail = status_detail ps\<rparr>) (\<lambda>_ w'. moves w w') (\<lambda>_ w'. moves w w'))
     (\<lambda>_ w'. moves w w') (w\<lparr>w_payments := c\<rparr>)"
  proof (rule wp_env, goal_cases)
    case (1 ps e)
    then have "same_world (w_env w) e" using gateway unfolding gateway_frame_def by auto
    then have m: "moves w (w\<lparr>w_payments := c, w_env := e\<rparr>)"
      using moves_quotes_frame[OF k g _ c(1), of e] c(2) unfolding swap by simp
    show ?case
      by (rule wp_after[OF m apply_moves]) (use m in \<open>simp add: moves_def\<close>)
  next
    case (2 x e)
    then have "same_world (w_env w) e" using gateway unfolding gateway_frame_def by auto
    then show ?case using moves_quotes_frame[OF k g _ c(1), of e] c(2) unfolding swap by simp
  qed
qed

lemma handle_moves:
  assumes k: "kept w"
  shows "wp (handle_event app items amt m) (\<lambda>_ w'. moves w w') (\<lambda>_ w'. moves w w') w"
proof -
  have on: "moves w w2" if "moves w w1" "elsewhere w1 w2" for w1 w2
    by (rule moves_trans[OF that(1)], rule moves_elsewhere[OF _ that(2)])
       (use that(1) in \<open>simp add: moves_def\<close>)
  have frame: "is_processed (processed_repo app) i w1 = (r, w2) \<Longrightarrow> elsewhere w1 w2"
      "mark_processed (processed_repo app) i et corr w1 = (u, w2) \<Longrightarrow> elsewhere w1 w2" for i et corr w1 w2 r u
    using processed unfolding processed_frame_def by blast+
  have known: "wp (is_processed (processed_repo app) i) Q (\<lambda>_ w'. moves w w') w1"
    if "moves w w1" "\<And>b w2. moves w w2 \<Longrightarrow> Q b w2" for i Q w1
    by (intro wpI that(2) on[OF that(1)]; erule frame)
  have marked: "wp (mark_processed (processed_repo app) i et corr) Q (\<lambda>_ w'. moves w w') w1"
    if "moves w w1" "\<And>b w2. moves w w2 \<Longrightarrow> Q b w2" for i et corr Q w1
    by (intro wpI that(2) on[OF that(1)]; erule frame)
  have created: "wp (CreateQuoteUseCase app so items amt) Q (\<lambda>_ w'. moves w w') w1"
    if "moves w w1" "\<And>b w2. moves w w2 \<Longrightarrow> Q b w2" for so Q w1
    by (rule wp_mono[OF wp_after[OF that(1) create_moves]])
       (use that in \<open>auto simp: moves_def[of w w1]\<close>)
  show ?thesis
    unfolding handle_event_def wp_andthen
    by (auto simp: wp_andthen moves_refl[OF k] split: sum.splits intro!: known created marked)
qed

end

section \<open>The collaborators of the runtime\<close>

lemma FakePaymentGateway_frame: "gateway_frame FakePaymentGateway"
  by (simp add: gateway_frame_def FakePaymentGateway_def)

lemma called_same_world [simp]: "same_world e (called c e)"
  by (simp add: called_def same_world_def)

lemma execute_same_world: "execute call e = (r, e') \<Longrightarrow> e' = called call e"
  by (auto simp: execute_def sdk_call_run Let_def split: mp_outcome.splits json.splits option.splits if_splits)

definition sdk_frame :: "sdk_port \<Rightarrow> bool" where
  "sdk_frame sdk \<longleftrightarrow>
     (\<forall>pl key e r e'. sdk_create_preference sdk pl key e = (r, e') \<longrightarrow> same_world e e') \<and>
     (\<forall>f e r e'. sdk_search_payments sdk f e = (r, e') \<longrightarrow> same_world e e')"

lemma sdk_client_frame: "sdk_frame (sdk_client seconds)"
  by (auto simp: sdk_frame_def sdk_client_def dest!: execute_same_world)

lemma checkout_adapter_frame:
  assumes "sdk_frame sdk"
  shows "gateway_frame (checkout_adapter st sdk)"
proof -
  have create: "same_world e e'"
    if "adapter_create_checkout_preference st sdk i so m e = (r, e')" for i so m e r e'
  proof -
    let ?req = "preference_request st i so m (float_repr e (amount m))"
    obtain r1 e1 where s: "sdk_create_preference sdk ?req (fresh_uuid e) (drawn e) = (r1, e1)" by fastforce
    have "same_world (drawn e) e1" using assms s unfolding sdk_frame_def by blast
    moreover have "e' = e1"
      using that s by (auto simp: adapter_create_checkout_preference_def new_idempotency_key_def
          uuid4_run andthen_def Let_def split: sum.splits if_splits)
    ultimately show ?thesis using same_world_trans[OF same_world_drawn] by blast
  qed
  have status: "same_world e e'" if "adapter_get_payment_status sdk p e = (r, e')" for p e r e'
  proof (cases "p_preference p")
    case None
    then show ?thesis using that by (simp add: adapter_get_payment_status_def)
  next
    case (Some pref)
    let ?f = "[(''external_reference'', external_reference pref), (''sort'', JStr ''date_created''),
      (''criteria'', JStr ''desc'')]"
    obtain r1 e1 where s: "sdk_search_payments sdk ?f e = (r1, e1)" by fastforce
    have "same_world e e1" using assms s unfolding sdk_frame_def by blast
    moreover have "e' = e \<or> e' = e1"
      using that s Some by (auto simp: adapter_get_payment_status_def andthen_def Let_def
          split: sum.splits if_splits json.splits list.splits)
    ultimately show ?thesis by auto
  qed
  show ?thesis
    using create status by (auto simp: gateway_frame_def checkout_adapter_def)
qed

lemma memory_processed_frame: "processed_frame InMemoryProcessedEventRepository"
  by (auto simp: processed_frame_def InMemoryProcessedEventRepository_def elsewhere_def
      in_processed_def zoom_def)

lemma sql_processed_elsewhere: "sql_is_processed i w = (r, w') \<Longrightarrow> elsewhere w w'"
  by (auto simp: elsewhere_def sql_is_processed_def in_processed_def zoom_def split: prod.splits)

lemma sql_processed_frame: "processed_frame SqlAlchemyProcessedEventRepository"
proof -
  have "elsewhere w w'" if run: "sql_mark_processed i et corr w = (r, w')" for i et corr w r w'
    using run unfolding sql_mark_processed_def
  proof (cases rule: andthen_cases)
    case (raised e)
    then show ?thesis using sql_processed_elsewhere by blast
  next
    case (returned known w1)
    then have w1: "elsewhere w w1" using sql_processed_elsewhere by blast
    from returned(2) have "elsewhere w1 w'"
      by (auto simp: elsewhere_def in_env_def in_processed_def zoom_def andthen_def now_def same_world_def
          split: if_splits prod.splits)
    with w1 show ?thesis by (auto simp: elsewhere_def intro: same_world_trans)
  qed
  then show ?thesis
    using sql_processed_elsewhere
    by (auto simp: processed_frame_def SqlAlchemyProcessedEventRepository_def)
qed

end
