(* ===== verification/Runtime.thy ===== *)
theory Runtime
  imports Billing Config
begin

text \<open>
  \<open>src/infrastructure/runtime.py\<close>: which implementation the settings choose for each
  collaborator, and the service contract of theory Billing for both modes.
\<close>

section \<open>The builders\<close>

definition build_quote_repository :: "(string \<Rightarrow> string) \<Rightarrow> settings \<Rightarrow> quote_cell repo_port" where
  "build_quote_repository flt st =
     (if APP_RUNTIME_MODE st = Real then SqlAlchemyQuoteRepository flt else InMemoryQuoteRepository)"

definition build_payment_repository :: "(string \<Rightarrow> string) \<Rightarrow> settings \<Rightarrow> payment_cell repo_port" where
  "build_payment_repository flt st =
     (if APP_RUNTIME_MODE st = Real then SqlAlchemyPaymentRepository flt else InMemoryPaymentRepository)"

definition rabbit_settings :: "settings \<Rightarrow> publisher_settings" where
  "rabbit_settings st =
     \<lparr>amqp_url = RABBITMQ_URL st, amqp_exchange = RABBITMQ_EXCHANGE st,
      amqp_routing_key = RABBITMQ_ROUTING_KEY st, amqp_queue = RABBITMQ_QUEUE st\<rparr>"

definition build_event_publisher :: "settings \<Rightarrow> publisher publisher_port" where
  "build_event_publisher st =
     (if APP_RUNTIME_MODE st = Real then RabbitMqBlockingEventPublisher (rabbit_settings st)
      else InMemoryEventPublisher)"

definition checkout_settings_of :: "settings \<Rightarrow> checkout_settings" where
  "checkout_settings_of st =
     \<lparr>access_token = MERCADO_PAGO_ACCESS_TOKEN st, success_url = MERCADO_PAGO_SUCCESS_URL st,
      failure_url = MERCADO_PAGO_FAILURE_URL st, pending_url = MERCADO_PAGO_PENDING_URL st,
      timeout_seconds = MERCADO_PAGO_REQUEST_TIMEOUT_SECONDS st\<rparr>"

definition build_payment_gateway :: "settings \<Rightarrow> py_error + gateway_port" where
  "build_payment_gateway st =
     (if PAYMENT_PROVIDER_MODE st = Some Mercado_Pago
      then MercadoPagoCheckoutAdapter (checkout_settings_of st) None
      else Inr FakePaymentGateway)"

definition build_processed_event_repository :: "settings \<Rightarrow> world processed_port" where
  "build_processed_event_repository st =
     (if APP_RUNTIME_MODE st = Real then SqlAlchemyProcessedEventRepository
      else InMemoryProcessedEventRepository)"

text \<open>The collaborators together, as \<open>create_app\<close> and the worker's \<open>main\<close> wire them.\<close>

definition build_app :: "(string \<Rightarrow> string) \<Rightarrow> settings \<Rightarrow> py_error + app" where
  "build_app flt st =
     bind_sum (build_payment_gateway st) (\<lambda>g.
       Inr \<lparr>quote_repo = build_quote_repository flt st, payment_repo = build_payment_repository flt st,
            event_pub = build_event_publisher st, gateway = g,
            processed_repo = build_processed_event_repository st\<rparr>)"

section \<open>The two modes\<close>

text \<open>The gateway of each provider mode, as \<open>build_payment_gateway\<close> returns it.\<close>

fun provider_gateway :: "checkout_settings option \<Rightarrow> gateway_port" where
  "provider_gateway None = FakePaymentGateway"
| "provider_gateway (Some cs) = checkout_adapter cs (sdk_client (timeout_seconds cs))"

lemma provider_gateway_frame: "gateway_frame (provider_gateway p)"
  by (cases p) (simp_all add: FakePaymentGateway_frame checkout_adapter_frame sdk_client_frame)

definition memory_app :: "checkout_settings option \<Rightarrow> app" where
  "memory_app p =
     \<lparr>quote_repo = InMemoryQuoteRepository, payment_repo = InMemoryPaymentRepository,
      event_pub = InMemoryEventPublisher, gateway = provider_gateway p,
      processed_repo = InMemoryProcessedEventRepository\<rparr>"

definition real_app :: "(string \<Rightarrow> string) \<Rightarrow> publisher_settings \<Rightarrow> checkout_settings option \<Rightarrow> app" where
  "real_app flt ps p =
     \<lparr>quote_repo = SqlAlchemyQuoteRepository flt, payment_repo = SqlAlchemyPaymentRepository flt,
      event_pub = RabbitMqBlockingEventPublisher ps, gateway = provider_gateway p,
      processed_repo = SqlAlchemyProcessedEventRepository\<rparr>"

lemma build_payment_gateway_cases:
  assumes "build_payment_gateway st = Inr g"
  obtains p where "g = provider_gateway p"
  using assms
proof (cases "PAYMENT_PROVIDER_MODE st = Some Mercado_Pago")
  case True
  then have "g = provider_gateway (Some (checkout_settings_of st))"
    using assms by (auto simp: build_payment_gateway_def MercadoPagoCheckoutAdapter_def MercadoPagoSdkClient_def
        split: if_splits)
  then show thesis by (rule that)
next
  case False
  then show thesis using assms that[of None] by (simp add: build_payment_gateway_def)
qed

lemma build_app_cases:
  assumes "build_app flt st = Inr a"
  obtains p where "a = (case APP_RUNTIME_MODE st of
      Memory \<Rightarrow> memory_app p | Real \<Rightarrow> real_app flt (rabbit_settings st) p)"
proof -
  obtain g where g: "build_payment_gateway st = Inr g" using assms by (auto simp: build_app_def bind_sum_def split: sum.splits)
  from g show thesis
  proof (rule build_payment_gateway_cases)
    fix p assume "g = provider_gateway p"
    then show thesis
      using assms g that[of p]
      by (cases "APP_RUNTIME_MODE st")
         (auto simp: build_app_def memory_app_def real_app_def build_quote_repository_def
           build_payment_repository_def build_event_publisher_def build_processed_event_repository_def)
  qed
qed

interpretation memory_service: billing_service
  "memory_app p"
  "\<lambda>i. ''Quote'' @ '' not found: '' @ i" "\<lambda>so. ''Quote'' @ '' not found for service order: '' @ so"
  "mem_good q_quote_id (\<lambda>q. valid_money (q_total q))" mem_view mem_linked
  "\<lambda>i. ''Payment'' @ '' not found: '' @ i" "\<lambda>so. ''Payment'' @ '' not found for service order: '' @ so"
  "mem_good p_payment_id (\<lambda>p. valid_money (p_total p))" mem_view mem_linked
  messages for p
  unfolding memory_app_def
  by (intro billing_service.intro billing_service_axioms.intro; unfold app.select_convs)
     (rule memory_quotes.repository_axioms memory_payments.repository_axioms
        memory_publisher.event_publisher_axioms provider_gateway_frame memory_processed_frame)+

interpretation real_service: billing_service
  "real_app flt ps p"
  "\<lambda>i. ''Quote not found: '' @ i" "\<lambda>so. ''Quote not found for service order: '' @ so"
  "sql_good qr_quote_id quote_to_row (quote_from_row flt) (\<lambda>q. valid_money (q_total q))"
  "sql_view qr_quote_id (quote_from_row flt)" "\<lambda>_ _. False"
  "\<lambda>i. ''Payment not found: '' @ i" "\<lambda>so. ''Payment not found for service order: '' @ so"
  "sql_good pr_payment_id payment_to_row (payment_from_row flt) (\<lambda>p. valid_money (p_total p))"
  "sql_view pr_payment_id (payment_from_row flt)" "\<lambda>_ _. False"
  messages for flt ps p
  unfolding real_app_def
  by (intro billing_service.intro billing_service_axioms.intro; unfold app.select_convs)
     (rule table_quotes.repository_axioms table_payments.repository_axioms
        rabbit_publisher.event_publisher_axioms provider_gateway_frame sql_processed_frame)+

end
