(* ===== verification/Auth.thy ===== *)
theory Auth
  imports Config
begin

text \<open>
  \<open>src/presentation/dependencies/auth.py\<close> and \<open>src/domain/auth.py\<close>: who a request comes
  from. The JWT library (package jose) is not under \<open>src\<close>: \<open>jwt.decode\<close> is the parameter
  \<open>jwt\<close>, from token, key, algorithms and issuer to its outcome.
\<close>

datatype jwt_outcome =
    Jwt_Claims "(string \<times> json) list"
  | Jwt_Error
  | Jwt_Raises py_error

type_synonym jwt_decode = "string \<Rightarrow> string \<Rightarrow> string list \<Rightarrow> string \<Rightarrow> jwt_outcome"

record principal =
  subject :: string
  role :: string
  customer_id :: "string option"
  issuer :: json
  claims :: "(string \<times> json) list"

definition is_admin :: "principal \<Rightarrow> bool" where
  "is_admin p \<longleftrightarrow> role p = ''admin''"

record credentials =
  cred_scheme :: string
  cred_token :: string

definition verify_customer_token :: "jwt_decode \<Rightarrow> settings \<Rightarrow> string \<Rightarrow> py_error + principal option" where
  "verify_customer_token jwt st token =
     (if CUSTOMER_JWT_SECRET st = [] then Inr None
      else case jwt token (CUSTOMER_JWT_SECRET st) [CUSTOMER_JWT_ALGORITHM st] (CUSTOMER_JWT_ISSUER st) of
             Jwt_Error \<Rightarrow> Inr None
           | Jwt_Raises x \<Rightarrow> Inl x
           | Jwt_Claims pl \<Rightarrow>
               if get_default pl ''role'' JNull \<noteq> JStr ''customer'' then Inr None
               else let sub = get_default pl ''sub'' JNull; cid = get_default pl ''customer_id'' JNull in
                    if \<not> truthy sub \<or> \<not> truthy cid then Inr None
                    else Inr (Some \<lparr>subject = str_json sub, role = ''customer'',
                                    customer_id = Some (str_json cid),
                                    issuer = get_default pl ''iss'' JNull, claims = pl\<rparr>))"

definition verify_admin_token :: "jwt_decode \<Rightarrow> settings \<Rightarrow> string \<Rightarrow> py_error + principal option" where
  "verify_admin_token jwt st token =
     (case jwt token (JWT_SECRET st) [JWT_ALGORITHM st] (JWT_ISSUER st) of
        Jwt_Error \<Rightarrow> Inr None
      | Jwt_Raises x \<Rightarrow> Inl x
      | Jwt_Claims pl \<Rightarrow>
          if get_default pl ''role'' JNull \<noteq> JStr ''admin'' then Inr None
          else let sub = or_else (get_default pl ''user_id'' JNull) (get_default pl ''sub'' JNull) in
               if \<not> truthy sub then Inr None
               else Inr (Some \<lparr>subject = str_json sub, role = ''admin'', customer_id = None,
                               issuer = get_default pl ''iss'' JNull, claims = pl\<rparr>))"

definition get_current_principal ::
    "jwt_decode \<Rightarrow> settings \<Rightarrow> credentials option \<Rightarrow> py_error + principal" where
  "get_current_principal jwt st creds =
     (let missing = HTTPException 401 ''Authentication token is required'' in
      case creds of
        None \<Rightarrow> Inl missing
      | Some c \<Rightarrow>
          if casefold (cred_scheme c) \<noteq> ''bearer'' then Inl missing
          else bind_sum (verify_customer_token jwt st (cred_token c)) (\<lambda>customer.
            case customer of
              Some p \<Rightarrow> Inr p
            | None \<Rightarrow> bind_sum (verify_admin_token jwt st (cred_token c)) (\<lambda>admin.
                case admin of
                  Some p \<Rightarrow> Inr p
                | None \<Rightarrow> Inl (HTTPException 403 ''Invalid or expired token''))))"

definition require_admin_principal ::
    "jwt_decode \<Rightarrow> settings \<Rightarrow> credentials option \<Rightarrow> py_error + principal" where
  "require_admin_principal jwt st creds =
     bind_sum (get_current_principal jwt st creds) (\<lambda>p.
       if is_admin p then Inr p else Inl (HTTPException 403 ''Admin access required''))"

text \<open>\<open>auth_routes.py\<close>: the response of \<open>/auth/validate\<close>.\<close>

definition optional_text :: "string option \<Rightarrow> json" where
  "optional_text x = (case x of None \<Rightarrow> JNull | Some s \<Rightarrow> JStr s)"

definition validate_token :: "principal \<Rightarrow> json" where
  "validate_token p =
     JObj [(''subject'', JStr (subject p)), (''role'', JStr (role p)),
           (''customer_id'', optional_text (customer_id p)), (''issuer'', issuer p)]"

section \<open>Who gets in\<close>

lemma verify_customer_role: "verify_customer_token jwt st token = Inr (Some p) \<Longrightarrow> \<not> is_admin p"
  by (auto simp: verify_customer_token_def Let_def is_admin_def split: if_splits jwt_outcome.splits)

lemma role_claim: "get_default pl ''role'' JNull = JStr r \<longleftrightarrow> map_of pl ''role'' = Some (JStr r)"
  by (auto simp: get_default_def split: option.splits)

lemma verify_admin_iff:
  "verify_admin_token jwt st token = Inr (Some p) \<longleftrightarrow>
     (\<exists>pl. jwt token (JWT_SECRET st) [JWT_ALGORITHM st] (JWT_ISSUER st) = Jwt_Claims pl \<and>
       map_of pl ''role'' = Some (JStr ''admin'') \<and>
       truthy (or_else (get_default pl ''user_id'' JNull) (get_default pl ''sub'' JNull)) \<and>
       p = \<lparr>subject = str_json (or_else (get_default pl ''user_id'' JNull) (get_default pl ''sub'' JNull)),
             role = ''admin'', customer_id = None, issuer = get_default pl ''iss'' JNull, claims = pl\<rparr>)"
  by (auto simp: verify_admin_token_def Let_def role_claim split: if_splits jwt_outcome.splits)

lemma verify_adminE:
  assumes "verify_admin_token jwt st token = Inr (Some p)"
  obtains pl where "jwt token (JWT_SECRET st) [JWT_ALGORITHM st] (JWT_ISSUER st) = Jwt_Claims pl"
    "map_of pl ''role'' = Some (JStr ''admin'')"
  using assms by (auto simp: verify_admin_iff)

lemma verify_raises:
  "verify_customer_token jwt st token = Inl x \<Longrightarrow> \<exists>k al i. jwt token k al i = Jwt_Raises x"
  "verify_admin_token jwt st token = Inl x \<Longrightarrow> \<exists>k al i. jwt token k al i = Jwt_Raises x"
  by (auto simp: verify_customer_token_def verify_admin_token_def Let_def split: if_splits jwt_outcome.splits)

text \<open>A principal that the billing routes admit, step by step through the dependencies.\<close>

lemma require_admin_iff:
  "require_admin_principal jwt st creds = Inr p \<longleftrightarrow>
     (\<exists>c. creds = Some c \<and> casefold (cred_scheme c) = ''bearer'' \<and>
       verify_customer_token jwt st (cred_token c) = Inr None \<and>
       verify_admin_token jwt st (cred_token c) = Inr (Some p))"
proof -
  have "is_admin q" if "verify_admin_token jwt st t = Inr (Some q)" for t q
    using that by (auto simp: verify_admin_iff is_admin_def)
  then show ?thesis
    by (auto simp: require_admin_principal_def get_current_principal_def Let_def bind_sum_def
        split: if_splits sum.splits option.splits dest: verify_customer_role)
qed

text \<open>
  Property C17. Exactly the administrators' tokens open the billing routes. A request without a
  bearer token is refused with 401. With one, the dependency admits the request exactly when the
  token does not verify as a customer's, verifies under the administrator's secret, algorithm and
  issuer, carries the role claim admin, and names a subject in \<open>user_id\<close> or, where that is
  missing or empty, in \<open>sub\<close>; the principal is then the one those claims describe. Every other
  bearer token is refused with 403, or with what the JWT library itself raised for it.
\<close>

theorem only_admin_tokens_are_admitted:
  "case creds of
     None \<Rightarrow> require_admin_principal jwt st creds = Inl (HTTPException 401 ''Authentication token is required'')
   | Some c \<Rightarrow>
       if casefold (cred_scheme c) \<noteq> ''bearer''
       then require_admin_principal jwt st creds = Inl (HTTPException 401 ''Authentication token is required'')
       else (require_admin_principal jwt st creds = Inr p \<longleftrightarrow>
              verify_customer_token jwt st (cred_token c) = Inr None \<and>
              (\<exists>pl. jwt (cred_token c) (JWT_SECRET st) [JWT_ALGORITHM st] (JWT_ISSUER st) = Jwt_Claims pl \<and>
                map_of pl ''role'' = Some (JStr ''admin'') \<and>
                truthy (or_else (get_default pl ''user_id'' JNull) (get_default pl ''sub'' JNull)) \<and>
                p = \<lparr>subject = str_json (or_else (get_default pl ''user_id'' JNull) (get_default pl ''sub'' JNull)),
                      role = ''admin'', customer_id = None, issuer = get_default pl ''iss'' JNull, claims = pl\<rparr>)) \<and>
            (case require_admin_principal jwt st creds of
               Inr q \<Rightarrow> is_admin q
             | Inl x \<Rightarrow>
                 x = HTTPException 403 ''Invalid or expired token'' \<or>
                 x = HTTPException 403 ''Admin access required'' \<or>
                 (\<exists>k al i. jwt (cred_token c) k al i = Jwt_Raises x))"
proof (cases creds)
  case None
  then show ?thesis by (simp add: require_admin_principal_def get_current_principal_def)
next
  case (Some c)
  show ?thesis
  proof (cases "casefold (cred_scheme c) = ''bearer''")
    case False
    then show ?thesis using Some by (simp add: require_admin_principal_def get_current_principal_def)
  next
    case True
    have "case require_admin_principal jwt st creds of
        Inr q \<Rightarrow> is_admin q
      | Inl x \<Rightarrow> x = HTTPException 403 ''Invalid or expired token'' \<or>
          x = HTTPException 403 ''Admin access required'' \<or> (\<exists>k al i. jwt (cred_token c) k al i = Jwt_Raises x)"
      using Some True verify_raises[of jwt st "cred_token c"]
      by (auto simp: require_admin_principal_def get_current_principal_def Let_def bind_sum_def
          split: if_splits sum.splits option.splits)
    then show ?thesis using Some True by (simp add: require_admin_iff verify_admin_iff)
  qed
qed

end
