(* ===== verification/Routes.thy ===== *)
theory Routes
  imports Runtime Auth
begin

text \<open>
  \<open>src/presentation/api/routes\<close>: the HTTP operations. A handler runs the use case of the
  request and turns its exceptions into HTTP errors. FastAPI, which parses the request,
  resolves the dependencies before the handler and writes the response, is not under \<open>src\<close>:
  the model starts from the parsed request. \<open>respond\<close> is what becomes of the outcome: a
  response, an \<open>HTTPException\<close>, or, for any other exception, status 500.
\<close>

section \<open>Response bodies\<close>

definition quote_to_response :: "quote \<Rightarrow> (string \<times> json) list" where
  "quote_to_response q =
     [(''quote_id'', JStr (q_quote_id q)),
      (''service_order_id'', JStr (q_service_order_id q)),
      (''items'', JArr (map JStr (q_items q))),
      (''amount'', JStr (decimal_str (amount (q_total q)))),
      (''currency'', JStr (currency (q_total q))),
      (''status'', JStr (quote_status_value (q_status q)))]"

definition payment_to_response :: "payment \<Rightarrow> (string \<times> json) list" where
  "payment_to_response p =
     [(''payment_id'', JStr (p_payment_id p)),
      (''quote_id'', JStr (p_quote_id p)),
      (''service_order_id'', JStr (p_service_order_id p)),
      (''amount'', JStr (decimal_str (amount (p_total p)))),
      (''currency'', JStr (currency (p_total p))),
      (''status'', JStr (payment_status_value (p_status p))),
      (''preference'', preference_to_json (p_preference p))]"

definition read_quote :: "nat \<Rightarrow> (world, json) exec" where
  "read_quote a = andthen (in_quotes (deref a)) (\<lambda>q. ret (JObj (quote_to_response q)))"

definition read_payment :: "nat \<Rightarrow> (world, json) exec" where
  "read_payment a = andthen (in_payments (deref a)) (\<lambda>p. ret (JObj (payment_to_response p)))"

definition count_transition :: "string \<Rightarrow> (world, unit) exec" where
  "count_transition result =
     writes (\<lambda>w. w\<lparr>w_transitions := AList.update result
       (Suc (case map_of (w_transitions w) result of None \<Rightarrow> 0 | Some n \<Rightarrow> n)) (w_transitions w)\<rparr>)"

section \<open>Exceptions to HTTP errors\<close>

text \<open>The \<open>except\<close> clauses the handlers share: \<open>str(exc)\<close> is the detail.\<close>

definition not_found :: "py_error \<Rightarrow> py_error option" where
  "not_found x = (if is_key_error x then Some (HTTPException 404 (str_error x)) else None)"

definition bad_request :: "py_error \<Rightarrow> py_error option" where
  "bad_request x = (if is_value_error x then Some (HTTPException 400 (str_error x)) else None)"

definition bad_gateway :: "py_error \<Rightarrow> py_error option" where
  "bad_gateway x = (if is_gateway_error x then Some (HTTPException 502 (str_error x)) else None)"

text \<open>\<open>exc.status_code or 502\<close>.\<close>

fun provider_failure :: "py_error \<Rightarrow> py_error option" where
  "provider_failure (PaymentGatewayError m code d) =
     Some (HTTPException (case code of Some c \<Rightarrow> if c = 0 then 502 else c | None \<Rightarrow> 502) m)"
| "provider_failure _ = None"

fun clauses :: "(py_error \<Rightarrow> py_error option) list \<Rightarrow> py_error \<Rightarrow> py_error option" where
  "clauses [] x = None"
| "clauses (c # cs) x = (case c x of Some y \<Rightarrow> Some y | None \<Rightarrow> clauses cs x)"

definition catching :: "(py_error \<Rightarrow> py_error option) list \<Rightarrow> (world, 'a) exec \<Rightarrow> (world, 'a) exec" where
  "catching cs m = try_except m (\<lambda>x. map_option raise (clauses cs x))"

section \<open>Billing routes (billing\_routes.py)\<close>

definition create_quote :: "app \<Rightarrow> string \<Rightarrow> string list \<Rightarrow> decimal \<Rightarrow> (world, json) exec" where
  "create_quote app so items amt =
     andthen (catching [bad_request] (CreateQuoteUseCase app so items amt)) read_quote"

definition get_quote :: "app \<Rightarrow> string \<Rightarrow> (world, json) exec" where
  "get_quote app i = andthen (catching [not_found] (in_quotes (get (quote_repo app) i))) read_quote"

definition get_quote_by_service_order :: "app \<Rightarrow> string \<Rightarrow> (world, json) exec" where
  "get_quote_by_service_order app so =
     andthen (catching [not_found] (in_quotes (get_by_service_order_id (quote_repo app) so))) read_quote"

definition approve_quote :: "app \<Rightarrow> string \<Rightarrow> (world, json) exec" where
  "approve_quote app i =
     andthen (catching [not_found, bad_gateway, bad_request] (ApproveQuoteUseCase app i)) read_payment"

definition get_payment :: "app \<Rightarrow> string \<Rightarrow> (world, json) exec" where
  "get_payment app j = andthen (catching [not_found] (in_payments (get (payment_repo app) j))) read_payment"

definition get_payment_by_service_order :: "app \<Rightarrow> string \<Rightarrow> (world, json) exec" where
  "get_payment_by_service_order app so =
     andthen (catching [not_found] (in_payments (get_by_service_order_id (payment_repo app) so))) read_payment"

definition confirm_payment :: "app \<Rightarrow> string \<Rightarrow> (world, json) exec" where
  "confirm_payment app j =
     andthen (catching [not_found, bad_request] (ConfirmPaymentUseCase app j)) (\<lambda>a.
     andthen (count_transition ''confirmed'') (\<lambda>_. read_payment a))"

definition fail_payment :: "app \<Rightarrow> string \<Rightarrow> string \<Rightarrow> (world, json) exec" where
  "fail_payment app j reason =
     andthen (catching [not_found, bad_request] (FailPaymentUseCase app j reason)) (\<lambda>a.
     andthen (count_transition ''failed'') (\<lambda>_. read_payment a))"

definition count_action :: "status_action \<Rightarrow> (world, unit) exec" where
  "count_action act =
     (case act of
        Act_Confirmed \<Rightarrow> count_transition ''confirmed''
      | Act_Failed \<Rightarrow> count_transition ''failed''
      | _ \<Rightarrow> ret ())"

definition sync_payment_status :: "app \<Rightarrow> string \<Rightarrow> (world, json) exec" where
  "sync_payment_status app j =
     andthen (catching [not_found, provider_failure, bad_request] (SyncPaymentStatusUseCase app j)) (\<lambda>r.
     andthen (count_action (sync_action r)) (\<lambda>_.
     andthen (in_payments (deref (sync_payment r))) (\<lambda>p.
       ret (JObj (dict_update (payment_to_response p)
         [(''provider_payment_id'', JStr (sync_provider_payment_id r)),
          (''provider_status'', JStr (sync_provider_status r)),
          (''provider_status_detail'', optional_text (sync_status_detail r)),
          (''action'', JStr (action_value (sync_action r))),
          (''published_event_type'', optional_text (sync_published r))])))))"

definition apply_payment_status :: "app \<Rightarrow> apply_command \<Rightarrow> (world, status_action \<times> json) exec" where
  "apply_payment_status app cmd =
     andthen (ApplyPaymentStatusUseCase app cmd) (\<lambda>r.
     andthen (in_payments (deref (res_payment r))) (\<lambda>p.
       ret (res_action r, JObj (dict_update (payment_to_response p)
         [(''action'', JStr (action_value (res_action r))),
          (''published_event_type'', optional_text (res_published r))]))))"

definition simulate_payment_update ::
    "app \<Rightarrow> settings \<Rightarrow> string \<Rightarrow> string \<Rightarrow> string option \<Rightarrow> (world, json) exec" where
  "simulate_payment_update app st j pstatus detail =
     (if \<not> ENABLE_INTERNAL_TEST_ENDPOINTS st
      then raise (HTTPException 404 ''Internal test endpoints are disabled.'')
      else andthen (catching [not_found, bad_request] (apply_payment_status app
             \<lparr>cmd_payment_id = j, cmd_provider_status = pstatus, cmd_status_detail = detail\<rparr>)) (\<lambda>(act, body).
           andthen (count_action act) (\<lambda>_. ret body)))"

section \<open>Event routes (event\_routes.py)\<close>

definition list_published_events :: "app \<Rightarrow> (world, json) exec" where
  "list_published_events app =
     andthen (in_publisher (published_messages (event_pub app))) (\<lambda>ms.
       ret (JObj [(''events'', JArr (map JObj ms))]))"

definition drain_published_events :: "app \<Rightarrow> (world, json) exec" where
  "drain_published_events app =
     andthen (in_publisher (drain (event_pub app))) (\<lambda>ms.
       ret (JObj [(''events'', JArr (map JObj ms))]))"

section \<open>The routing table\<close>

datatype request =
    Post_Quote string "string list" decimal
  | Get_Quote string
  | Get_Quote_By_Service_Order string
  | Post_Approve string
  | Get_Payment string
  | Get_Payment_By_Service_Order string
  | Post_Confirm string
  | Post_Fail string string
  | Post_Sync string
  | Post_Simulate string string "string option"
  | Get_Events
  | Post_Drain

record server =
  srv_app :: app
  srv_settings :: settings
  srv_jwt :: jwt_decode

fun handler :: "server \<Rightarrow> request \<Rightarrow> (world, json) exec" where
  "handler s (Post_Quote so items amt) = create_quote (srv_app s) so items amt"
| "handler s (Get_Quote i) = get_quote (srv_app s) i"
| "handler s (Get_Quote_By_Service_Order so) = get_quote_by_service_order (srv_app s) so"
| "handler s (Post_Approve i) = approve_quote (srv_app s) i"
| "handler s (Get_Payment j) = get_payment (srv_app s) j"
| "handler s (Get_Payment_By_Service_Order so) = get_payment_by_service_order (srv_app s) so"
| "handler s (Post_Confirm j) = confirm_payment (srv_app s) j"
| "handler s (Post_Fail j reason) = fail_payment (srv_app s) j reason"
| "handler s (Post_Sync j) = sync_payment_status (srv_app s) j"
| "handler s (Post_Simulate j pstatus detail) =
     simulate_payment_update (srv_app s) (srv_settings s) j pstatus detail"
| "handler s Get_Events = list_published_events (srv_app s)"
| "handler s Post_Drain = drain_published_events (srv_app s)"

text \<open>Every route of the two routers depends on \<open>require_admin_principal\<close>.\<close>

definition serve :: "server \<Rightarrow> credentials option \<Rightarrow> request \<Rightarrow> (world, json) exec" where
  "serve s creds req =
     andthen (from_result (require_admin_principal (srv_jwt s) (srv_settings s) creds)) (\<lambda>_. handler s req)"

definition success_status :: "request \<Rightarrow> int" where
  "success_status req = (case req of Post_Quote _ _ _ \<Rightarrow> 201 | _ \<Rightarrow> 200)"

fun respond :: "request \<Rightarrow> py_error + json \<Rightarrow> int \<times> json" where
  "respond req (Inr body) = (success_status req, body)"
| "respond req (Inl (HTTPException code detail)) = (code, JObj [(''detail'', JStr detail)])"
| "respond req (Inl _) = (500, JStr ''Internal Server Error'')"

end
