(* ===== verification/System.thy ===== *)
theory System
  imports Routes
begin

text \<open>
  The running service: HTTP requests and broker deliveries, in any order, over one state. In
  \<open>safe\<close> executions the ledger only makes its steps; every handler is safe, so the invariant
  of the ledger holds in every state the service can reach, whatever its collaborators do.
\<close>

section \<open>Inputs\<close>

datatype input =
    Request "credentials option" request
  | Delivery nat string

definition worker_handler :: "server \<Rightarrow> message \<Rightarrow> (world, string) exec" where
  "worker_handler s =
     handle_event (srv_app s) (DEFAULT_QUOTE_ITEMS (srv_settings s)) (DEFAULT_QUOTE_AMOUNT (srv_settings s))"

definition deliver :: "server \<Rightarrow> (string \<Rightarrow> string) \<Rightarrow> nat \<Rightarrow> string \<Rightarrow> (world, unit) exec" where
  "deliver s flt = handle_delivery in_channel flt (worker_handler s)"

fun process :: "server \<Rightarrow> (string \<Rightarrow> string) \<Rightarrow> input \<Rightarrow> world \<Rightarrow> world" where
  "process s flt (Request creds req) w = snd (serve s creds req w)"
| "process s flt (Delivery tag body) w = snd (deliver s flt tag body w)"

inductive reachable :: "server \<Rightarrow> (string \<Rightarrow> string) \<Rightarrow> world \<Rightarrow> world \<Rightarrow> bool"
  for s flt w0 where
  start: "reachable s flt w0 w0"
| process: "reachable s flt w0 w \<Longrightarrow> reachable s flt w0 (process s flt i w)"

section \<open>Safe executions\<close>

context billing_service
begin

definition safe :: "world \<Rightarrow> (world, 'a) exec \<Rightarrow> bool" where
  "safe w m \<longleftrightarrow> (\<forall>w1. moves w w1 \<longrightarrow> wp m (\<lambda>_. moves w) (\<lambda>_. moves w) w1)"

lemma safeI: "(\<And>w1. moves w w1 \<Longrightarrow> wp m (\<lambda>_. moves w) (\<lambda>_. moves w) w1) \<Longrightarrow> safe w m"
  by (simp add: safe_def)

lemma safeD: "safe w m \<Longrightarrow> moves w w1 \<Longrightarrow> wp m (\<lambda>_. moves w) (\<lambda>_. moves w) w1"
  by (simp add: safe_def)

lemma safe_andthen: "safe w m \<Longrightarrow> (\<And>x. safe w (f x)) \<Longrightarrow> safe w (andthen m f)"
  by (rule safeI, unfold wp_andthen, rule wp_mono, erule (1) safeD) (auto dest: safeD)

lemma safe_pure [simp]:
  "safe w (ret x)" "safe w (raise e)" "safe w (from_result r)" "safe w (reads g)"
  by (auto intro!: safeI split: sum.splits)

lemma safe_try_except:
  assumes "safe w m" and "\<And>e k. h e = Some k \<Longrightarrow> safe w k"
  shows "safe w (try_except m h)"
proof (rule safeI)
  fix w1 assume "moves w w1"
  then have m: "wp m (\<lambda>_. moves w) (\<lambda>_. moves w) w1" by (rule safeD[OF assms(1)])
  obtain r w2 where run: "m w1 = (r, w2)" by fastforce
  then have w2: "moves w w2" using m by (cases r) (simp_all add: wp_def)
  show "wp (try_except m h) (\<lambda>_. moves w) (\<lambda>_. moves w) w1"
  proof (cases r)
    case (Inr x)
    then show ?thesis using run w2 by (simp add: wp_def)
  next
    case (Inl e)
    show ?thesis
    proof (cases "h e")
      case None
      then show ?thesis using run w2 Inl by (simp add: wp_def)
    next
      case (Some k)
      then have "wp k (\<lambda>_. moves w) (\<lambda>_. moves w) w2" using assms(2) w2 by (blast intro: safeD)
      then show ?thesis using run Inl Some by (simp add: wp_def)
    qed
  qed
qed

lemma safe_catching: "safe w m \<Longrightarrow> safe w (catching cs m)"
  unfolding catching_def by (rule safe_try_except) auto

lemma moves_same:
  "moves w w1 \<Longrightarrow> w_env w2 = w_env w1 \<Longrightarrow> w_quotes w2 = w_quotes w1 \<Longrightarrow>
     w_payments w2 = w_payments w1 \<Longrightarrow> w_publisher w2 = w_publisher w1 \<Longrightarrow> moves w w2"
  by (simp add: moves_def kept_def ledger_of_def)

lemma safe_count: "safe w (count_transition result)" "safe w (count_action act)"
proof -
  show c: "safe w (count_transition result)" for result
    by (rule safeI) (auto simp: count_transition_def intro: moves_same)
  show "safe w (count_action act)"
    by (cases act) (simp_all add: count_action_def c)
qed

lemma safe_channel: "safe w (in_channel m)"
  by (rule safeI) (auto simp: wp_def in_channel_def zoom_def split: prod.splits sum.splits intro: moves_same)

lemma safe_read: "safe w (read_quote a)" "safe w (read_payment a)" "safe w (in_payments (deref a))"
  by (auto intro!: safeI simp: read_quote_def read_payment_def wp_andthen)

lemma safe_from_kept:
  assumes "\<And>w1. kept w1 \<Longrightarrow> wp m (\<lambda>_ w'. moves w1 w') (\<lambda>_ w'. moves w1 w') w1"
  shows "safe w m"
  by (rule safeI, rule wp_after, assumption, rule assms) (simp add: moves_def)

lemma safe_lookups:
  "safe w (in_quotes (get (quote_repo app) i))" "safe w (in_payments (get (payment_repo app) i))"
  "safe w (in_quotes (get_by_service_order_id (quote_repo app) so))"
  "safe w (in_payments (get_by_service_order_id (payment_repo app) so))"
proof -
  have q: "moves w1 (w1\<lparr>w_quotes := c\<rparr>)" if "kept w1" "goodq c" "viewq c = viewq (w_quotes w1)" for w1 c
    using that moves_quotes_frame[OF that(1,2), of "w_env w1" "w_payments w1"] by (simp add: kept_def)
  have p: "moves w1 (w1\<lparr>w_payments := c\<rparr>)" if "kept w1" "goodp c" "viewp c = viewp (w_payments w1)" for w1 c
    using that moves_quotes_frame[OF that(1) _ _ that(2), of "w_quotes w1" "w_env w1"] by (simp add: kept_def)
  show "safe w (in_quotes (get (quote_repo app) i))"
    by (rule safe_from_kept, rule wp_get_quote) (auto simp: kept_def intro: q)
  show "safe w (in_payments (get (payment_repo app) i))"
    by (rule safe_from_kept, rule wp_get_payment) (auto simp: kept_def intro: p)
  show "safe w (in_quotes (get_by_service_order_id (quote_repo app) so))"
  proof (rule safe_from_kept, unfold in_quotes_def wp_zoom, rule wpI)
    fix w1 r c assume k: "kept w1" and g: "get_by_service_order_id (quote_repo app) so (w_quotes w1) = (Inr r, c)"
    from quotes.get_by_law[OF _ g] k show "moves w1 (w1\<lparr>w_quotes := c\<rparr>)" by (intro q) (auto simp: kept_def)
  next
    fix w1 r c assume k: "kept w1" and g: "get_by_service_order_id (quote_repo app) so (w_quotes w1) = (Inl r, c)"
    from quotes.get_by_law[OF _ g] k show "moves w1 (w1\<lparr>w_quotes := c\<rparr>)" by (intro q) (auto simp: kept_def)
  qed
  show "safe w (in_payments (get_by_service_order_id (payment_repo app) so))"
  proof (rule safe_from_kept, unfold in_payments_def wp_zoom, rule wpI)
    fix w1 r c assume k: "kept w1" and g: "get_by_service_order_id (payment_repo app) so (w_payments w1) = (Inr r, c)"
    from payments.get_by_law[OF _ g] k show "moves w1 (w1\<lparr>w_payments := c\<rparr>)" by (intro p) (auto simp: kept_def)
  next
    fix w1 r c assume k: "kept w1" and g: "get_by_service_order_id (payment_repo app) so (w_payments w1) = (Inl r, c)"
    from payments.get_by_law[OF _ g] k show "moves w1 (w1\<lparr>w_payments := c\<rparr>)" by (intro p) (auto simp: kept_def)
  qed
qed

lemma safe_publisher:
  "safe w (in_publisher (published_messages (event_pub app)))" "safe w (in_publisher (drain (event_pub app)))"
proof -
  show "safe w (in_publisher (published_messages (event_pub app)))"
    by (rule safeI) (auto simp: wp_def in_publisher_def zoom_def pub.list_law intro: moves_same)
  show "safe w (in_publisher (drain (event_pub app)))"
  proof (rule safe_from_kept, unfold in_publisher_def wp_zoom)
    fix w1 assume k: "kept w1"
    obtain r p where d: "drain (event_pub app) (w_publisher w1) = (r, p)" by fastforce
    from pub.drain_law[OF d] have e: "outbox p = []" by simp
    have "moves w1 (w1\<lparr>w_publisher := p\<rparr>)"
      using k e by (auto simp: moves_def kept_def ledger_of_def intro: ledger_step.drains)
    then show "wp (drain (event_pub app)) (\<lambda>_ s. moves w1 (w1\<lparr>w_publisher := s\<rparr>))
        (\<lambda>_ s. moves w1 (w1\<lparr>w_publisher := s\<rparr>)) (w_publisher w1)"
      using d by (auto simp: wp_def split: sum.splits)
  qed
qed

lemma safe_use_cases:
  assumes "ledger_ok (ledger_of w)"
  shows "safe w (CreateQuoteUseCase app so items amt)" "safe w (ApproveQuoteUseCase app i)"
    "safe w (ConfirmPaymentUseCase app j)" "safe w (FailPaymentUseCase app j reason)"
    "safe w (ApplyPaymentStatusUseCase app cmd)" "safe w (SyncPaymentStatusUseCase app j)"
    "safe w (handle_event app items amt m)"
proof -
  show "safe w (ApproveQuoteUseCase app i)"
  proof (rule safeI, rule wp_after, assumption, rule approve_moves)
    fix w1 assume "moves w w1"
    then show "kept w1" "ledger_ok (ledger_of w1)"
      using moves_ledger_ok assms by (auto simp: moves_def)
  qed
qed (auto intro: safe_from_kept create_moves confirm_moves fail_moves apply_moves sync_moves handle_moves)

lemmas safe_intros =
  safe_andthen safe_catching safe_count safe_channel safe_read safe_lookups safe_publisher safe_use_cases

lemma safe_handler:
  assumes "ledger_ok (ledger_of w)" and "srv_app s = app"
  shows "safe w (handler s req)"
  using assms(1)
  by (cases req)
     (auto simp: assms(2) create_quote_def get_quote_def get_quote_by_service_order_def approve_quote_def
        get_payment_def get_payment_by_service_order_def confirm_payment_def fail_payment_def
        sync_payment_status_def simulate_payment_update_def apply_payment_status_def
        list_published_events_def drain_published_events_def
        intro!: safe_intros split: prod.splits)

lemma safe_serve: "ledger_ok (ledger_of w) \<Longrightarrow> srv_app s = app \<Longrightarrow> safe w (serve s creds req)"
  unfolding serve_def by (intro safe_andthen safe_handler safe_pure)

lemma safe_deliver:
  assumes "ledger_ok (ledger_of w)" and "srv_app s = app"
  shows "safe w (deliver s flt tag body)"
  unfolding deliver_def handle_delivery_def worker_handler_def assms(2)
  by (rule safe_try_except) (auto intro!: safe_intros assms(1) split: if_splits)

lemma process_moves:
  assumes "kept w" and "ledger_ok (ledger_of w)" and "srv_app s = app"
  shows "moves w (process s flt i w)"
proof -
  have run: "moves w (snd (m w))" if "safe w m" for m :: "(world, 'z) exec"
    using safeD[OF that moves_refl[OF assms(1)]]
    by (cases "m w"; cases "fst (m w)") (auto simp: wp_def)
  show ?thesis
    using assms by (cases i) (auto intro!: run safe_serve safe_deliver)
qed

lemma reachable_moves:
  assumes "reachable s flt w0 w" and "kept w0" and "ledger_ok (ledger_of w0)" and "srv_app s = app"
  shows "moves w0 w"
  using assms(1)
proof induction
  case start
  show ?case by (rule moves_refl[OF assms(2)])
next
  case (process w i)
  then have "kept w" "ledger_ok (ledger_of w)"
    using assms(3) moves_ledger_ok[of w0 w] by (simp_all add: moves_def[of w0 w])
  from moves_trans[OF process.IH process_moves[OF this assms(4)]] show ?case .
qed

end

section \<open>What every reachable state satisfies\<close>

text \<open>
  The stored quotes and payments and the reported messages, read off the state in the mode
  the settings choose.
\<close>

definition stored :: "(string \<Rightarrow> string) \<Rightarrow> settings \<Rightarrow> world \<Rightarrow> ledger" where
  "stored flt st w =
     (case APP_RUNTIME_MODE st of
        Memory \<Rightarrow> (mem_view (w_quotes w), mem_view (w_payments w), messages (w_publisher w))
      | Real \<Rightarrow> (sql_view qr_quote_id (quote_from_row flt) (w_quotes w),
                 sql_view pr_payment_id (payment_from_row flt) (w_payments w), messages (w_publisher w)))"

text \<open>A process that has just started, with an empty database; \<open>uuid4()\<close> never repeats.\<close>

definition fresh_start :: "world \<Rightarrow> bool" where
  "fresh_start w \<longleftrightarrow>
     heap (w_quotes w) = [] \<and> entries (w_quotes w) = [] \<and> rows (w_quotes w) = [] \<and>
     heap (w_payments w) = [] \<and> entries (w_payments w) = [] \<and> rows (w_payments w) = [] \<and>
     messages (w_publisher w) = [] \<and> inj (uuid_at (w_env w))"

lemma reachable_trans: "reachable s flt w1 w2 \<Longrightarrow> reachable s flt w0 w1 \<Longrightarrow> reachable s flt w0 w2"
  by (induction rule: reachable.induct) (auto intro: reachable.process)

lemma reachable_moves_stored:
  assumes "build_app flt st = Inr (srv_app s)" and "fresh_start w0" and "reachable s flt w0 w"
    and "reachable s flt w w'"
  shows "ledger_steps empty_ledger (stored flt st w) \<and> ledger_steps (stored flt st w) (stored flt st w')"
proof -
  obtain p where app: "srv_app s = (case APP_RUNTIME_MODE st of
      Memory \<Rightarrow> memory_app p | Real \<Rightarrow> real_app flt (rabbit_settings st) p)"
    using assms(1) by (rule build_app_cases)
  show ?thesis
  proof (cases "APP_RUNTIME_MODE st")
    case Memory
    have s0: "memory_service.ledger_of w0 = empty_ledger" "memory_service.kept w0"
      using assms(2)
      by (auto simp: fresh_start_def memory_service.ledger_of_def memory_service.kept_def empty_ledger_def
          mem_view_def mem_good_def fun_eq_iff ids_drawn_def)
    have st: "stored flt st v = memory_service.ledger_of v" for v
      using Memory by (simp add: stored_def memory_service.ledger_of_def)
    have m: "memory_service.moves w0 w"
      using assms(3) s0 app Memory by (intro memory_service.reachable_moves[of s flt w0 w p]) simp_all
    then have k: "memory_service.kept w" "ledger_ok (memory_service.ledger_of w)"
      using memory_service.moves_ledger_ok[OF m] s0 by (simp_all add: memory_service.moves_def)
    have "memory_service.moves w w'"
      using assms(4) k app Memory by (intro memory_service.reachable_moves[of s flt w w' p]) simp_all
    with m s0 show ?thesis by (simp add: memory_service.moves_def st)
  next
    case Real
    have s0: "real_service.ledger_of flt w0 = empty_ledger" "real_service.kept flt w0"
      using assms(2)
      by (auto simp: fresh_start_def real_service.ledger_of_def real_service.kept_def empty_ledger_def
          sql_view_def sql_good_def fun_eq_iff ids_drawn_def)
    have st: "stored flt st v = real_service.ledger_of flt v" for v
      using Real by (simp add: stored_def real_service.ledger_of_def)
    have m: "real_service.moves flt w0 w"
      using assms(3) s0 app Real
      by (intro real_service.reachable_moves[of s flt w0 w flt "rabbit_settings st" p]) simp_all
    then have k: "real_service.kept flt w" "ledger_ok (real_service.ledger_of flt w)"
      using real_service.moves_ledger_ok[OF m] s0 by (simp_all add: real_service.moves_def)
    have "real_service.moves flt w w'"
      using assms(4) k app Real
      by (intro real_service.reachable_moves[of s flt w w' flt "rabbit_settings st" p]) simp_all
    with m s0 show ?thesis by (simp add: real_service.moves_def st)
  qed
qed

lemma reachable_ledger_ok:
  assumes "build_app flt st = Inr (srv_app s)" and "fresh_start w0" and "reachable s flt w0 w"
  shows "ledger_ok (stored flt st w)"
  using ledger_steps_ok[of empty_ledger] reachable_moves_stored[OF assms reachable.start] by simp

section \<open>A concrete server\<close>

definition sample_server :: server where
  "sample_server =
     \<lparr>srv_app = memory_app None, srv_settings = default_settings,
      srv_jwt = (\<lambda>token key algs iss. Jwt_Claims [(''role'', JStr ''admin''), (''sub'', JStr ''ana'')])\<rparr>"

definition sample_world :: world where
  "sample_world =
     \<lparr>w_env = sample_env, w_quotes = empty_cell, w_payments = empty_cell, w_publisher = sample_publisher,
      w_processed = \<lparr>processed_ids = [], processed_rows = [], pe_sessions = 0, pe_fault = (\<lambda>_. None)\<rparr>,
      w_channel = sample_broker, w_transitions = []\<rparr>"

definition sample_credentials :: credentials where
  "sample_credentials = \<lparr>cred_scheme = ''Bearer'', cred_token = ''token''\<rparr>"

definition sample_request :: input where
  "sample_request = Request (Some sample_credentials) (Post_Quote ''so1'' [''oil''] (Finite False 12000 (-2)))"

lemma sample_app: "build_app id default_settings = Inr (srv_app sample_server)"
  by (simp add: build_app_def build_payment_gateway_def default_settings_def sample_server_def memory_app_def
      build_quote_repository_def build_payment_repository_def build_event_publisher_def
      build_processed_event_repository_def)

lemma show_nat_inj: "show_nat m = show_nat n \<Longrightarrow> m = n"
  by (metis digits_val_show)

lemma sample_start: "fresh_start sample_world"
  by (auto simp: fresh_start_def sample_world_def empty_cell_def sample_publisher_def sample_env_def
      inj_def dest: show_nat_inj)

lemma sample_reachable: "reachable sample_server id sample_world (process sample_server id sample_request sample_world)"
  by (rule reachable.process[OF reachable.start])

section \<open>Properties of the running service\<close>

text \<open>
  Property C1. In every reachable state, in memory and in real mode, whatever the gateway, the
  database and the broker did on the way: every stored payment is stored under its own
  identifier, has left WAITING\_PREFERENCE, carries its checkout preference, and belongs to a
  stored, approved quote of the same service order with the same total.
\<close>

theorem payments_belong_to_approved_quotes:
  assumes "build_app flt st = Inr (srv_app s)" and "fresh_start w0" and "reachable s flt w0 w"
  shows "case stored flt st w of (Q, P, E) \<Rightarrow>
     \<forall>j p. P j = Some p \<longrightarrow>
       p_payment_id p = j \<and> p_status p \<noteq> WAITING_PREFERENCE \<and> p_preference p \<noteq> None \<and>
       (\<exists>q. Q (p_quote_id p) = Some q \<and> q_status q = APPROVED \<and> q_total q = p_total p \<and>
            q_service_order_id q = p_service_order_id p \<and> valid_money (p_total p))"
proof -
  obtain Q P E where s: "stored flt st w = (Q, P, E)" by (cases "stored flt st w")
  show ?thesis
    using reachable_ledger_ok[OF assms] unfolding s by (auto simp: payment_fits_def) metis+
qed

theorem payments_belong_to_approved_quotes_witness:
  "case stored id default_settings (process sample_server id sample_request sample_world) of (Q, P, E) \<Rightarrow>
     \<forall>j p. P j = Some p \<longrightarrow>
       p_payment_id p = j \<and> p_status p \<noteq> WAITING_PREFERENCE \<and> p_preference p \<noteq> None \<and>
       (\<exists>q. Q (p_quote_id p) = Some q \<and> q_status q = APPROVED \<and> q_total q = p_total p \<and>
            q_service_order_id q = p_service_order_id p \<and> valid_money (p_total p))"
  by (rule payments_belong_to_approved_quotes[OF sample_app sample_start sample_reachable])

text \<open>
  Property C2. A quote is never paid twice: in every reachable state at most one stored payment
  refers to a quote.
\<close>

theorem one_payment_per_quote:
  assumes "build_app flt st = Inr (srv_app s)" and "fresh_start w0" and "reachable s flt w0 w"
  shows "case stored flt st w of (Q, P, E) \<Rightarrow>
     \<forall>j p j' p'. P j = Some p \<longrightarrow> P j' = Some p' \<longrightarrow> p_quote_id p = p_quote_id p' \<longrightarrow> j = j' \<and> p = p'"
proof -
  obtain Q P E where s: "stored flt st w = (Q, P, E)" by (cases "stored flt st w")
  show ?thesis
    using reachable_ledger_ok[OF assms] unfolding s by (simp, metis option.inject)
qed

theorem one_payment_per_quote_witness:
  "case stored id default_settings (process sample_server id sample_request sample_world) of (Q, P, E) \<Rightarrow>
     \<forall>j p j' p'. P j = Some p \<longrightarrow> P j' = Some p' \<longrightarrow> p_quote_id p = p_quote_id p' \<longrightarrow> j = j' \<and> p = p'"
  by (rule one_payment_per_quote[OF sample_app sample_start sample_reachable])

text \<open>
  Property C3. What the service reports as published is true: since the last drain a payment is
  announced as confirmed at most once and only if it is stored as CONFIRMED, announced as
  failed only if it is stored as FAILED (so never both), and no quote is ever announced as
  cancelled.
\<close>

theorem announcements_are_true:
  assumes "build_app flt st = Inr (srv_app s)" and "fresh_start w0" and "reachable s flt w0 w"
  shows "case stored flt st w of (Q, P, E) \<Rightarrow>
     distinct (announced ''PAYMENT_CONFIRMED'' E) \<and>
     (\<forall>j\<in>set (announced ''PAYMENT_CONFIRMED'' E). map_option p_status (P j) = Some CONFIRMED) \<and>
     (\<forall>j\<in>set (announced ''PAYMENT_FAILED'' E). map_option p_status (P j) = Some FAILED) \<and>
     (\<forall>m\<in>set E. map_of m ''event_type'' \<noteq> Some (JStr ''QUOTE_CANCELLED''))"
proof -
  obtain Q P E where s: "stored flt st w = (Q, P, E)" by (cases "stored flt st w")
  show ?thesis using reachable_ledger_ok[OF assms] unfolding s by auto
qed

theorem announcements_are_true_witness:
  "case stored id default_settings (process sample_server id sample_request sample_world) of (Q, P, E) \<Rightarrow>
     distinct (announced ''PAYMENT_CONFIRMED'' E) \<and>
     (\<forall>j\<in>set (announced ''PAYMENT_CONFIRMED'' E). map_option p_status (P j) = Some CONFIRMED) \<and>
     (\<forall>j\<in>set (announced ''PAYMENT_FAILED'' E). map_option p_status (P j) = Some FAILED) \<and>
     (\<forall>m\<in>set E. map_of m ''event_type'' \<noteq> Some (JStr ''QUOTE_CANCELLED''))"
  by (rule announcements_are_true[OF sample_app sample_start sample_reachable])

text \<open>
  Property C4. The store only moves forward: from a reachable state, no later input removes a
  quote or a payment, changes its identifiers, items or total, or takes it back in its life cycle;
  an approved quote and a confirmed or failed payment are never changed again.
\<close>

theorem store_moves_forward:
  assumes "build_app flt st = Inr (srv_app s)" and "fresh_start w0" and "reachable s flt w0 w"
    and "reachable s flt w w'"
  shows "case (stored flt st w, stored flt st w') of ((Q, P, E), (Q', P', E')) \<Rightarrow>
     (\<forall>i q. Q i = Some q \<longrightarrow> (\<exists>q'. Q' i = Some q' \<and> same_quote q q' \<and> q_status q \<le> q_status q' \<and>
        (q_status q = APPROVED \<longrightarrow> q' = q))) \<and>
     (\<forall>j p. P j = Some p \<longrightarrow> (\<exists>p'. P' j = Some p' \<and> same_payment p p' \<and> p_status p \<le> p_status p' \<and>
        p_preference p' = p_preference p \<and> (p_status p \<in> {CONFIRMED, FAILED} \<longrightarrow> p' = p)))"
proof -
  obtain Q P E where s: "stored flt st w = (Q, P, E)" by (cases "stored flt st w")
  obtain Q' P' E' where s': "stored flt st w' = (Q', P', E')" by (cases "stored flt st w'")
  have "ledger_grows (stored flt st w) (stored flt st w')"
    using reachable_moves_stored[OF assms] by (blast intro: ledger_steps_grow)
  then show ?thesis
    unfolding s s' ledger_grows.simps map_grows_def quote_grows_def split_conv using payment_growsD by blast
qed

theorem store_moves_forward_witness:
  "case (stored id default_settings sample_world,
         stored id default_settings (process sample_server id sample_request sample_world)) of
     ((Q, P, E), (Q', P', E')) \<Rightarrow>
     (\<forall>i q. Q i = Some q \<longrightarrow> (\<exists>q'. Q' i = Some q' \<and> same_quote q q' \<and> q_status q \<le> q_status q' \<and>
        (q_status q = APPROVED \<longrightarrow> q' = q))) \<and>
     (\<forall>j p. P j = Some p \<longrightarrow> (\<exists>p'. P' j = Some p' \<and> same_payment p p' \<and> p_status p \<le> p_status p' \<and>
        p_preference p' = p_preference p \<and> (p_status p \<in> {CONFIRMED, FAILED} \<longrightarrow> p' = p)))"
  by (rule store_moves_forward[OF sample_app sample_start reachable.start sample_reachable])

text \<open>
  Property C5. The service refines its ledger. Between any two states that a run of the service
  reaches one after the other, in either mode and whatever the gateway, the database, the broker
  and the clients did in between, lies a sequence of ledger steps: a fresh quote is created, a
  created quote is approved, a preference opens the one payment of an approved quote, a pending
  payment is confirmed, a payment that is not confirmed fails, the published messages are
  drained; each with the message that announces it, or, when publishing failed, without.
\<close>

theorem service_refines_ledger:
  assumes "build_app flt st = Inr (srv_app s)" and "fresh_start w0" and "reachable s flt w0 w"
    and "reachable s flt w w'"
  shows "ledger_steps empty_ledger (stored flt st w) \<and> ledger_steps (stored flt st w) (stored flt st w')"
  using assms by (rule reachable_moves_stored)

theorem service_refines_ledger_witness:
  "ledger_steps empty_ledger (stored id default_settings (process sample_server id sample_request sample_world)) \<and>
   ledger_steps (stored id default_settings (process sample_server id sample_request sample_world))
     (stored id default_settings
       (process sample_server id sample_request (process sample_server id sample_request sample_world)))"
  by (rule service_refines_ledger[OF sample_app sample_start sample_reachable
        reachable.process[OF reachable.start]])

text \<open>
  Property C6. Without an administrator's token nothing happens: if a request changes the state
  of the service at all, it carried a bearer token that verifies under the administrator's
  secret with the role claim admin.
\<close>

theorem only_administrators_change_state:
  assumes "serve s creds req w = (r, w')" and "w' \<noteq> w"
  shows "\<exists>c pl. creds = Some c \<and> casefold (cred_scheme c) = ''bearer'' \<and>
     srv_jwt s (cred_token c) (JWT_SECRET (srv_settings s)) [JWT_ALGORITHM (srv_settings s)]
       (JWT_ISSUER (srv_settings s)) = Jwt_Claims pl \<and> map_of pl ''role'' = Some (JStr ''admin'')"
proof -
  from assms obtain p where "require_admin_principal (srv_jwt s) (srv_settings s) creds = Inr p"
    by (auto simp: serve_def andthen_def split: sum.splits)
  then obtain c where c: "creds = Some c" "casefold (cred_scheme c) = ''bearer''"
      and v: "verify_admin_token (srv_jwt s) (srv_settings s) (cred_token c) = Inr (Some p)"
    by (auto simp: require_admin_principal_def get_current_principal_def Let_def bind_sum_def
        split: option.splits if_splits sum.splits dest: verify_customer_role)
  from v c show ?thesis by (auto elim!: verify_adminE)
qed

definition busy_world :: world where
  "busy_world = sample_world\<lparr>w_publisher := sample_publisher\<lparr>messages := [to_message sample_event]\<rparr>\<rparr>"

lemma sample_admitted: "\<exists>p. require_admin_principal (srv_jwt sample_server) st (Some sample_credentials) = Inr p"
proof -
  have "casefold ''Bearer'' = ''bearer''" by code_simp
  then show ?thesis
    by (simp add: require_admin_principal_def get_current_principal_def sample_server_def sample_credentials_def
        verify_customer_token_def verify_admin_token_def get_default_def or_else_def is_admin_def Let_def)
qed

theorem only_administrators_change_state_witness:
  "\<exists>c pl. Some sample_credentials = Some c \<and> casefold (cred_scheme c) = ''bearer'' \<and>
     srv_jwt sample_server (cred_token c) (JWT_SECRET (srv_settings sample_server))
       [JWT_ALGORITHM (srv_settings sample_server)] (JWT_ISSUER (srv_settings sample_server)) = Jwt_Claims pl \<and>
     map_of pl ''role'' = Some (JStr ''admin'')"
proof -
  obtain p where "require_admin_principal (srv_jwt sample_server) (srv_settings sample_server)
      (Some sample_credentials) = Inr p"
    using sample_admitted by blast
  then have run: "snd (serve sample_server (Some sample_credentials) Post_Drain busy_world) =
      busy_world\<lparr>w_publisher := sample_publisher\<lparr>messages := []\<rparr>\<rparr>"
    by (simp add: serve_def andthen_def drain_published_events_def in_publisher_def zoom_def
        sample_server_def memory_app_def InMemoryEventPublisher_def memory_drain_def busy_world_def
        sample_publisher_def)
  have changed: "snd (serve sample_server (Some sample_credentials) Post_Drain busy_world) \<noteq> busy_world"
    unfolding run by (simp add: busy_world_def sample_world_def sample_publisher_def)
  show ?thesis
    by (rule only_administrators_change_state[OF surjective_pairing changed])
qed

end
