(* ===== verification/Py_Input.thy ===== *)
theory Py_Input
  imports Py_Text
begin

text \<open>
  Text files as the deployment scripts read and write them: \<open>str.splitlines\<close>, lines written
  with a line end each, and \<open>int\<close> on text.
\<close>

section \<open>Lines\<close>

text \<open>The line boundaries of \<open>splitlines\<close> among the code points of the model.\<close>

definition is_break :: "char \<Rightarrow> bool" where
  "is_break c = (let n = code_point c in (10 \<le> n \<and> n \<le> 13) \<or> (28 \<le> n \<and> n \<le> 30) \<or> n = 133)"

text \<open>What follows a line: its end is one character, or a carriage return with its line feed.\<close>

definition after_break :: "string \<Rightarrow> string" where
  "after_break s =
     (case s of
        [] \<Rightarrow> []
      | c # cs \<Rightarrow> if code_point c = 13 \<and> cs \<noteq> [] \<and> code_point (hd cs) = 10 then tl cs else cs)"

lemma after_break_length:
  assumes "s \<noteq> []"
  shows "length (after_break (dropWhile P s)) < length s"
proof (cases "dropWhile P s")
  case Nil
  show ?thesis unfolding Nil using assms by (simp add: after_break_def)
next
  case (Cons c cs)
  then have "length (after_break (dropWhile P s)) \<le> length cs" unfolding Cons by (simp add: after_break_def)
  also have "length cs < length (dropWhile P s)" using Cons by simp
  also have "length (dropWhile P s) \<le> length s" by (rule length_dropWhile_le)
  finally show ?thesis .
qed

function splitlines :: "string \<Rightarrow> string list" where
  "splitlines s =
     (if s = [] then []
      else takeWhile (\<lambda>c. \<not> is_break c) s # splitlines (after_break (dropWhile (\<lambda>c. \<not> is_break c) s)))"
  by pat_completeness auto

termination
  by (relation "measure length") (simp_all add: after_break_length)

declare splitlines.simps [simp del]

lemma splitlines_Nil [simp]: "splitlines [] = []"
  by (subst splitlines.simps) simp

definition newline :: char where
  "newline = char_of (10::nat)"

lemma newline_break [simp]: "is_break newline" "code_point newline = 10"
  by (simp_all add: newline_def is_break_def)

definition no_break :: "string \<Rightarrow> bool" where
  "no_break s = list_all (\<lambda>c. \<not> is_break c) s"

lemma no_break_append [simp]: "no_break (a @ b) \<longleftrightarrow> no_break a \<and> no_break b"
  by (simp add: no_break_def)

lemma no_break_Nil [simp]: "no_break []"
  by (simp add: no_break_def)

lemma no_break_Cons [simp]: "no_break (c # s) \<longleftrightarrow> \<not> is_break c \<and> no_break s"
  by (simp add: no_break_def)

lemma no_break_subset: "no_break s \<Longrightarrow> set t \<subseteq> set s \<Longrightarrow> no_break t"
  by (auto simp: no_break_def list_all_iff)

lemma splitlines_line:
  assumes "no_break l"
  shows "splitlines (l @ newline # rest) = l # splitlines rest"
proof -
  have t: "takeWhile (\<lambda>c. \<not> is_break c) (l @ newline # rest) = l"
    and d: "dropWhile (\<lambda>c. \<not> is_break c) (l @ newline # rest) = newline # rest"
    using assms by (induction l) auto
  show ?thesis by (subst splitlines.simps, unfold t d) (simp add: after_break_def)
qed

text \<open>\<open>"\n".join(lines) + "\n"\<close> of at least one line.\<close>

definition write_lines :: "string list \<Rightarrow> string" where
  "write_lines ls = join [newline] ls @ [newline]"

lemma join_end: "ls \<noteq> [] \<Longrightarrow> join [c] ls @ [c] = concat (map (\<lambda>l. l @ [c]) ls)"
  by (induction "[c]" ls rule: join.induct) auto

lemma splitlines_write_lines:
  assumes "ls \<noteq> []" and "list_all no_break ls"
  shows "splitlines (write_lines ls) = ls"
proof -
  have "splitlines (concat (map (\<lambda>l. l @ [newline]) ls)) = ls"
    using assms(2) by (induction ls) (auto simp: splitlines_line)
  then show ?thesis by (simp add: write_lines_def join_end[OF assms(1)])
qed

lemma no_break_takeWhile: "no_break (takeWhile (\<lambda>c. \<not> is_break c) s)"
  by (induction s) auto

lemma splitlines_no_break: "list_all no_break (splitlines s)"
proof (induction s rule: splitlines.induct)
  case (1 s)
  show ?case
  proof (cases "s = []")
    case False
    then show ?thesis using "1.IH"[OF False] by (subst splitlines.simps) (simp add: no_break_takeWhile)
  qed simp
qed

section \<open>int\<close>

text \<open>
  White space around, a sign, and decimal digits with single underscores between them; more than
  4300 digits are refused. \<open>None\<close> stands for the ValueError.
\<close>

definition int_digits :: "string \<Rightarrow> nat option" where
  "int_digits s =
     (let parts = split_on CHR ''_'' s; ds = concat parts in
      if list_all (\<lambda>p. p \<noteq> [] \<and> list_all is_digit p) parts \<and> length ds \<le> max_int_digits
      then Some (digits_val ds) else None)"

definition py_int :: "string \<Rightarrow> int option" where
  "py_int s =
     (case strip s of
        [] \<Rightarrow> None
      | c # cs \<Rightarrow>
          if c = CHR ''-'' then map_option (\<lambda>n. - int n) (int_digits cs)
          else if c = CHR ''+'' then map_option int (int_digits cs)
          else map_option int (int_digits (c # cs)))"

lemma split_on_missing: "c \<notin> set s \<Longrightarrow> split_on c s = [s]"
  by (induction s) auto

lemma underscore_not_digit: "\<not> is_digit CHR ''_''" "\<not> is_digit CHR ''-''" "\<not> is_digit CHR ''+''"
  by (simp_all add: is_digit_def code_point_def)

lemma show_nat_no_mark: "CHR ''_'' \<notin> set (show_nat n)" "hd (show_nat n) \<noteq> CHR ''-''" "hd (show_nat n) \<noteq> CHR ''+''"
  using show_nat_digits[of _ n] underscore_not_digit hd_in_set[OF show_nat_nonempty[of n]] by metis+

lemma show_nat_spaceless: "strip (show_nat n) = show_nat n"
  by (rule strip_no_space) (auto dest: show_nat_digits digit_not_space)

text \<open>A number below the limit is read back as printed.\<close>

lemma py_int_show:
  assumes "length (show_nat n) \<le> max_int_digits"
  shows "py_int (show_nat n) = Some (int n)"
proof -
  obtain c cs where s: "show_nat n = c # cs" by (cases "show_nat n") auto
  have "int_digits (show_nat n) = Some n"
    using assms by (auto simp: int_digits_def split_on_missing show_nat_no_mark list_all_iff Let_def dest: show_nat_digits)
  moreover have "c \<noteq> CHR ''-''" "c \<noteq> CHR ''+''" using show_nat_no_mark(2,3)[of n] s by simp_all
  ultimately show ?thesis using show_nat_spaceless[of n] s by (simp add: py_int_def)
qed

lemma digits_val_bound: "list_all is_digit ds \<Longrightarrow> digits_val ds < 10 ^ length ds"
proof (induction ds rule: rev_induct)
  case (snoc d ds)
  then have "digits_val ds < 10 ^ length ds" "digit_val d < 10"
    by (auto simp: is_digit_def digit_val_def)
  then show ?case by simp
qed simp

lemma int_digits_bound: "int_digits s = Some n \<Longrightarrow> n < 10 ^ max_int_digits"
proof -
  assume a: "int_digits s = Some n"
  define ds where "ds = concat (split_on CHR ''_'' s)"
  have ds: "length ds \<le> max_int_digits" "list_all is_digit ds" "n = digits_val ds"
    using a by (auto simp: int_digits_def Let_def ds_def list_all_iff split: if_splits)
  have "n < 10 ^ length ds" using digits_val_bound[OF ds(2)] ds(3) by simp
  also have "(10::nat) ^ length ds \<le> 10 ^ max_int_digits" using ds(1) by (intro power_increasing) simp_all
  finally show ?thesis .
qed

lemma py_int_show_again:
  assumes "py_int s = Some i" and "0 < i"
  shows "py_int (show_int i) = Some i" and "\<exists>n. i = int n \<and> show_int i = show_nat n"
proof -
  obtain n where n: "i = int n" "\<exists>t. int_digits t = Some n"
    using assms by (auto simp: py_int_def split: list.splits if_splits)
  then have "n < 10 ^ max_int_digits" using int_digits_bound by blast
  then have "length (show_nat n) \<le> max_int_digits" by (intro show_nat_length max_int_digits_positive)
  moreover have "show_int i = show_nat n" using n(1) by (simp add: show_int_def)
  ultimately show "py_int (show_int i) = Some i" "\<exists>n. i = int n \<and> show_int i = show_nat n"
    using py_int_show n(1) by auto
qed

end
