(* ===== verification/Py_Url.thy ===== *)
theory Py_Url
  imports Py_Input
begin

text \<open>
  \<open>urllib.parse.urlsplit\<close> as the source uses it: the scheme, the network location and the
  path, and the user name, host name and port that the result object reads from the network
  location. A host in brackets is checked as CPython 3.12 does, with the address parser of
  \<open>ipaddress\<close>. The check of the network location for characters whose compatibility form is a
  delimiter never fails on the code points of the model. Every refusal of a
  bracketed host carries the message \<open>Invalid IPv6 URL\<close>, where CPython has one for each case.
\<close>

section \<open>Cutting a text\<close>

text \<open>\<open>s.partition(c)\<close>: the text before the first \<open>c\<close>, whether there is one, the text after it.\<close>

definition partition_at :: "char \<Rightarrow> string \<Rightarrow> string \<times> bool \<times> string" where
  "partition_at c s = (takeWhile (\<lambda>x. x \<noteq> c) s, c \<in> set s, drop 1 (dropWhile (\<lambda>x. x \<noteq> c) s))"

text \<open>\<open>s.rpartition(c)\<close>: without a \<open>c\<close> the whole text comes last.\<close>

definition rpartition_at :: "char \<Rightarrow> string \<Rightarrow> string \<times> bool \<times> string" where
  "rpartition_at c s =
     (if c \<in> set s
      then (rev (drop 1 (dropWhile (\<lambda>x. x \<noteq> c) (rev s))), True, rev (takeWhile (\<lambda>x. x \<noteq> c) (rev s)))
      else ([], False, s))"

lemma takeWhile_before: "c \<notin> set a \<Longrightarrow> takeWhile (\<lambda>x. x \<noteq> c) (a @ c # b) = a"
  by (induction a) auto

lemma dropWhile_before: "c \<notin> set a \<Longrightarrow> dropWhile (\<lambda>x. x \<noteq> c) (a @ c # b) = c # b"
  by (induction a) auto

lemma partition_at_found [simp]: "c \<notin> set a \<Longrightarrow> partition_at c (a @ c # b) = (a, True, b)"
  by (simp add: partition_at_def takeWhile_before dropWhile_before)

lemma partition_at_missing [simp]: "c \<notin> set a \<Longrightarrow> partition_at c a = (a, False, [])"
proof -
  assume c: "c \<notin> set a"
  then have t: "takeWhile (\<lambda>x. x \<noteq> c) a = a" and d: "dropWhile (\<lambda>x. x \<noteq> c) a = []"
    by (auto simp: takeWhile_eq_all_conv dropWhile_eq_Nil_conv)
  show ?thesis using c unfolding partition_at_def t d by simp
qed

lemma rpartition_at_found [simp]: "c \<notin> set b \<Longrightarrow> rpartition_at c (a @ c # b) = (a, True, b)"
  using takeWhile_before[of c "rev b" "rev a"] dropWhile_before[of c "rev b" "rev a"]
  by (simp add: rpartition_at_def)

lemma rpartition_at_missing [simp]: "c \<notin> set a \<Longrightarrow> rpartition_at c a = ([], False, a)"
  by (simp add: rpartition_at_def)

section \<open>Addresses in brackets\<close>

definition is_hex_digit :: "char \<Rightarrow> bool" where
  "is_hex_digit c = (is_digit c \<or> c \<in> set ''abcdefABCDEF'')"

definition ipv4_octet :: "string \<Rightarrow> bool" where
  "ipv4_octet s =
     (s \<noteq> [] \<and> list_all is_digit s \<and> length s \<le> 3 \<and> (hd s = CHR ''0'' \<longrightarrow> length s = 1) \<and> digits_val s \<le> 255)"

definition ipv4_address :: "string \<Rightarrow> bool" where
  "ipv4_address s = (length (split_on CHR ''.'' s) = 4 \<and> list_all ipv4_octet (split_on CHR ''.'' s))"

definition hextet :: "string \<Rightarrow> bool" where
  "hextet s = (s \<noteq> [] \<and> list_all is_hex_digit s \<and> length s \<le> 4)"

text \<open>
  The parts between the colons; \<open>gaps\<close> are the inner positions of the empty ones, of which
  there may be one, standing for \<open>::\<close>.
\<close>

definition hextets_ok :: "string list \<Rightarrow> bool" where
  "hextets_ok parts =
     (let gaps = filter (\<lambda>i. parts ! i = []) [1..<length parts - 1] in
      case gaps of
        [] \<Rightarrow> length parts = 8 \<and> list_all hextet parts
      | [i] \<Rightarrow>
          let hi = take i parts; lo = drop (Suc i) parts;
              hi' = (if hd parts = [] then drop 1 hi else hi);
              lo' = (if last parts = [] then butlast lo else lo)
          in (hd parts = [] \<longrightarrow> hi' = []) \<and> (last parts = [] \<longrightarrow> lo' = []) \<and>
             length hi' + length lo' < 8 \<and> list_all hextet hi' \<and> list_all hextet lo'
      | _ \<Rightarrow> False)"

definition ipv6_address :: "string \<Rightarrow> bool" where
  "ipv6_address s =
     (case partition_at CHR ''%'' s of (addr, scoped, zone) \<Rightarrow>
        (scoped \<longrightarrow> zone \<noteq> [] \<and> CHR ''%'' \<notin> set zone) \<and>
        (let parts = split_on CHR '':'' addr in
           3 \<le> length parts \<and>
           (if CHR ''.'' \<in> set (last parts)
            then ipv4_address (last parts) \<and> length parts + 1 \<le> 9 \<and>
                 hextets_ok (butlast parts @ [''0'', ''0''])
            else length parts \<le> 9 \<and> hextets_ok parts)))"

text \<open>A host that starts with \<open>v\<close>: hexadecimal digits, a dot, and at least one character.\<close>

definition future_address :: "string \<Rightarrow> bool" where
  "future_address s =
     (case partition_at CHR ''.'' (drop 1 s) of (version, dotted, rest) \<Rightarrow>
        version \<noteq> [] \<and> list_all is_hex_digit version \<and> dotted \<and> rest \<noteq> [])"

definition bracketed_host_ok :: "string \<Rightarrow> bool" where
  "bracketed_host_ok h = (if startswith h ''v'' then future_address h else ipv6_address h)"

text \<open>
  \<open>_check_bracketed_netloc\<close>: nothing may stand before the opening bracket, and only a port
  after the closing one.
\<close>

definition bracketed_netloc_ok :: "string \<Rightarrow> bool" where
  "bracketed_netloc_ok nl =
     (case rpartition_at CHR ''@'' nl of (_, _, hp) \<Rightarrow>
      case partition_at CHR ''['' hp of (front, opened, inner) \<Rightarrow>
        if opened then
          (case partition_at CHR '']'' inner of (h, _, after) \<Rightarrow>
             front = [] \<and> (after = [] \<or> startswith after '':'') \<and> bracketed_host_ok h)
        else (case partition_at CHR '':'' hp of (h, _, _) \<Rightarrow> bracketed_host_ok h))"

section \<open>urlsplit\<close>

record split_url =
  url_scheme :: string
  url_netloc :: string
  url_path :: string

definition is_ascii_letter :: "char \<Rightarrow> bool" where
  "is_ascii_letter c =
     (let n = code_point c in (65 \<le> n \<and> n \<le> 90) \<or> (97 \<le> n \<and> n \<le> 122))"

definition is_scheme_char :: "char \<Rightarrow> bool" where
  "is_scheme_char c = (is_ascii_letter c \<or> is_digit c \<or> c \<in> set ''+-.'')"

text \<open>Leading control characters and spaces go, and tabs and line ends wherever they are.\<close>

definition clean_url :: "string \<Rightarrow> string" where
  "clean_url s = filter (\<lambda>c. code_point c \<notin> {9, 10, 13}) (dropWhile (\<lambda>c. code_point c \<le> 32) s)"

definition is_scheme :: "string \<Rightarrow> bool" where
  "is_scheme s = (s \<noteq> [] \<and> is_ascii_letter (hd s) \<and> list_all is_scheme_char s)"

definition split_scheme :: "string \<Rightarrow> string \<times> string" where
  "split_scheme s =
     (case partition_at CHR '':'' s of (sch, found, rest) \<Rightarrow>
        if found \<and> is_scheme sch then (lower sch, rest) else ([], s))"

definition before_any :: "string \<Rightarrow> string \<Rightarrow> string" where
  "before_any delims s = takeWhile (\<lambda>c. c \<notin> set delims) s"

definition split_location :: "string \<Rightarrow> string \<Rightarrow> py_error + split_url" where
  "split_location sch rest =
     (let nl = (if startswith rest ''//'' then before_any ''/?#'' (drop 2 rest) else []);
          tail = (if startswith rest ''//'' then drop (length nl + 2) rest else rest);
          path = before_any ''?'' (before_any ''#'' tail)
      in if (CHR ''['' \<in> set nl) \<noteq> (CHR '']'' \<in> set nl) then Inl (ValueError ''Invalid IPv6 URL'')
         else if CHR ''['' \<in> set nl \<and> \<not> bracketed_netloc_ok nl then Inl (ValueError ''Invalid IPv6 URL'')
         else Inr \<lparr>url_scheme = sch, url_netloc = nl, url_path = path\<rparr>)"

definition urlsplit :: "string \<Rightarrow> py_error + split_url" where
  "urlsplit s = (case split_scheme (clean_url s) of (sch, rest) \<Rightarrow> split_location sch rest)"

section \<open>The attributes of the result\<close>

definition url_username :: "split_url \<Rightarrow> string option" where
  "url_username u =
     (case rpartition_at CHR ''@'' (url_netloc u) of (userinfo, has_user, _) \<Rightarrow>
        if has_user then Some (fst (partition_at CHR '':'' userinfo)) else None)"

definition hostinfo :: "split_url \<Rightarrow> string \<times> string" where
  "hostinfo u =
     (case rpartition_at CHR ''@'' (url_netloc u) of (_, _, info) \<Rightarrow>
      case partition_at CHR ''['' info of (_, opened, bracketed) \<Rightarrow>
        if opened
        then (case partition_at CHR '']'' bracketed of (h, _, rest) \<Rightarrow>
               (h, snd (snd (partition_at CHR '':'' rest))))
        else (case partition_at CHR '':'' info of (h, _, p) \<Rightarrow> (h, p)))"

text \<open>The host in lower case, up to a zone after \<open>%\<close>.\<close>

definition url_hostname :: "split_url \<Rightarrow> string option" where
  "url_hostname u =
     (let h = fst (hostinfo u) in
      if h = [] then None
      else (case partition_at CHR ''%'' h of (name, zoned, zone) \<Rightarrow>
              Some (lower name @ (if zoned then CHR ''%'' # zone else []))))"

text \<open>\<open>int\<close> refuses a text of more than 4300 digits with a ValueError of its own.\<close>

definition url_port :: "split_url \<Rightarrow> py_error + nat option" where
  "url_port u =
     (let p = snd (hostinfo u) in
      if p = [] then Inr None
      else if \<not> list_all is_digit p
      then Inl (ValueError (''Port could not be cast to integer value as '' @ repr_str p))
      else if max_int_digits < length p
      then Inl (ValueError (''Exceeds the limit (4300 digits) for integer string conversion: value has '' @
        show_nat (length p) @ '' digits; use sys.set_int_max_str_digits() to increase the limit''))
      else if 65535 < digits_val p then Inl (ValueError ''Port out of range 0-65535'')
      else Inr (Some (digits_val p)))"

section \<open>Reading back a URL put together from its parts\<close>

text \<open>
  A URL with a user, a password, a host and a port. The conditions are that no part contains
  a delimiter of a part that is read before it.
\<close>

definition free_of :: "string \<Rightarrow> string \<Rightarrow> bool" where
  "free_of delims s = (\<forall>c\<in>set s. c \<notin> set delims \<and> 32 < code_point c)"

lemma free_ofD: "free_of delims s \<Longrightarrow> c \<in> set delims \<Longrightarrow> c \<notin> set s"
  by (auto simp: free_of_def)

lemma free_of_append [simp]: "free_of d (a @ b) \<longleftrightarrow> free_of d a \<and> free_of d b"
  by (auto simp: free_of_def)

lemma clean_url_free: "(\<forall>c\<in>set s. 32 < code_point c) \<Longrightarrow> clean_url s = s"
  unfolding clean_url_def by (cases s) (auto simp: filter_id_conv)

lemma scheme_no_colon: "is_scheme s \<Longrightarrow> CHR '':'' \<notin> set s"
  by (auto simp: is_scheme_def is_scheme_char_def is_ascii_letter_def is_digit_def code_point_def list_all_iff Let_def)

lemma split_location_scheme:
  "split_location sch rest = map_sum id (\<lambda>u. u\<lparr>url_scheme := sch\<rparr>) (split_location other rest)"
  by (auto simp: split_location_def Let_def)

lemma split_scheme_found: "is_scheme sch \<Longrightarrow> split_scheme (sch @ CHR '':'' # rest) = (lower sch, rest)"
  by (simp add: split_scheme_def scheme_no_colon)

end
