(* ===== verification/Database_Url.thy ===== *)
theory Database_Url
  imports Py_Url
begin

text \<open>
  \<open>src/infrastructure/database/url_utils.py\<close>, and the second normaliser of database URLs,
  \<open>normalize_sync_database_url\<close> of the SQL repositories.
\<close>

section \<open>Normalisers\<close>

definition normalize_postgresql_url_for_alembic :: "string \<Rightarrow> string" where
  "normalize_postgresql_url_for_alembic url =
     (if startswith url ''postgresql+asyncpg://''
      then replace_first ''postgresql+asyncpg://'' ''postgresql+psycopg://'' url
      else if startswith url ''postgresql://''
      then replace_first ''postgresql://'' ''postgresql+psycopg://'' url
      else if startswith url ''postgres://''
      then replace_first ''postgres://'' ''postgresql+psycopg://'' url
      else url)"

definition normalize_sync_database_url :: "string \<Rightarrow> string" where
  "normalize_sync_database_url url =
     replace_all ''?ssl=require'' ''?sslmode=require''
       (replace_all ''sqlite+aiosqlite://'' ''sqlite+pysqlite://''
         (replace_all ''postgresql+asyncpg://'' ''postgresql+psycopg://'' url))"

section \<open>The target of a database URL\<close>

definition placeholder_hosts :: "string list" where
  "placeholder_hosts = [''seu_host_postgres'', ''your-rds-endpoint'', ''endpoint-rds'', ''db-host'']"

definition target_of :: "split_url \<Rightarrow> py_error + string \<times> string \<times> nat \<times> string" where
  "target_of parsed =
     (let username = (case url_username parsed of None \<Rightarrow> [] | Some n \<Rightarrow> n);
          host = (case url_hostname parsed of None \<Rightarrow> [] | Some h \<Rightarrow> h)
      in bind_sum (url_port parsed) (\<lambda>p.
           let port = (case p of None \<Rightarrow> 5432 | Some n \<Rightarrow> if n = 0 then 5432 else n);
               path = dropWhile (\<lambda>c. c = CHR ''/'') (url_path parsed);
               database = (if path = [] then ''<unknown>'' else path)
           in Inr (username, host, port, database)))"

definition describe_database_target :: "string \<Rightarrow> py_error + string \<times> string \<times> nat \<times> string" where
  "describe_database_target url = bind_sum (urlsplit url) target_of"

definition quoted :: "string \<Rightarrow> string" where
  "quoted s = CHR 0x27 # s @ [CHR 0x27]"

text \<open>An expectation that is \<open>None\<close> or empty is not checked.\<close>

definition mismatch :: "string option \<Rightarrow> string \<Rightarrow> bool" where
  "mismatch expected found = (case expected of None \<Rightarrow> False | Some e \<Rightarrow> e \<noteq> [] \<and> found \<noteq> e)"

definition validate_runtime_database_url ::
    "string \<Rightarrow> string option \<Rightarrow> string option \<Rightarrow> py_error + string \<times> nat \<times> string \<times> string" where
  "validate_runtime_database_url url expected_database expected_username =
     (if strip url = [] then Inl (ValueError ''DATABASE_URL environment variable is required.'')
      else bind_sum (describe_database_target url) (\<lambda>(username, host, port, database).
        if host = [] then Inl (ValueError ''DATABASE_URL must include a database host.'')
        else if username = [] then Inl (ValueError ''DATABASE_URL must include a database username.'')
        else if database = [] \<or> database = ''<unknown>''
        then Inl (ValueError ''DATABASE_URL must include a database name.'')
        else if lower (strip host) \<in> set placeholder_hosts
        then Inl (ValueError (''DATABASE_URL host still uses a placeholder value. '' @
          ''Replace it with the real RDS endpoint.''))
        else if mismatch expected_database database
        then Inl (ValueError (''DATABASE_URL points to the wrong database. Expected '' @
          quoted (the expected_database) @ '', got '' @ quoted database @ ''.''))
        else if mismatch expected_username username
        then Inl (ValueError (''DATABASE_URL uses the wrong database user. Expected '' @
          quoted (the expected_username) @ '', got '' @ quoted username @ ''.''))
        else Inr (host, port, database, username)))"

section \<open>Only the scheme of a URL depends on its scheme\<close>

lemma clean_url_prefix:
  assumes "p \<noteq> []" and "\<forall>c\<in>set p. 32 < code_point c"
  shows "clean_url (p @ t) = p @ filter (\<lambda>c. code_point c \<notin> {9, 10, 13}) t"
proof -
  have "\<not> code_point (hd p) \<le> 32" using assms by (cases p) auto
  then have "dropWhile (\<lambda>c. code_point c \<le> 32) (p @ t) = p @ t" using assms(1) by (cases p) auto
  moreover have "filter (\<lambda>c. code_point c \<notin> {9, 10, 13}) p = p" using assms(2) by (auto simp: filter_id_conv)
  ultimately show ?thesis by (simp add: clean_url_def)
qed

lemma scheme_chars: "is_scheme s \<Longrightarrow> c \<in> set s \<Longrightarrow> 32 < code_point c"
  by (auto simp: is_scheme_def is_scheme_char_def is_ascii_letter_def is_digit_def code_point_def list_all_iff Let_def)

lemma split_scheme_clean:
  assumes "is_scheme s"
  shows "split_scheme (clean_url (s @ '':'' @ t)) = (lower s, filter (\<lambda>c. code_point c \<notin> {9, 10, 13}) t)"
proof -
  have "clean_url ((s @ '':'') @ t) = (s @ '':'') @ filter (\<lambda>c. code_point c \<notin> {9, 10, 13}) t"
    by (rule clean_url_prefix) (auto simp: code_point_def dest: scheme_chars[OF assms])
  then show ?thesis using split_scheme_found[OF assms] by simp
qed

lemma target_of_scheme: "target_of (u\<lparr>url_scheme := s\<rparr>) = target_of u"
  by (simp add: target_of_def url_username_def url_hostname_def url_port_def hostinfo_def)

lemma describe_any_scheme:
  assumes "is_scheme a" and "is_scheme b"
  shows "describe_database_target (a @ '':'' @ t) = describe_database_target (b @ '':'' @ t)"
proof -
  let ?f = "filter (\<lambda>c. code_point c \<notin> {9, 10, 13}) t"
  have "bind_sum (split_location x ?f) target_of = bind_sum (split_location y ?f) target_of" for x y
    by (subst split_location_scheme[of x _ y]) (cases "split_location y ?f"; simp add: target_of_scheme)
  then show ?thesis
    unfolding describe_database_target_def urlsplit_def split_scheme_clean[OF assms(1)]
      split_scheme_clean[OF assms(2)] prod.case .
qed

lemma replace_first_prefix: "p \<noteq> [] \<Longrightarrow> replace_first p n (p @ t) = n @ t"
  by (cases p) (auto simp: startswith_def)

lemma normalize_shape:
  obtains (same) "normalize_postgresql_url_for_alembic url = url"
  | (replaced) a t where "is_scheme a" "url = a @ '':'' @ ''//'' @ t"
      "normalize_postgresql_url_for_alembic url = ''postgresql+psycopg'' @ '':'' @ ''//'' @ t"
proof (cases "startswith url ''postgresql+asyncpg://''")
  case True
  then obtain t where t: "url = ''postgresql+asyncpg://'' @ t" unfolding startswith_iff by blast
  then have "normalize_postgresql_url_for_alembic url = ''postgresql+psycopg://'' @ t"
    unfolding normalize_postgresql_url_for_alembic_def using True by (simp only: if_True replace_first_prefix) simp
  then show thesis using t that(2)[of "''postgresql+asyncpg''" t]
    by (simp add: is_scheme_def is_scheme_char_def is_ascii_letter_def is_digit_def code_point_def Let_def)
next
  case A: False
  show thesis
  proof (cases "startswith url ''postgresql://''")
    case True
    then obtain t where t: "url = ''postgresql://'' @ t" unfolding startswith_iff by blast
    then have "normalize_postgresql_url_for_alembic url = ''postgresql+psycopg://'' @ t"
      unfolding normalize_postgresql_url_for_alembic_def using A True by (simp only: if_True if_False replace_first_prefix) simp
    then show thesis using t that(2)[of "''postgresql''" t]
      by (simp add: is_scheme_def is_scheme_char_def is_ascii_letter_def is_digit_def code_point_def Let_def)
  next
    case B: False
    show thesis
    proof (cases "startswith url ''postgres://''")
      case True
      then obtain t where t: "url = ''postgres://'' @ t" unfolding startswith_iff by blast
      then have "normalize_postgresql_url_for_alembic url = ''postgresql+psycopg://'' @ t"
        unfolding normalize_postgresql_url_for_alembic_def using A B True
        by (simp only: if_True if_False replace_first_prefix) simp
      then show thesis using t that(2)[of "''postgres''" t]
        by (simp add: is_scheme_def is_scheme_char_def is_ascii_letter_def is_digit_def code_point_def Let_def)
    qed (use A B that(1) in \<open>simp add: normalize_postgresql_url_for_alembic_def\<close>)
  qed
qed

section \<open>Properties\<close>

lemma takeWhile_takeWhile: "takeWhile Q (takeWhile P xs) = takeWhile (\<lambda>x. P x \<and> Q x) xs"
  by (induction xs) auto

lemma takeWhile_stop: "(\<forall>x\<in>set a. P x) \<Longrightarrow> b = [] \<or> \<not> P (hd b) \<Longrightarrow> takeWhile P (a @ b) = a"
  by (induction a) (cases b; auto)+

definition rendered_netloc :: "string \<Rightarrow> string \<Rightarrow> string \<Rightarrow> nat \<Rightarrow> string" where
  "rendered_netloc user pw host port = (user @ '':'' @ pw) @ ''@'' @ host @ '':'' @ show_nat port"

lemma show_nat_free: "\<not> is_digit c \<Longrightarrow> c \<notin> set (show_nat n)"
  by (auto dest: show_nat_digits)

lemma delimiter_not_digit: "c \<in> set '':@/?#[]%'' \<Longrightarrow> \<not> is_digit c"
  by (auto simp: is_digit_def code_point_def)

lemmas delimiter_free = show_nat_free[OF delimiter_not_digit]

lemma digit_over_32: "c \<in> set (show_nat n) \<Longrightarrow> 32 < code_point c"
  by (drule show_nat_digits) (simp add: is_digit_def)

lemma free_of_over: "free_of delims s \<Longrightarrow> \<forall>c\<in>set s. 32 < code_point c"
  by (simp add: free_of_def)

lemma mark_over_32: "32 < code_point CHR ''/''" "32 < code_point CHR '':''" "32 < code_point CHR ''@''"
  by (simp_all add: code_point_def)

lemma filter_over_32: "\<forall>c\<in>set s. 32 < code_point c \<Longrightarrow> filter (\<lambda>c. code_point c \<notin> {9, 10, 13}) s = s"
  by (auto simp: filter_id_conv)

lemma target_of_rendered:
  assumes user: "free_of '':/?#[]'' user" and host: "free_of '':@/?#[]%'' host" "host \<noteq> []"
    and port: "0 < port" "port \<le> 65535" and db: "db \<noteq> []" "hd db \<noteq> CHR ''/''"
  shows "target_of \<lparr>url_scheme = s, url_netloc = rendered_netloc user pw host port, url_path = CHR ''/'' # db\<rparr> =
    Inr (user, lower host, port, db)"
proof -
  have at: "CHR ''@'' \<notin> set (host @ '':'' @ show_nat port)"
    using free_ofD[OF host(1)] by (simp add: delimiter_free)
  have open': "CHR ''['' \<notin> set (host @ '':'' @ show_nat port)"
    using free_ofD[OF host(1)] by (simp add: delimiter_free)
  have len: "length (show_nat port) \<le> max_int_digits"
    using show_nat_length[of 5 port] port by (simp add: max_int_digits_def)
  let ?u = "\<lparr>url_scheme = s, url_netloc = rendered_netloc user pw host port, url_path = CHR ''/'' # db\<rparr>"
  have cut: "rpartition_at CHR ''@'' (rendered_netloc user pw host port) =
      (user @ '':'' @ pw, True, host @ '':'' @ show_nat port)"
    using rpartition_at_found[OF at, of "user @ '':'' @ pw"] by (simp add: rendered_netloc_def)
  have info: "hostinfo ?u = (host, show_nat port)"
    using partition_at_missing[OF open'] partition_at_found[of "CHR '':''" host "show_nat port"] free_ofD[OF host(1)]
    by (simp add: hostinfo_def cut)
  have name: "url_username ?u = Some user"
    using partition_at_found[of "CHR '':''" user pw] free_ofD[OF user] by (simp add: url_username_def cut)
  have "partition_at CHR ''%'' host = (host, False, [])"
    using free_ofD[OF host(1)] by simp
  then have hn: "url_hostname ?u = Some (lower host)"
    using host(2) by (simp add: url_hostname_def info)
  have "list_all is_digit (show_nat port)" by (auto simp: list_all_iff dest: show_nat_digits)
  then have pt: "url_port ?u = Inr (Some port)"
    using port(2) len by (simp add: url_port_def info)
  have "dropWhile (\<lambda>c. c = CHR ''/'') (''/'' @ db) = db" using db by (cases db) auto
  then show ?thesis using name hn pt port(1) db(1) by (simp add: target_of_def Let_def)
qed

text \<open>
  Property C24. A database URL put together from its parts is read back: user, host in lower
  case, port and database are the ones it was made of, whatever the password contains short
  of \<open>/ ? # [ ]\<close> and whatever query or fragment follows.
\<close>

theorem rendered_url_is_read_back:
  assumes "is_scheme sch" and "free_of '':/?#[]'' user" and "free_of ''/?#[]'' pw"
    and "free_of '':@/?#[]%'' host" and "host \<noteq> []" and "0 < port" and "port \<le> 65535"
    and "free_of ''?#'' db" and "db \<noteq> []" and "hd db \<noteq> CHR ''/''"
    and "\<forall>c\<in>set query. 32 < code_point c" and "query = [] \<or> hd query \<in> {CHR ''?'', CHR ''#''}"
  shows "describe_database_target
      (sch @ ''://'' @ user @ '':'' @ pw @ ''@'' @ host @ '':'' @ show_nat port @ ''/'' @ db @ query) =
    Inr (user, lower host, port, db)"
proof -
  let ?nl = "rendered_netloc user pw host port" and ?tail = "''/'' @ db @ query"
  have over: "\<forall>c\<in>set (''//'' @ ?nl @ ?tail). 32 < code_point c"
    using free_of_over[OF assms(2)] free_of_over[OF assms(3)] free_of_over[OF assms(4)]
      free_of_over[OF assms(8)] assms(11)
    by (simp add: rendered_netloc_def ball_Un digit_over_32 mark_over_32)
  have "filter (\<lambda>c. code_point c \<notin> {9, 10, 13}) (''//'' @ ?nl @ ?tail) = ''//'' @ ?nl @ ?tail"
    by (rule filter_over_32[OF over])
  then have split: "split_scheme (clean_url (sch @ '':'' @ ''//'' @ ?nl @ ?tail)) = (lower sch, ''//'' @ ?nl @ ?tail)"
    by (simp only: split_scheme_clean[OF assms(1)])
  have free: "c \<notin> set ?nl" if "c \<in> set ''/?#[]''" for c
    using that assms(2-4) delimiter_free[of c port] by (auto simp: rendered_netloc_def dest: free_ofD)
  have nl: "before_any ''/?#'' (?nl @ ?tail) = ?nl"
    unfolding before_any_def by (rule takeWhile_stop) (use free in auto)
  have path: "before_any ''?'' (before_any ''#'' ?tail) = ''/'' @ db"
    unfolding before_any_def takeWhile_takeWhile append_assoc[symmetric]
    by (rule takeWhile_stop) (use assms(8,12) in \<open>auto simp: free_of_def\<close>)
  have "split_location (lower sch) (''//'' @ ?nl @ ?tail) =
      Inr \<lparr>url_scheme = lower sch, url_netloc = ?nl, url_path = ''/'' @ db\<rparr>"
    using nl path free by (simp add: split_location_def startswith_def Let_def)
  then have "describe_database_target (sch @ '':'' @ ''//'' @ ?nl @ ?tail) = Inr (user, lower host, port, db)"
    unfolding describe_database_target_def urlsplit_def split prod.case
    using target_of_rendered[OF assms(2,4,5,6,7,9,10)] by simp
  then show ?thesis by (simp add: rendered_netloc_def)
qed

theorem rendered_url_is_read_back_witness:
  "describe_database_target
      (''postgresql+asyncpg'' @ ''://'' @ ''billing'' @ '':'' @ ''p@ss:word'' @ ''@'' @ ''DB.internal'' @ '':'' @
       show_nat 5433 @ ''/'' @ ''billing_db'' @ ''?ssl=require'') =
    Inr (''billing'', lower ''DB.internal'', 5433, ''billing_db'')"
  by (rule rendered_url_is_read_back)
     (simp_all add: is_scheme_def is_scheme_char_def is_ascii_letter_def is_digit_def free_of_def code_point_def Let_def)

lemma normalize_psycopg: "normalize_postgresql_url_for_alembic (''postgresql+psycopg'' @ '':'' @ t) =
    ''postgresql+psycopg'' @ '':'' @ t"
  by (simp add: normalize_postgresql_url_for_alembic_def startswith_def)

lemma normalize_prefixes:
  "normalize_postgresql_url_for_alembic (''postgresql+asyncpg://'' @ rest) = ''postgresql+psycopg://'' @ rest"
  "normalize_postgresql_url_for_alembic (''postgresql://'' @ rest) = ''postgresql+psycopg://'' @ rest"
  "normalize_postgresql_url_for_alembic (''postgres://'' @ rest) = ''postgresql+psycopg://'' @ rest"
  by (simp_all add: normalize_postgresql_url_for_alembic_def startswith_def)

text \<open>
  Property C25. The driver is all the normaliser changes. The three schemes of PostgreSQL URLs
  that do not name the synchronous driver (\<open>postgresql+asyncpg\<close>, \<open>postgresql\<close> and \<open>postgres\<close>)
  become \<open>postgresql+psycopg\<close>, and every character behind the scheme (user, password, host,
  path and query) stays; every other URL is returned as it is. The result describes the same
  user, host, port and database, is accepted or refused by the validation for the same reason,
  and is left alone when it is normalised again.
\<close>

theorem normalizing_keeps_the_target:
  "normalize_postgresql_url_for_alembic (''postgresql+asyncpg://'' @ rest) = ''postgresql+psycopg://'' @ rest \<and>
   normalize_postgresql_url_for_alembic (''postgresql://'' @ rest) = ''postgresql+psycopg://'' @ rest \<and>
   normalize_postgresql_url_for_alembic (''postgres://'' @ rest) = ''postgresql+psycopg://'' @ rest \<and>
   (startswith url ''postgresql+asyncpg://'' \<or> startswith url ''postgresql://'' \<or> startswith url ''postgres://'' \<or>
    normalize_postgresql_url_for_alembic url = url) \<and>
   describe_database_target (normalize_postgresql_url_for_alembic url) = describe_database_target url \<and>
   validate_runtime_database_url (normalize_postgresql_url_for_alembic url) d u =
     validate_runtime_database_url url d u \<and>
   normalize_postgresql_url_for_alembic (normalize_postgresql_url_for_alembic url) =
     normalize_postgresql_url_for_alembic url"
proof (intro conjI)
  show "startswith url ''postgresql+asyncpg://'' \<or> startswith url ''postgresql://'' \<or>
      startswith url ''postgres://'' \<or> normalize_postgresql_url_for_alembic url = url"
    by (simp add: normalize_postgresql_url_for_alembic_def)
  have "describe_database_target (normalize_postgresql_url_for_alembic url) = describe_database_target url \<and>
     validate_runtime_database_url (normalize_postgresql_url_for_alembic url) d u =
       validate_runtime_database_url url d u \<and>
     normalize_postgresql_url_for_alembic (normalize_postgresql_url_for_alembic url) =
       normalize_postgresql_url_for_alembic url"
  proof (cases rule: normalize_shape[of url])
    case same
    then show ?thesis by simp
  next
    case (replaced a t)
    let ?n = "normalize_postgresql_url_for_alembic url"
    have "is_scheme ''postgresql+psycopg''"
      by (simp add: is_scheme_def is_scheme_char_def is_ascii_letter_def is_digit_def code_point_def Let_def)
    then have target: "describe_database_target ?n = describe_database_target url"
      unfolding replaced(3) by (subst replaced(2), rule describe_any_scheme) (rule replaced(1))
    have "\<not> is_space CHR '':''" by (simp add: is_space_def code_point_def)
    then have "(strip ?n = []) = (strip url = [])" unfolding replaced(3) strip_Nil_iff by (subst replaced(2)) simp
    then have "validate_runtime_database_url ?n d u = validate_runtime_database_url url d u"
      unfolding validate_runtime_database_url_def target by simp
    then show ?thesis using target replaced(3) normalize_psycopg[of "''//'' @ t"] by simp
  qed
  then show "describe_database_target (normalize_postgresql_url_for_alembic url) = describe_database_target url"
    and "validate_runtime_database_url (normalize_postgresql_url_for_alembic url) d u =
       validate_runtime_database_url url d u"
    and "normalize_postgresql_url_for_alembic (normalize_postgresql_url_for_alembic url) =
       normalize_postgresql_url_for_alembic url" by simp_all
qed (rule normalize_prefixes)+

text \<open>
  Property C26. An accepted database URL is inside the service's boundary: the database and the
  user are the expected ones, the host is named and is none of the placeholders, and the port
  is between 1 and 65535.
\<close>

theorem accepted_url_is_inside_the_boundary:
  assumes "validate_runtime_database_url url (Some d) (Some u) = Inr (host, port, database, username)"
    and "d \<noteq> []" and "u \<noteq> []"
  shows "database = d \<and> username = u \<and> host \<noteq> [] \<and> lower (strip host) \<notin> set placeholder_hosts \<and>
    1 \<le> port \<and> port \<le> 65535"
proof -
  have target: "describe_database_target url = Inr (username, host, port, database)"
    and rest: "host \<noteq> []" "lower (strip host) \<notin> set placeholder_hosts"
      "\<not> mismatch (Some d) database" "\<not> mismatch (Some u) username"
    using assms(1) by (auto simp: validate_runtime_database_url_def bind_sum_def split: if_splits sum.splits)
  obtain v p where "url_port v = Inr p" and "port = (case p of None \<Rightarrow> 5432 | Some n \<Rightarrow> if n = 0 then 5432 else n)"
    using target by (auto simp: describe_database_target_def target_of_def bind_sum_def Let_def split: sum.splits)
  then have "1 \<le> port \<and> port \<le> 65535"
    by (auto simp: url_port_def Let_def split: if_splits option.splits)
  then show ?thesis using rest assms(2,3) by (simp add: mismatch_def)
qed

definition sample_database_url :: string where
  "sample_database_url = ''postgresql+asyncpg://bill:pw@db:7/bills?ssl=require''"

lemma sample_url_accepted:
  "validate_runtime_database_url sample_database_url (Some ''bills'') (Some ''bill'') =
     Inr (''db'', 7, ''bills'', ''bill'')"
proof -
  let ?u = "\<lparr>url_scheme = ''postgresql+asyncpg'', url_netloc = ''bill:pw@db:7'', url_path = ''/bills''\<rparr>"
  have "urlsplit sample_database_url = Inr ?u" by code_simp
  moreover have "hostinfo ?u = (''db'', ''7'')" "url_username ?u = Some ''bill''" "url_hostname ?u = Some ''db''"
    by code_simp+
  moreover from this(1) have "url_port ?u = Inr (Some 7)"
    by (simp add: url_port_def max_int_digits_def is_digit_def digits_val_def digit_val_def code_point_def)
  ultimately have target: "describe_database_target sample_database_url = Inr (''bill'', ''db'', 7, ''bills'')"
    by (simp add: describe_database_target_def target_of_def)
  have "strip sample_database_url \<noteq> []" "lower (strip ''db'') \<notin> set placeholder_hosts" by code_simp+
  then show ?thesis by (simp add: validate_runtime_database_url_def target mismatch_def)
qed

theorem accepted_url_is_inside_the_boundary_witness:
  "case validate_runtime_database_url sample_database_url (Some ''bills'') (Some ''bill'') of
     Inl x \<Rightarrow> False
   | Inr (host, port, database, username) \<Rightarrow>
       database = ''bills'' \<and> username = ''bill'' \<and> host \<noteq> [] \<and> lower (strip host) \<notin> set placeholder_hosts \<and>
       1 \<le> port \<and> port \<le> 65535"
  using accepted_url_is_inside_the_boundary[OF sample_url_accepted] sample_url_accepted by simp

text \<open>
  The service has two normalisers and they disagree. The readiness probe keeps the option
  \<open>ssl=require\<close>, which belongs to the replaced driver, where the repositories rename it; and
  the repositories leave a plain \<open>postgresql://\<close> alone, where the probe names the driver.
\<close>

lemma normalisers_disagree:
  "normalize_postgresql_url_for_alembic sample_database_url =
     ''postgresql+psycopg://bill:pw@db:7/bills?ssl=require''"
  "normalize_sync_database_url sample_database_url =
     ''postgresql+psycopg://bill:pw@db:7/bills?sslmode=require''"
  "normalize_sync_database_url ''postgresql://u:p@db/billing'' = ''postgresql://u:p@db/billing''"
  "normalize_postgresql_url_for_alembic ''postgresql://u:p@db/billing'' = ''postgresql+psycopg://u:p@db/billing''"
  by code_simp+

end
