(* ===== verification/Prepare_Env.thy ===== *)
theory Prepare_Env
  imports Database_Url Py_Input Json_Proofs Config
begin

text \<open>
  \<open>scripts/deploy/prepare_env.py\<close>: checks and normalises the \<open>.env\<close> file of a deployment in
  place. A file is its bytes, or \<open>None\<close> when there is none. The dictionary of values is a map:
  nothing in the script depends on its order. A function of the script that raises leaves what it
  wrote to the dictionary, but the file is only written at the end.
\<close>

section \<open>The contract of the file\<close>

definition required_boolean_fields :: "string list" where
  "required_boolean_fields = [''LOG_JSON'']"

definition optional_boolean_defaults :: "(string \<times> string) list" where
  "optional_boolean_defaults = [(''SMTP_USE_TLS'', ''false''), (''SMTP_USE_AUTH'', ''false'')]"

definition required_positive_integer_fields :: "string list" where
  "required_positive_integer_fields =
     [''HEALTHCHECK_TIMEOUT_SECONDS'', ''APPROVAL_TOKEN_TTL_MINUTES'', ''JWT_EXPIRATION_MINUTES'']"

definition optional_positive_integer_defaults :: "(string \<times> string) list" where
  "optional_positive_integer_defaults = [(''SMTP_PORT'', ''587''), (''SMTP_TIMEOUT_SECONDS'', ''10'')]"

definition required_text_fields :: "string list" where
  "required_text_fields =
     [''APP_NAME'', ''APP_VERSION'', ''ENVIRONMENT'', ''LOG_LEVEL'', ''LOG_JSON'', ''DATABASE_URL'',
      ''APP_BASE_URL'', ''CORS_ALLOWED_ORIGINS'', ''TRUSTED_HOSTS'', ''JWT_ALGORITHM'']"

definition valid_environments :: "string list" where
  "valid_environments = [''development'', ''test'', ''staging'', ''production'']"

definition valid_email_providers :: "string list" where
  "valid_email_providers = [''SMTP'', ''NOOP'']"

section \<open>Reading the file\<close>

type_synonym env_values = "string \<rightharpoonup> string"

datatype env_entry = Raw_Line string | Key_Line string

fun classify :: "string \<Rightarrow> env_entry" where
  "classify raw =
     (let stripped = strip raw in
      if stripped = [] \<or> startswith stripped ''#'' \<or> CHR ''='' \<notin> set raw then Raw_Line raw
      else Key_Line (strip (fst (partition_at CHR ''='' raw))))"

declare classify.simps [simp del]

fun load_line :: "string \<Rightarrow> env_entry list \<times> env_values \<Rightarrow> env_entry list \<times> env_values" where
  "load_line raw (entries, values) =
     (case classify raw of
        Raw_Line l \<Rightarrow> (entries @ [Raw_Line l], values)
      | Key_Line k \<Rightarrow> (entries @ [Key_Line k], values(k \<mapsto> strip (snd (snd (partition_at CHR ''='' raw))))))"

definition load_lines :: "string list \<Rightarrow> env_entry list \<times> env_values" where
  "load_lines ls = foldl (\<lambda>acc raw. load_line raw acc) ([], Map.empty) ls"

definition load_env_file :: "string \<Rightarrow> string option \<Rightarrow> py_error + env_entry list \<times> env_values" where
  "load_env_file env_path file =
     (case file of
        None \<Rightarrow> Inl (EnvValidationError (''Missing env file: '' @ env_path))
      | Some bytes \<Rightarrow>
          (case utf8_decode bytes of
             None \<Rightarrow> Inl (ValueError ''invalid utf-8'')
           | Some content \<Rightarrow> Inr (load_lines (splitlines content))))"

section \<open>Checks and normalisers\<close>

definition value_of :: "env_values \<Rightarrow> string \<Rightarrow> string" where
  "value_of d k = (case d k of None \<Rightarrow> [] | Some v \<Rightarrow> v)"

definition item_of :: "env_values \<Rightarrow> string \<Rightarrow> py_error + string" where
  "item_of d k = (case d k of None \<Rightarrow> Inl (KeyError k) | Some v \<Rightarrow> Inr v)"

definition set_value :: "string \<Rightarrow> string \<Rightarrow> (env_values, unit) exec" where
  "set_value k v = writes (\<lambda>d. d(k \<mapsto> v))"

definition invalid :: "string \<Rightarrow> (env_values, 'a) exec" where
  "invalid message = raise (EnvValidationError message)"

definition require_non_empty :: "string \<Rightarrow> (env_values, string) exec" where
  "require_non_empty key =
     andthen (reads (\<lambda>d. strip (value_of d key))) (\<lambda>value.
       if value = [] then invalid (key @ '' is required.'') else ret value)"

definition require_any :: "string list \<Rightarrow> string \<Rightarrow> (env_values, unit) exec" where
  "require_any keys label =
     andthen (reads (\<lambda>d. list_ex (\<lambda>k. strip (value_of d k) \<noteq> []) keys)) (\<lambda>found.
       if found then ret ()
       else invalid (label @ '' is required ('' @ join '' or '' keys @ '').''))"

definition normalize_boolean :: "string \<Rightarrow> (env_values, bool) exec" where
  "normalize_boolean key =
     andthen (require_non_empty key) (\<lambda>raw.
       let raw_value = lower raw in
       if raw_value \<notin> {''true'', ''false''} then invalid (key @ '' must be true or false.'')
       else andthen (set_value key raw_value) (\<lambda>_. ret (raw_value = ''true'')))"

definition normalize_positive_integer :: "string \<Rightarrow> (env_values, unit) exec" where
  "normalize_positive_integer key =
     andthen (reads (\<lambda>d. strip (value_of d key))) (\<lambda>raw_value.
       if raw_value = [] then ret ()
       else case py_int raw_value of
              None \<Rightarrow> invalid (key @ '' must be an integer.'')
            | Some number \<Rightarrow>
                if number \<le> 0 then invalid (key @ '' must be greater than zero.'')
                else set_value key (show_int number))"

definition normalize_optional_boolean :: "string \<Rightarrow> string \<Rightarrow> (env_values, bool) exec" where
  "normalize_optional_boolean key preset =
     andthen (reads (\<lambda>d. (d key, lower (strip (value_of d key))))) (\<lambda>(present, raw_value).
       if raw_value = [] then
         andthen (if present \<noteq> None then set_value key preset else ret ()) (\<lambda>_. ret (preset = ''true''))
       else if raw_value \<notin> {''true'', ''false''} then invalid (key @ '' must be true or false.'')
       else andthen (set_value key raw_value) (\<lambda>_. ret (raw_value = ''true'')))"

definition normalize_optional_positive_integer :: "string \<Rightarrow> string \<Rightarrow> (env_values, unit) exec" where
  "normalize_optional_positive_integer key preset =
     andthen (reads (\<lambda>d. (d key, strip (value_of d key)))) (\<lambda>(present, raw_value).
       if raw_value = [] then (if present \<noteq> None then set_value key preset else ret ())
       else normalize_positive_integer key)"

definition validate_database_url :: "(env_values, unit) exec" where
  "validate_database_url =
     andthen (require_non_empty ''DATABASE_URL'') (\<lambda>database_url.
       if \<not> (startswith database_url ''postgresql://'' \<or> startswith database_url ''postgresql+asyncpg://'')
       then invalid ''DATABASE_URL must start with postgresql:// or postgresql+asyncpg://.''
       else andthen (reads (\<lambda>d. (d ''EXPECTED_DATABASE_NAME'', d ''EXPECTED_DATABASE_USERNAME''))) (\<lambda>(name, user).
         case validate_runtime_database_url database_url
           (Some (case name of None \<Rightarrow> ''billing_service_db'' | Some n \<Rightarrow> n))
           (Some (case user of None \<Rightarrow> ''billing_service_user'' | Some u \<Rightarrow> u)) of
           Inr _ \<Rightarrow> ret ()
         | Inl x \<Rightarrow> if is_value_error x then invalid (str_error x) else raise x))"

definition validate_app_base_url :: "(env_values, unit) exec" where
  "validate_app_base_url =
     andthen (require_non_empty ''APP_BASE_URL'') (\<lambda>url.
     andthen (from_result (urlsplit url)) (\<lambda>parsed.
       if url_scheme parsed = [] \<or> url_netloc parsed = []
       then invalid ''APP_BASE_URL must be a valid absolute URL.'' else ret ()))"

definition normalize_list_field :: "(string \<Rightarrow> string) \<Rightarrow> string \<Rightarrow> (env_values, unit) exec" where
  "normalize_list_field flt key =
     andthen (require_non_empty key) (\<lambda>raw_value.
     andthen
       (if startswith raw_value ''['' then
          (case loads flt raw_value of
             Inl x \<Rightarrow> (case x of JSONDecodeError _ \<Rightarrow> invalid (key @ '' must be a valid JSON array.'') | _ \<Rightarrow> raise x)
           | Inr parsed \<Rightarrow>
               (case parsed of
                  JArr xs \<Rightarrow> ret (nonblank (map str_json xs))
                | _ \<Rightarrow> invalid (key @ '' must be a JSON array.'')))
        else ret (nonblank (split_on CHR '','' raw_value))) (\<lambda>items.
       if items = [] then invalid (key @ '' must contain at least one value.'')
       else set_value key (dumps_compact (JArr (map JStr items)))))"

definition validate_environment :: "(env_values, unit) exec" where
  "validate_environment =
     andthen (require_non_empty ''ENVIRONMENT'') (\<lambda>raw.
       let environment = lower raw in
       if environment \<notin> set valid_environments
       then invalid ''ENVIRONMENT must be one of: development, test, staging, production.''
       else set_value ''ENVIRONMENT'' environment)"

definition normalize_email_provider :: "(env_values, string) exec" where
  "normalize_email_provider =
     andthen (reads (\<lambda>d. upper (strip (case d ''EMAIL_PROVIDER'' of None \<Rightarrow> ''SMTP'' | Some v \<Rightarrow> v)))) (\<lambda>p.
       let provider = (if p = [] then ''SMTP'' else p) in
       if provider \<notin> set valid_email_providers then invalid ''EMAIL_PROVIDER must be SMTP or NOOP.''
       else andthen (set_value ''EMAIL_PROVIDER'' provider) (\<lambda>_. ret provider))"

definition validate_secret_contract :: "(env_values, unit) exec" where
  "validate_secret_contract =
     andthen (require_any [''APPROVAL_TOKEN_SECRET'', ''APPROVAL_TOKEN_SECRET_FILE''] ''Approval token secret'') (\<lambda>_.
     andthen (require_any [''JWT_SECRET'', ''JWT_SECRET_FILE''] ''JWT secret'') (\<lambda>_.
       require_any [''CUSTOMER_JWT_SECRET'', ''CUSTOMER_JWT_SECRET_FILE''] ''Customer JWT secret''))"

definition validate_required_text_fields :: "(env_values, unit) exec" where
  "validate_required_text_fields = for_each require_non_empty required_text_fields"

section \<open>Writing the file\<close>

fun entry_line :: "env_values \<Rightarrow> env_entry \<Rightarrow> string" where
  "entry_line values (Raw_Line l) = l"
| "entry_line values (Key_Line k) = k @ ''='' @ value_of values k"

definition rewrite_env_file :: "env_entry list \<Rightarrow> env_values \<Rightarrow> string" where
  "rewrite_env_file entries values = utf8_encode (write_lines (map (entry_line values) entries))"

section \<open>The script\<close>

definition prepare_values :: "(string \<Rightarrow> string) \<Rightarrow> (env_values, unit) exec" where
  "prepare_values flt =
     andthen validate_required_text_fields (\<lambda>_.
     andthen validate_environment (\<lambda>_.
     andthen normalize_email_provider (\<lambda>_.
     andthen (for_each normalize_boolean required_boolean_fields) (\<lambda>_.
     andthen (for_each (\<lambda>(key, preset). normalize_optional_boolean key preset) optional_boolean_defaults) (\<lambda>_.
     andthen (for_each normalize_positive_integer required_positive_integer_fields) (\<lambda>_.
     andthen (for_each (\<lambda>(key, preset). normalize_optional_positive_integer key preset)
       optional_positive_integer_defaults) (\<lambda>_.
     andthen validate_database_url (\<lambda>_.
     andthen validate_app_base_url (\<lambda>_.
     andthen (normalize_list_field flt ''CORS_ALLOWED_ORIGINS'') (\<lambda>_.
     andthen (normalize_list_field flt ''TRUSTED_HOSTS'') (\<lambda>_.
     andthen validate_secret_contract (\<lambda>_.
     andthen (\<lambda>d. (item_of d ''LOG_LEVEL'', d)) (\<lambda>level.
       set_value ''LOG_LEVEL'' (upper level))))))))))))))"

text \<open>The new bytes of the file.\<close>

definition prepare_env :: "(string \<Rightarrow> string) \<Rightarrow> string \<Rightarrow> string option \<Rightarrow> py_error + string" where
  "prepare_env flt env_path file =
     bind_sum (load_env_file env_path file) (\<lambda>(entries, values).
       case prepare_values flt values of
         (Inl x, _) \<Rightarrow> Inl x
       | (Inr _, values') \<Rightarrow> Inr (rewrite_env_file entries values'))"

text \<open>The exit code, what is printed, and the file afterwards.\<close>

definition prepare_main ::
    "(string \<Rightarrow> string) \<Rightarrow> string \<Rightarrow> string option \<Rightarrow> py_error + int \<times> string \<times> string option" where
  "prepare_main flt env_path file =
     (case prepare_env flt env_path file of
        Inr out \<Rightarrow> Inr (0, ''Prepared env file: '' @ env_path, Some out)
      | Inl (EnvValidationError m) \<Rightarrow> Inr (1, ''::error::'' @ m, file)
      | Inl x \<Rightarrow> Inl x)"

section \<open>What a successful step leaves behind\<close>

definition filled :: "env_values \<Rightarrow> string \<Rightarrow> bool" where
  "filled d k \<longleftrightarrow> strip (value_of d k) \<noteq> []"

definition clean :: "string \<Rightarrow> bool" where
  "clean s \<longleftrightarrow> strip s = s \<and> no_break s"

definition clean_map :: "env_values \<Rightarrow> bool" where
  "clean_map d \<longleftrightarrow> (\<forall>k s. d k = Some s \<longrightarrow> clean s)"

text \<open>
  \<open>step W F R N m\<close>: when \<open>m\<close> succeeds it has written keys in \<open>W\<close> only and added none, the keys
  in \<open>F\<close> are filled and the normal form \<open>N\<close>, which looks at the keys in \<open>R\<close>, holds; and in a
  state with the normal form and the keys in \<open>F\<close> filled it succeeds and changes nothing.
\<close>

definition changes :: "string set \<Rightarrow> env_values \<Rightarrow> env_values \<Rightarrow> bool" where
  "changes W d d' \<longleftrightarrow> (\<forall>k. k \<notin> W \<longrightarrow> d' k = d k) \<and> dom d' = dom d \<and> (\<forall>k. filled d k \<longrightarrow> filled d' k) \<and>
     (clean_map d \<longrightarrow> clean_map d')"

definition step :: "string set \<Rightarrow> string set \<Rightarrow> string set \<Rightarrow> (env_values \<Rightarrow> bool) \<Rightarrow> (env_values, 'a) exec \<Rightarrow> bool" where
  "step W F R N m \<longleftrightarrow>
     (\<forall>d x d'. m d = (Inr x, d') \<longrightarrow> changes W d d' \<and> N d' \<and> (\<forall>k\<in>F. filled d' k)) \<and>
     (\<forall>d. N d \<longrightarrow> (\<forall>k\<in>F. filled d k) \<longrightarrow> (\<exists>x. m d = (Inr x, d))) \<and>
     (\<forall>d e. (\<forall>k\<in>R. e k = d k) \<longrightarrow> N d \<longrightarrow> N e)"

lemma stepI:
  assumes "\<And>d x d'. m d = (Inr x, d') \<Longrightarrow> changes W d d' \<and> N d' \<and> (\<forall>k\<in>F. filled d' k)"
    and "\<And>d. N d \<Longrightarrow> (\<forall>k\<in>F. filled d k) \<Longrightarrow> \<exists>x. m d = (Inr x, d)"
    and "\<And>d e. (\<forall>k\<in>R. e k = d k) \<Longrightarrow> N d \<Longrightarrow> N e"
  shows "step W F R N m"
  unfolding step_def using assms by metis

lemma step_success: "step W F R N m \<Longrightarrow> m d = (Inr x, d') \<Longrightarrow> changes W d d' \<and> N d' \<and> (\<forall>k\<in>F. filled d' k)"
  unfolding step_def by blast

lemma step_fixed: "step W F R N m \<Longrightarrow> N d \<Longrightarrow> (\<forall>k\<in>F. filled d k) \<Longrightarrow> \<exists>x. m d = (Inr x, d)"
  unfolding step_def by blast

lemma step_local: "step W F R N m \<Longrightarrow> (\<forall>k\<in>R. e k = d k) \<Longrightarrow> N d \<Longrightarrow> N e"
  unfolding step_def by blast

lemma changes_refl [simp]: "changes W d d"
  by (simp add: changes_def)

lemma changes_trans: "changes V d d1 \<Longrightarrow> changes W d1 d2 \<Longrightarrow> changes (V \<union> W) d d2"
  by (simp add: changes_def)

lemma changes_set:
  assumes "k \<in> dom d" and "strip v \<noteq> [] \<or> \<not> filled d k" and "clean_map d \<longrightarrow> clean v"
  shows "changes {k} d (d(k \<mapsto> v))"
  using assms by (auto simp: changes_def filled_def value_of_def clean_map_def)

lemma step_andthen:
  assumes 1: "step W1 F1 R1 N1 m1" and 2: "step W2 F2 R2 N2 m2" and disjoint: "W2 \<inter> R1 = {}"
  shows "step (W1 \<union> W2) (F1 \<union> F2) (R1 \<union> R2) (\<lambda>d. N1 d \<and> N2 d) (andthen m1 (\<lambda>_. m2))"
proof (rule stepI)
  fix d x d'
  assume "andthen m1 (\<lambda>_. m2) d = (Inr x, d')"
  then obtain y d1 where r: "m1 d = (Inr y, d1)" "m2 d1 = (Inr x, d')" by (rule andthen_InrE)
  note s1 = step_success[OF 1 r(1)] and s2 = step_success[OF 2 r(2)]
  have "\<forall>k\<in>R1. d' k = d1 k" using s2 disjoint unfolding changes_def by blast
  then have "N1 d'" using step_local[OF 1] s1 by blast
  moreover have "\<forall>k\<in>F1. filled d' k" using s1 s2 unfolding changes_def by blast
  ultimately show "changes (W1 \<union> W2) d d' \<and> (N1 d' \<and> N2 d') \<and> (\<forall>k\<in>F1 \<union> F2. filled d' k)"
    using s1 s2 by (auto intro: changes_trans)
next
  fix d assume n: "N1 d \<and> N2 d" "\<forall>k\<in>F1 \<union> F2. filled d k"
  obtain x where "m1 d = (Inr x, d)" using step_fixed[OF 1] n by blast
  moreover obtain y where "m2 d = (Inr y, d)" using step_fixed[OF 2] n by blast
  ultimately show "\<exists>x. andthen m1 (\<lambda>_. m2) d = (Inr x, d)" by simp
next
  fix d e assume "\<forall>k\<in>R1 \<union> R2. e k = d k" "N1 d \<and> N2 d"
  then show "N1 e \<and> N2 e" using step_local[OF 1] step_local[OF 2] by blast
qed

lemma step_ret: "step {} {} {} (\<lambda>_. True) (ret ())"
  by (rule stepI) auto

text \<open>A check that writes nothing.\<close>

lemma step_check:
  assumes "\<And>d. snd (m d) = d" and "\<And>d e. \<forall>k\<in>R. e k = d k \<Longrightarrow> fst (m e) = fst (m d)"
  shows "step {} {} R (\<lambda>d. \<exists>x. fst (m d) = Inr x) m"
proof (rule stepI)
  fix d x d' assume "m d = (Inr x, d')"
  then show "changes {} d d' \<and> (\<exists>x. fst (m d') = Inr x) \<and> (\<forall>k\<in>{}. filled d' k)"
    using assms(1)[of d] by auto
next
  fix d assume "\<exists>x. fst (m d) = Inr x"
  then show "\<exists>x. m d = (Inr x, d)" using assms(1)[of d] by (cases "m d") auto
qed (use assms(2) in metis)

lemma require_run: "require_non_empty k d =
    ((if filled d k then Inr (strip (value_of d k)) else Inl (EnvValidationError (k @ '' is required.''))), d)"
  by (simp add: require_non_empty_def invalid_def filled_def)

lemma step_require: "step {} {k} {} (\<lambda>_. True) (require_non_empty k)"
  by (rule stepI) (auto simp: require_run split: if_splits)

lemma step_required: "step {} (set ks) {} (\<lambda>_. True) (for_each require_non_empty ks)"
proof (induction ks)
  case (Cons k ks)
  from step_andthen[OF step_require Cons.IH] show ?case by simp
next
  case Nil
  show ?case by (simp only: for_each.simps list.set step_ret)
qed

end
