(* ===== verification/Prepared.thy ===== *)
theory Prepared
  imports Prepare_Env
begin

text \<open>
  What \<open>prepare_env\<close> guarantees: each of its steps leaves the keys it owns in a normal form and
  leaves a normal form alone, so preparing a prepared file changes nothing, and the settings of
  the service accept what it wrote.
\<close>

section \<open>Clean texts\<close>

lemma strip_fix_ends: "strip s = s \<Longrightarrow> s \<noteq> [] \<Longrightarrow> \<not> is_space (hd s) \<and> \<not> is_space (last s)"
  using strip_ends[of s] by auto

lemma break_space: "is_break c \<Longrightarrow> is_space c"
  by (auto simp: is_break_def is_space_def Let_def)

lemma clean_spaceless: "(\<forall>c\<in>set s. \<not> is_space c) \<Longrightarrow> clean s"
  using break_space by (auto simp: clean_def strip_no_space no_break_def list_all_iff)

lemma clean_show_int: "0 < n \<Longrightarrow> clean (show_int n)"
  by (rule clean_spaceless) (auto simp: show_int_def dest: show_nat_digits digit_not_space)

lemma clean_words [simp]:
  "clean ''true''" "clean ''false''" "clean ''development''" "clean ''test''" "clean ''staging''"
  "clean ''production''" "clean ''SMTP''" "clean ''NOOP''"
  by (rule clean_spaceless; simp add: is_space_def code_point_def Let_def)+

lemma strip_words [simp]:
  "strip ''true'' = ''true''" "strip ''false'' = ''false''" "strip ''development'' = ''development''"
  "strip ''test'' = ''test''" "strip ''staging'' = ''staging''" "strip ''production'' = ''production''"
  "strip ''SMTP'' = ''SMTP''" "strip ''NOOP'' = ''NOOP''"
  by (rule clean_words[unfolded clean_def, THEN conjunct1])+

lemma lower_letters [simp]:
  "lower_char CHR ''a'' = CHR ''a''" "lower_char CHR ''b'' = CHR ''b''"
  "lower_char CHR ''c'' = CHR ''c''" "lower_char CHR ''d'' = CHR ''d''"
  "lower_char CHR ''e'' = CHR ''e''" "lower_char CHR ''f'' = CHR ''f''"
  "lower_char CHR ''g'' = CHR ''g''" "lower_char CHR ''h'' = CHR ''h''"
  "lower_char CHR ''i'' = CHR ''i''" "lower_char CHR ''j'' = CHR ''j''"
  "lower_char CHR ''k'' = CHR ''k''" "lower_char CHR ''l'' = CHR ''l''"
  "lower_char CHR ''m'' = CHR ''m''" "lower_char CHR ''n'' = CHR ''n''"
  "lower_char CHR ''o'' = CHR ''o''" "lower_char CHR ''p'' = CHR ''p''"
  "lower_char CHR ''q'' = CHR ''q''" "lower_char CHR ''r'' = CHR ''r''"
  "lower_char CHR ''s'' = CHR ''s''" "lower_char CHR ''t'' = CHR ''t''"
  "lower_char CHR ''u'' = CHR ''u''" "lower_char CHR ''v'' = CHR ''v''"
  "lower_char CHR ''w'' = CHR ''w''" "lower_char CHR ''x'' = CHR ''x''"
  "lower_char CHR ''y'' = CHR ''y''" "lower_char CHR ''z'' = CHR ''z''"
  by code_simp+

lemma upper_words [simp]: "upper ''SMTP'' = ''SMTP''" "upper ''NOOP'' = ''NOOP''"
  by code_simp+

lemma upper_char_kind:
  "x \<in> set (upper_char c) \<Longrightarrow> is_space x = is_space c" "x \<in> set (upper_char c) \<Longrightarrow> is_break x = is_break c"
  "x \<in> set (upper_char c) \<Longrightarrow> upper_char x = [x]"
  by (auto simp: upper_char_def is_space_def is_break_def Let_def code_point_def split: if_splits)

lemma upper_char_nonempty: "upper_char c \<noteq> []"
  by (simp add: upper_char_def Let_def)

lemma upper_idem [simp]: "upper (upper s) = upper s"
proof -
  have "concat (map upper_char t) = t" if "\<forall>x\<in>set t. upper_char x = [x]" for t
    using that by (induction t) auto
  then show ?thesis unfolding upper_def using upper_char_kind(3) by auto
qed

lemma upper_blank: "strip (upper s) = [] \<longleftrightarrow> strip s = []"
  unfolding strip_Nil_iff upper_def using upper_char_kind(1) upper_char_nonempty
  by (auto simp: ball_Un)

lemma upper_clean: "clean s \<Longrightarrow> clean (upper s)"
proof -
  assume c: "clean s"
  have "strip (upper s) = upper s"
  proof (cases "s = []")
    case False
    then have ends: "\<not> is_space (hd s)" "\<not> is_space (last s)"
      using c strip_fix_ends by (auto simp: clean_def)
    obtain a t where "s = a # t" using False by (cases s) auto
    then have h: "upper s \<noteq> []" "hd (upper s) \<in> set (upper_char (hd s))"
      using upper_char_nonempty[of a] by (simp_all add: upper_def)
    obtain u b where "s = u @ [b]" using False by (cases s rule: rev_cases) auto
    then have "last (upper s) \<in> set (upper_char (last s))"
      using upper_char_nonempty[of b] by (simp add: upper_def)
    then show ?thesis using ends h upper_char_kind(1) by (intro strip_id) auto
  qed (simp add: upper_def)
  moreover have "no_break (upper s)"
    using c upper_char_kind(2) by (auto simp: clean_def no_break_def list_all_iff upper_def)
  ultimately show ?thesis by (simp add: clean_def)
qed

section \<open>The steps\<close>

lemma value_of_Some [simp]: "d k = Some v \<Longrightarrow> value_of d k = v"
  by (simp add: value_of_def)

lemma filled_dom: "filled d k \<Longrightarrow> k \<in> dom d"
  by (auto simp: filled_def value_of_def split: option.splits)

lemma dom_value: "k \<in> dom d \<Longrightarrow> d k = Some (value_of d k)"
  by (auto simp: value_of_def)

lemma step_environment:
  "step {''ENVIRONMENT''} {} {''ENVIRONMENT''} (\<lambda>d. \<exists>v\<in>set valid_environments. d ''ENVIRONMENT'' = Some v)
     validate_environment"
proof (rule stepI)
  fix d x d' assume "validate_environment d = (Inr x, d')"
  then obtain v where v: "v \<in> set valid_environments" "d' = d(''ENVIRONMENT'' \<mapsto> v)" "filled d ''ENVIRONMENT''"
    by (auto simp: validate_environment_def andthen_def require_run set_value_def invalid_def Let_def split: if_splits)
  then have "clean v" "strip v \<noteq> []" by (auto simp: valid_environments_def)
  then have "changes {''ENVIRONMENT''} d d'"
    unfolding v(2) by (intro changes_set[OF filled_dom[OF v(3)]]) simp_all
  then show "changes {''ENVIRONMENT''} d d' \<and> (\<exists>v\<in>set valid_environments. d' ''ENVIRONMENT'' = Some v) \<and>
      (\<forall>k\<in>{}. filled d' k)"
    using v by simp
next
  fix d assume "\<exists>v\<in>set valid_environments. d ''ENVIRONMENT'' = Some v"
  then show "\<exists>x. validate_environment d = (Inr x, d)"
    by (auto simp: valid_environments_def validate_environment_def require_run filled_def set_value_def Let_def map_upd_triv)
qed auto

definition truth :: "string set" where
  "truth = {''true'', ''false''}"

lemma truth_clean: "v \<in> truth \<Longrightarrow> clean v \<and> strip v \<noteq> [] \<and> lower (strip v) = v"
  by (auto simp: truth_def)

lemma step_boolean:
  "step {k} {} {k} (\<lambda>d. \<exists>v\<in>truth. d k = Some v) (normalize_boolean k)"
proof (rule stepI)
  fix d x d' assume "normalize_boolean k d = (Inr x, d')"
  then obtain v where v: "v \<in> truth" "d' = d(k \<mapsto> v)" "filled d k"
    by (auto simp: normalize_boolean_def andthen_def require_run set_value_def invalid_def truth_def Let_def
        split: if_splits)
  then have "changes {k} d d'"
    unfolding v(2) by (intro changes_set[OF filled_dom[OF v(3)]]) (use truth_clean[OF v(1)] in simp_all)
  then show "changes {k} d d' \<and> (\<exists>v\<in>truth. d' k = Some v) \<and> (\<forall>k\<in>{}. filled d' k)"
    using v by simp
next
  fix d assume "\<exists>v\<in>truth. d k = Some v"
  then show "\<exists>x. normalize_boolean k d = (Inr x, d)"
    by (auto simp: truth_def normalize_boolean_def require_run filled_def set_value_def Let_def map_upd_triv)
qed auto

lemma lower_blank [simp]: "lower s = [] \<longleftrightarrow> s = []"
  by (simp add: lower_def)

lemma step_optional_boolean:
  assumes "preset \<in> truth"
  shows "step {k} {} {k} (\<lambda>d. \<forall>v. d k = Some v \<longrightarrow> v \<in> truth) (normalize_optional_boolean k preset)"
proof (rule stepI)
  fix d x d' assume run: "normalize_optional_boolean k preset d = (Inr x, d')"
  show "changes {k} d d' \<and> (\<forall>v. d' k = Some v \<longrightarrow> v \<in> truth) \<and> (\<forall>k\<in>{}. filled d' k)"
  proof (cases "d k")
    case None
    then have "d' = d" using run by (auto simp: normalize_optional_boolean_def value_of_def)
    then show ?thesis using None by simp
  next
    case (Some s)
    then obtain v where v: "v \<in> truth" "d' = d(k \<mapsto> v)"
      using run assms
      by (auto simp: normalize_optional_boolean_def andthen_def set_value_def invalid_def truth_def split: if_splits)
    then show ?thesis using Some truth_clean[OF v(1)] by (auto intro!: changes_set)
  qed
next
  fix d assume n: "\<forall>v. d k = Some v \<longrightarrow> v \<in> truth"
  show "\<exists>x. normalize_optional_boolean k preset d = (Inr x, d)"
  proof (cases "d k")
    case None
    then show ?thesis by (simp add: normalize_optional_boolean_def value_of_def)
  next
    case (Some v)
    then have "v \<in> truth" using n by blast
    then show ?thesis
      using Some by (auto simp: truth_def normalize_optional_boolean_def set_value_def map_upd_triv)
  qed
qed auto

text \<open>A positive number as the script prints it.\<close>

definition positive_numeral :: "string \<Rightarrow> bool" where
  "positive_numeral s \<longleftrightarrow> (\<exists>n>0. py_int s = Some n \<and> s = show_int n)"

lemma positive_numeral_clean: "positive_numeral s \<Longrightarrow> clean s \<and> strip s \<noteq> []"
proof -
  assume p: "positive_numeral s"
  then have c: "clean s" by (auto simp: positive_numeral_def clean_show_int)
  moreover have "s \<noteq> []" using p by (auto simp: positive_numeral_def py_int_def)
  ultimately show ?thesis by (simp add: clean_def)
qed

lemma positive_integer_run:
  assumes "normalize_positive_integer k d = (Inr x, d')"
  shows "strip (value_of d k) = [] \<and> d' = d \<or>
    (\<exists>s. positive_numeral s \<and> filled d k \<and> d' = d(k \<mapsto> s))"
proof (cases "strip (value_of d k) = []")
  case True
  then show ?thesis using assms by (simp add: normalize_positive_integer_def)
next
  case False
  define s where "s = strip (value_of d k)"
  have run: "(case py_int s of None \<Rightarrow> invalid (k @ '' must be an integer.'')
      | Some number \<Rightarrow> if number \<le> 0 then invalid (k @ '' must be greater than zero.'')
          else set_value k (show_int number)) d = (Inr x, d')"
    using assms False unfolding normalize_positive_integer_def by (simp add: s_def[symmetric] del: strip_Nil_iff)
  then obtain n where n: "py_int s = Some n" "0 < n" "d' = d(k \<mapsto> show_int n)"
    by (cases "py_int s") (auto simp: set_value_def invalid_def split: if_splits)
  then have "positive_numeral (show_int n)"
    using py_int_show_again(1)[OF n(1,2)] by (auto simp: positive_numeral_def)
  then show ?thesis using n(3) False by (auto simp: filled_def)
qed

lemma positive_integer_fixed:
  assumes "d k = Some s" and "positive_numeral s"
  shows "normalize_positive_integer k d = (Inr (), d)"
proof -
  have "strip s = s" using positive_numeral_clean[OF assms(2)] by (simp add: clean_def)
  then show ?thesis
    using assms positive_numeral_clean[OF assms(2)]
    by (auto simp: normalize_positive_integer_def set_value_def positive_numeral_def map_upd_triv)
qed

lemma step_positive_integer:
  "step {k} {} {k} (\<lambda>d. strip (value_of d k) = [] \<or> positive_numeral (value_of d k)) (normalize_positive_integer k)"
proof (rule stepI)
  fix d x d' assume "normalize_positive_integer k d = (Inr x, d')"
  then consider "strip (value_of d k) = []" "d' = d" | s where "positive_numeral s" "filled d k" "d' = d(k \<mapsto> s)"
    by (auto dest: positive_integer_run)
  then show "changes {k} d d' \<and> (strip (value_of d' k) = [] \<or> positive_numeral (value_of d' k)) \<and> (\<forall>k\<in>{}. filled d' k)"
  proof cases
    case (2 s)
    have "changes {k} d d'"
      unfolding 2(3) by (intro changes_set[OF filled_dom[OF 2(2)]]) (use positive_numeral_clean[OF 2(1)] in simp_all)
    then show ?thesis using 2 by simp
  qed simp
next
  fix d assume n: "strip (value_of d k) = [] \<or> positive_numeral (value_of d k)"
  show "\<exists>x. normalize_positive_integer k d = (Inr x, d)"
  proof (cases "strip (value_of d k) = []")
    case False
    then have "d k = Some (value_of d k)" by (intro dom_value filled_dom) (simp add: filled_def)
    then show ?thesis using positive_integer_fixed n False by blast
  qed (simp add: normalize_positive_integer_def)
qed (auto simp: value_of_def)

lemma step_optional_positive_integer:
  assumes "positive_numeral preset"
  shows "step {k} {} {k} (\<lambda>d. \<forall>v. d k = Some v \<longrightarrow> positive_numeral v) (normalize_optional_positive_integer k preset)"
proof (rule stepI)
  fix d x d' assume run: "normalize_optional_positive_integer k preset d = (Inr x, d')"
  show "changes {k} d d' \<and> (\<forall>v. d' k = Some v \<longrightarrow> positive_numeral v) \<and> (\<forall>k\<in>{}. filled d' k)"
  proof (cases "d k")
    case None
    then have "d' = d" using run by (auto simp: normalize_optional_positive_integer_def value_of_def)
    then show ?thesis using None by simp
  next
    case (Some s)
    have "\<exists>v. positive_numeral v \<and> d' = d(k \<mapsto> v)"
    proof (cases "strip s = []")
      case True
      then show ?thesis using run Some assms
        by (auto simp: normalize_optional_positive_integer_def set_value_def)
    next
      case False
      then have "normalize_positive_integer k d = (Inr x, d')"
        using run Some by (simp add: normalize_optional_positive_integer_def)
      from positive_integer_run[OF this] show ?thesis using False Some by auto
    qed
    then show ?thesis using Some by (auto intro!: changes_set dest: positive_numeral_clean)
  qed
next
  fix d assume n: "\<forall>v. d k = Some v \<longrightarrow> positive_numeral v"
  show "\<exists>x. normalize_optional_positive_integer k preset d = (Inr x, d)"
  proof (cases "d k")
    case None
    then show ?thesis by (simp add: normalize_optional_positive_integer_def value_of_def)
  next
    case (Some v)
    then have "positive_numeral v" using n by blast
    then show ?thesis
      using positive_integer_fixed[of d k v] positive_numeral_clean[of v] Some
      by (simp add: normalize_optional_positive_integer_def)
  qed
qed auto

section \<open>Lists\<close>

lemma hex_digit_printable: "n < 16 \<Longrightarrow> 32 \<le> code_point (hex_digit n) \<and> code_point (hex_digit n) \<le> 126"
  by (auto simp: hex_digit_def code_point_def less_Suc_eq numeral_eq_Suc)

definition printable :: "string \<Rightarrow> bool" where
  "printable s \<longleftrightarrow> (\<forall>c\<in>set s. 32 \<le> code_point c \<and> code_point c \<le> 126)"

lemma printable_simps [simp]:
  "printable []" "printable (c # s) \<longleftrightarrow> (32 \<le> code_point c \<and> code_point c \<le> 126) \<and> printable s"
  "printable (s @ t) \<longleftrightarrow> printable s \<and> printable t"
  by (auto simp: printable_def)

lemma printable_no_break: "printable s \<Longrightarrow> no_break s"
  by (fastforce simp: printable_def no_break_def list_all_iff is_break_def Let_def)

lemma escape_printable: "printable (escape_char c)"
proof -
  have "32 \<le> code_point CHR 0x5C \<and> code_point CHR 0x5C \<le> 126" "32 \<le> code_point CHR ''u'' \<and> code_point CHR ''u'' \<le> 126"
    "32 \<le> code_point CHR ''n'' \<and> code_point CHR ''n'' \<le> 126" "32 \<le> code_point CHR ''r'' \<and> code_point CHR ''r'' \<le> 126"
    "32 \<le> code_point CHR ''t'' \<and> code_point CHR ''t'' \<le> 126" "32 \<le> code_point CHR ''f'' \<and> code_point CHR ''f'' \<le> 126"
    "32 \<le> code_point CHR ''b'' \<and> code_point CHR ''b'' \<le> 126"
    by (simp_all add: code_point_def)
  then show ?thesis by (auto simp: escape_char_def Let_def hex4_def hex_digit_printable)
qed

lemma dumps_str_printable: "printable (dumps_str s)"
proof -
  have "printable (concat (map escape_char s))"
    using escape_printable by (induction s) auto
  then show ?thesis by (simp add: dumps_str_def code_point_def)
qed

definition list_text :: "string list \<Rightarrow> string" where
  "list_text items = dumps_compact (JArr (map JStr items))"

lemma list_text_shape: "list_text items = ''['' @ join '','' (map dumps_str items) @ '']''"
  by (simp add: list_text_def comp_def)

lemma join_printable: "(\<And>x. x \<in> set xs \<Longrightarrow> printable x) \<Longrightarrow> printable (join '','' xs)"
  by (induction "'',''" xs rule: join.induct) (auto simp: code_point_def)

lemma list_text_clean: "clean (list_text items) \<and> strip (list_text items) \<noteq> []"
proof -
  have "strip (list_text items) = list_text items"
    unfolding list_text_shape by (rule strip_id) (simp_all add: is_space_def code_point_def)
  moreover have "printable (list_text items)"
    unfolding list_text_shape using dumps_str_printable by (auto intro!: join_printable simp: code_point_def)
  ultimately show ?thesis using printable_no_break by (simp add: clean_def) (simp add: list_text_shape)
qed

lemma list_text_loads: "loads flt (list_text items) = Inr (JArr (map JStr items))"
  unfolding list_text_def by (rule loads_dumps) (simp add: list_all_iff)

lemma nonblank_items: "i \<in> set (nonblank xs) \<Longrightarrow> strip i = i \<and> i \<noteq> []"
  by (auto simp: nonblank_def)

lemma nonblank_fixed: "(\<forall>i\<in>set items. strip i = i \<and> i \<noteq> []) \<Longrightarrow> nonblank items = items"
  unfolding nonblank_def by (induction items) auto

definition list_normal :: "string \<Rightarrow> env_values \<Rightarrow> bool" where
  "list_normal k d \<longleftrightarrow>
     (\<exists>items. items \<noteq> [] \<and> (\<forall>i\<in>set items. strip i = i \<and> i \<noteq> []) \<and> d k = Some (list_text items))"

lemma list_field_run:
  assumes "normalize_list_field flt k d = (Inr x, d')"
  shows "\<exists>items. items \<noteq> [] \<and> (\<forall>i\<in>set items. strip i = i \<and> i \<noteq> []) \<and> filled d k \<and> d' = d(k \<mapsto> list_text items)"
proof -
  obtain xs where "nonblank xs \<noteq> []" "filled d k" "d' = d(k \<mapsto> list_text (nonblank xs))"
    using assms
    by (auto simp: normalize_list_field_def andthen_def require_run set_value_def invalid_def list_text_def
        split: if_splits sum.splits json.splits py_error.splits)
  then show ?thesis using nonblank_items by blast
qed

lemma step_list_field: "step {k} {} {k} (list_normal k) (normalize_list_field flt k)"
proof (rule stepI)
  fix d x d' assume "normalize_list_field flt k d = (Inr x, d')"
  then obtain items where items: "items \<noteq> []" "\<forall>i\<in>set items. strip i = i \<and> i \<noteq> []"
      and d: "filled d k" "d' = d(k \<mapsto> list_text items)"
    using list_field_run by blast
  have "changes {k} d d'"
    unfolding d(2) by (intro changes_set[OF filled_dom[OF d(1)]]) (use list_text_clean in auto)
  moreover have "list_normal k d'" unfolding list_normal_def d(2) using items by auto
  ultimately show "changes {k} d d' \<and> list_normal k d' \<and> (\<forall>k\<in>{}. filled d' k)" by simp
next
  fix d assume "list_normal k d"
  then obtain items where items: "items \<noteq> []" "\<forall>i\<in>set items. strip i = i \<and> i \<noteq> []"
      and d: "d k = Some (list_text items)"
    unfolding list_normal_def by blast
  have t: "strip (list_text items) = list_text items" "list_text items \<noteq> []" "startswith (list_text items) ''[''"
    using list_text_clean[of items] by (simp_all add: clean_def list_text_shape startswith_def)
  have "nonblank (map str_json (map JStr items)) = items"
    using nonblank_fixed[OF items(2)] by (simp add: comp_def)
  then show "\<exists>x. normalize_list_field flt k d = (Inr x, d)"
    using d t items(1)
    by (simp add: normalize_list_field_def require_run filled_def list_text_loads set_value_def
        list_text_def[symmetric] map_upd_triv del: dumps.simps map_map)
qed (auto simp: list_normal_def)

section \<open>Checks and the log level\<close>

lemma step_database_url:
  "step {} {} {''DATABASE_URL'', ''EXPECTED_DATABASE_NAME'', ''EXPECTED_DATABASE_USERNAME''}
     (\<lambda>d. \<exists>x. fst (validate_database_url d) = Inr x) validate_database_url"
proof (rule step_check)
  fix d show "snd (validate_database_url d) = d"
    by (auto simp: validate_database_url_def andthen_def require_run invalid_def split: sum.splits)
next
  fix d e :: env_values
  assume "\<forall>k\<in>{''DATABASE_URL'', ''EXPECTED_DATABASE_NAME'', ''EXPECTED_DATABASE_USERNAME''}. e k = d k"
  then have "e ''DATABASE_URL'' = d ''DATABASE_URL''" "e ''EXPECTED_DATABASE_NAME'' = d ''EXPECTED_DATABASE_NAME''"
    "e ''EXPECTED_DATABASE_USERNAME'' = d ''EXPECTED_DATABASE_USERNAME''" by simp_all
  then show "fst (validate_database_url e) = fst (validate_database_url d)"
    by (simp add: validate_database_url_def andthen_def require_run invalid_def filled_def value_of_def
        split: sum.split)
qed

lemma step_app_base_url:
  "step {} {} {''APP_BASE_URL''} (\<lambda>d. \<exists>x. fst (validate_app_base_url d) = Inr x) validate_app_base_url"
proof (rule step_check)
  fix d show "snd (validate_app_base_url d) = d"
    by (auto simp: validate_app_base_url_def andthen_def require_run invalid_def from_result_def split: sum.splits)
next
  fix d e :: env_values
  assume "\<forall>k\<in>{''APP_BASE_URL''}. e k = d k"
  then show "fst (validate_app_base_url e) = fst (validate_app_base_url d)"
    by (simp add: validate_app_base_url_def andthen_def require_run invalid_def filled_def value_of_def
        from_result_def split: sum.split)
qed

lemma require_any_run: "require_any ks l d =
    ((if \<exists>k\<in>set ks. filled d k then Inr () else Inl (EnvValidationError (l @ '' is required ('' @ join '' or '' ks @ '').''))), d)"
  by (simp add: require_any_def invalid_def filled_def list_ex_iff)

lemma step_any: "step {} {} (set ks) (\<lambda>d. \<exists>k\<in>set ks. filled d k) (require_any ks l)"
  by (rule stepI) (auto simp: require_any_run filled_def value_of_def split: if_splits)

lemma step_log_level:
  "step {''LOG_LEVEL''} {} {''LOG_LEVEL''} (\<lambda>d. \<exists>v. d ''LOG_LEVEL'' = Some v \<and> upper v = v)
     (andthen (\<lambda>d. (item_of d ''LOG_LEVEL'', d)) (\<lambda>level. set_value ''LOG_LEVEL'' (upper level)))"
proof (rule stepI)
  fix d x d'
  assume "andthen (\<lambda>d. (item_of d ''LOG_LEVEL'', d)) (\<lambda>level. set_value ''LOG_LEVEL'' (upper level)) d = (Inr x, d')"
  then obtain v where v: "d ''LOG_LEVEL'' = Some v" "d' = d(''LOG_LEVEL'' \<mapsto> upper v)"
    by (auto simp: andthen_def item_of_def set_value_def split: option.splits)
  have "changes {''LOG_LEVEL''} d d'"
    unfolding v(2) using v(1) upper_blank[of v] upper_clean[of v]
    by (intro changes_set) (auto simp: filled_def clean_map_def)
  then show "changes {''LOG_LEVEL''} d d' \<and> (\<exists>v. d' ''LOG_LEVEL'' = Some v \<and> upper v = v) \<and> (\<forall>k\<in>{}. filled d' k)"
    using v by simp
qed (auto simp: item_of_def set_value_def map_upd_triv)

end
