(* ===== verification/Logging.thy ===== *)
theory Logging
  imports Config Prepared
begin

text \<open>
  \<open>src/infrastructure/logging.py\<close>: the formatter of the JSON log and the set-up of the root
  logger. \<open>json.dumps\<close> is called with \<open>ensure_ascii=False\<close> here: quotes, backslashes and control
  characters are escaped, everything else is written as it is.
\<close>

section \<open>The JSON formatter\<close>

text \<open>
  A record of the logging library, with the attributes that \<open>extra\<close> added; an attribute that is
  absent and one that is \<open>None\<close> are treated alike.
\<close>

record log_record =
  levelname :: string
  log_message :: string
  logger_name :: string
  log_extra :: "string \<rightharpoonup> string"

definition escape_raw :: "char \<Rightarrow> string" where
  "escape_raw c = (if 126 < code_point c then [c] else escape_char c)"

text \<open>DEL is the one character below U+0080 that only the ASCII form escapes.\<close>

definition quote_raw :: "string \<Rightarrow> string" where
  "quote_raw s = CHR 0x22 # concat (map escape_raw s) @ [CHR 0x22]"

definition extra_keys :: "string list" where
  "extra_keys = [''correlation_id'', ''request_id'', ''service'', ''env'', ''version'']"

definition log_payload :: "log_record \<Rightarrow> (string \<times> string) list" where
  "log_payload r =
     [(''level'', levelname r), (''message'', log_message r), (''logger'', logger_name r)] @
     concat (map (\<lambda>key. case log_extra r key of None \<Rightarrow> [] | Some v \<Rightarrow> [(key, v)]) extra_keys)"

definition JsonLogFormatter :: "log_record \<Rightarrow> string" where
  "JsonLogFormatter r =
     ''{'' @ join '', '' (map (\<lambda>(k, v). quote_raw k @ '': '' @ quote_raw v) (log_payload r)) @ ''}''"

section \<open>The root logger\<close>

datatype log_format = Json_Lines | Plain_Lines

record root_logger =
  log_handlers :: "log_format list"
  log_level :: string

text \<open>The levels of the library; \<open>setLevel\<close> refuses any other text.\<close>

definition log_levels :: "(string \<times> nat) list" where
  "log_levels =
     [(''CRITICAL'', 50), (''FATAL'', 50), (''ERROR'', 40), (''WARN'', 30), (''WARNING'', 30), (''INFO'', 20),
      (''DEBUG'', 10), (''NOTSET'', 0)]"

definition level_names :: "string list" where
  "level_names = map fst log_levels"

definition configure_logging :: "settings \<Rightarrow> py_error + root_logger" where
  "configure_logging st =
     (if LOG_LEVEL st \<notin> set level_names then Inl (ValueError (''Unknown level: '' @ repr_str (LOG_LEVEL st)))
      else Inr \<lparr>log_handlers = [if LOG_JSON st then Json_Lines else Plain_Lines], log_level = LOG_LEVEL st\<rparr>)"

lemma configure_logging_iff: "(\<exists>l. configure_logging st = Inr l) \<longleftrightarrow> LOG_LEVEL st \<in> set level_names"
  by (simp add: configure_logging_def)

text \<open>What \<open>logger.info\<close> writes, through every handler, when the root level lets it pass.\<close>

fun format_record :: "log_format \<Rightarrow> log_record \<Rightarrow> string" where
  "format_record Json_Lines r = JsonLogFormatter r"
| "format_record Plain_Lines r = levelname r @ '' '' @ logger_name r @ '' - '' @ log_message r"

definition info_enabled :: "root_logger \<Rightarrow> bool" where
  "info_enabled l = (case map_of log_levels (log_level l) of None \<Rightarrow> False | Some n \<Rightarrow> n \<le> 20)"

definition log_lines :: "root_logger \<Rightarrow> log_record \<Rightarrow> string list" where
  "log_lines l r = (if info_enabled l then map (\<lambda>h. format_record h r) (log_handlers l) else [])"

section \<open>A record is one line that reads back\<close>

lemma escape_raw_visible: "d \<in> set (escape_raw c) \<Longrightarrow> 32 \<le> code_point d"
  using escape_printable[of c] by (auto simp: escape_raw_def printable_def split: if_splits)

lemma scan_escape_raw: "scan_str (escape_raw c @ r) = map_option (\<lambda>(s, t). (c # s, t)) (scan_str r)"
  using scan_plain[of c r] scan_escape[of c r] by (auto simp: escape_raw_def)

lemma scan_quote_raw: "scan_str (concat (map escape_raw s) @ CHR 0x22 # r) = Some (s, r)"
proof (induction s)
  case Nil
  show ?case by (simp add: code_point_def)
next
  case (Cons c s)
  then show ?case by (simp add: scan_escape_raw del: scan_str.simps)
qed

lemma scan_quoted_value: "scan_value flt (Suc n) (quote_raw s @ r) = Some (JStr s, r)"
  by (simp add: quote_raw_def scan_quote_raw)

definition raw_members :: "(string \<times> string) list \<Rightarrow> string" where
  "raw_members kvs = join '', '' (map (\<lambda>(k, v). quote_raw k @ '': '' @ quote_raw v) kvs)"

lemma skip_blank [simp]: "skip_ws (CHR '' '' # s) = skip_ws s"
  by (simp add: skip_ws_def is_ws_def code_point_def)

lemma skip_quoted [simp]: "skip_ws (quote_raw s @ r) = quote_raw s @ r"
  by (simp add: quote_raw_def)

lemma scan_raw_members:
  assumes "kvs \<noteq> []" and "distinct (map fst (acc @ map (\<lambda>(k, v). (k, JStr v)) kvs))" and "length kvs < n"
  shows "scan_members flt n (raw_members kvs @ CHR ''}'' # r) acc = Some (acc @ map (\<lambda>(k, v). (k, JStr v)) kvs, r)"
  using assms
proof (induction kvs arbitrary: n acc)
  case outer: (Cons p kvs)
  obtain k v where p: "p = (k, v)" by (cases p)
  obtain m where n: "n = Suc (Suc m)" using outer.prems(3) by (cases n; cases "n - 1") auto
  have "k \<notin> fst ` set acc" using outer.prems(2) p by auto
  then have upd: "AList.update k (JStr v) acc = acc @ [(k, JStr v)]" by (induction acc) auto
  show ?case
  proof (cases kvs)
    case Nil
    then show ?thesis using upd scan_quoted_value[of flt m v "CHR ''}'' # r"]
      by (simp add: n p raw_members_def) (simp add: quote_raw_def scan_quote_raw)
  next
    case (Cons y ys)
    have rest: "raw_members (p # kvs) = quote_raw k @ '': '' @ quote_raw v @ '', '' @ raw_members kvs"
      using Cons p by (simp add: raw_members_def)
    have "skip_ws (raw_members kvs @ CHR ''}'' # r) = raw_members kvs @ CHR ''}'' # r"
      using Cons by (cases ys) (auto simp: raw_members_def split: prod.splits)
    moreover have "scan_members flt (Suc m) (raw_members kvs @ CHR ''}'' # r) (acc @ [(k, JStr v)]) =
        Some ((acc @ [(k, JStr v)]) @ map (\<lambda>(k, v). (k, JStr v)) kvs, r)"
      by (rule outer.IH) (use Cons n p outer.prems in auto)
    ultimately show ?thesis
      unfolding rest n using upd p scan_quoted_value[of flt m v "'', '' @ raw_members kvs @ CHR ''}'' # r"]
      by (simp add: quote_raw_def scan_quote_raw)
  qed
qed simp

lemma scan_object:
  assumes "b = CHR 0x22 # t" and "scan_members flt n b [] = Some (kvs, r)"
  shows "scan_value flt (Suc n) (CHR ''{'' # b) = Some (JObj kvs, r)"
  using assms by (simp del: scan_members.simps)

lemma log_payload_keys: "distinct (map fst (log_payload r))" "log_payload r \<noteq> []" "length (log_payload r) \<le> 8"
  by (simp_all add: log_payload_def extra_keys_def split: option.splits)

lemma formatter_members: "JsonLogFormatter r = CHR ''{'' # raw_members (log_payload r) @ ''}''"
  by (simp add: JsonLogFormatter_def raw_members_def)

lemma raw_members_visible: "c \<in> set (raw_members kvs) \<Longrightarrow> 32 \<le> code_point c"
proof (induction kvs)
  case (Cons p kvs)
  obtain k v where p: "p = (k, v)" by (cases p)
  have q: "c \<in> set (quote_raw s) \<Longrightarrow> 32 \<le> code_point c" for s
    by (auto simp: quote_raw_def code_point_def[of "CHR 0x22"] dest: escape_raw_visible)
  have marks: "32 \<le> code_point CHR '','' \<and> 32 \<le> code_point CHR '' '' \<and> 32 \<le> code_point CHR '':''"
    by (simp add: code_point_def)
  show ?case using Cons q marks by (cases kvs) (auto simp: raw_members_def p)
qed (simp add: raw_members_def)

lemma formatted_visible: "c \<in> set (JsonLogFormatter r) \<Longrightarrow> 32 \<le> code_point c"
  by (auto simp: formatter_members code_point_def[of "CHR ''{''"] code_point_def[of "CHR ''}''"] dest: raw_members_visible)

lemma formatted_reads_back: "loads flt (JsonLogFormatter r) = Inr (JObj (map (\<lambda>(k, v). (k, JStr v)) (log_payload r)))"
proof -
  let ?s = "JsonLogFormatter r"
  let ?v = "map (\<lambda>(k, v). (k, JStr v)) (log_payload r)"
  have keys: "distinct (map fst ([] @ ?v))" using log_payload_keys(1)[of r] by (simp add: comp_def case_prod_beta)
  have shape: "raw_members kvs = CHR 0x22 # tl (raw_members kvs) \<and> length kvs \<le> length (raw_members kvs)" if "kvs \<noteq> []" for kvs
    using that
  proof (induction kvs)
    case (Cons p kvs)
    then show ?case by (cases kvs; cases p) (auto simp: raw_members_def quote_raw_def split: prod.splits)
  qed simp
  note m = shape[OF log_payload_keys(2)[of r]]
  have "scan_members flt (2 * length ?s + 1) (raw_members (log_payload r) @ CHR ''}'' # []) [] = Some ([] @ ?v, [])"
    using m by (intro scan_raw_members log_payload_keys keys) (simp add: formatter_members)
  then have "scan_value flt (2 * length ?s + 2) ?s = Some (JObj ?v, [])"
    using m scan_object[of "raw_members (log_payload r) @ ''}''" "tl (raw_members (log_payload r)) @ ''}''" flt
        "2 * length ?s + 1" ?v "[]"]
    by (simp add: formatter_members del: scan_members.simps scan_value.simps)
  moreover have "skip_ws ?s = ?s" by (simp add: formatter_members skip_ws_def is_ws_def code_point_def)
  ultimately show ?thesis by (simp add: loads_def Let_def)
qed

lemma split_on_absent: "c \<notin> set s \<Longrightarrow> split_on c s = [s]"
  by (induction s) auto

text \<open>
  Property C40. A log record is one line of JSON, whatever a client sends. No character of a
  formatted record lies below U+0020, so none is a line feed or a carriage return: a correlation
  identifier taken from a request cannot end the line and start another one for a reader that
  splits at line feeds, as log collectors do. Reading the line back gives exactly the level, the
  message, the logger and the operational attributes that are present, as given. The characters
  from U+007F on are written as they are, the controls U+007F to U+009F among them; a reader that
  takes NEL (U+0085) for an end of line can still be misled (\<open>next_line_passes\<close>).
\<close>

theorem log_records_are_lines_of_json:
  "(\<forall>c \<in> set (JsonLogFormatter r). 32 \<le> code_point c) \<and>
   split_on newline (JsonLogFormatter r) = [JsonLogFormatter r] \<and>
   loads flt (JsonLogFormatter r) = Inr (JObj (map (\<lambda>(k, v). (k, JStr v)) (log_payload r)))"
proof -
  have "newline \<notin> set (JsonLogFormatter r)" using formatted_visible[of newline r] by (auto simp: code_point_def newline_def)
  then show ?thesis by (simp add: formatted_visible formatted_reads_back split_on_absent)
qed

text \<open>A correlation identifier that tries to start a second line.\<close>

definition forged_record :: "log_record" where
  "forged_record = \<lparr>levelname = ''INFO'', log_message = ''Request completed'', logger_name = ''src.main'',
     log_extra = [''correlation_id'' \<mapsto> [CHR ''a'', CHR 0x0A, CHR ''{'', CHR 0xE9]]\<rparr>"

theorem log_records_are_lines_of_json_witness:
  "list_all (\<lambda>c. 32 \<le> code_point c) (JsonLogFormatter forged_record) \<and>
   split_on newline (JsonLogFormatter forged_record) = [JsonLogFormatter forged_record] \<and>
   loads id (JsonLogFormatter forged_record) =
     Inr (JObj [(''level'', JStr ''INFO''), (''message'', JStr ''Request completed''), (''logger'', JStr ''src.main''),
                (''correlation_id'', JStr [CHR ''a'', CHR 0x0A, CHR ''{'', CHR 0xE9])])"
  using log_records_are_lines_of_json[of forged_record id]
  by (simp add: list_all_iff log_payload_def extra_keys_def forged_record_def)

text \<open>What \<open>ensure_ascii=False\<close> lets through: with NEL in it the line is two for \<open>str.splitlines\<close>.\<close>

lemma next_line_passes:
  "length (splitlines (JsonLogFormatter (forged_record\<lparr>log_extra :=
     [''correlation_id'' \<mapsto> [CHR ''a'', CHR 0x85, CHR ''{'']]\<rparr>))) = 2"
  by code_simp

end
