(* ===== verification/Operations.thy ===== *)
theory Operations
  imports System Database_Url Logging
begin

text \<open>
  How the process is started and watched: \<open>create_app\<close> and the HTTP middleware of
  \<open>src/main.py\<close>, the readiness probe, the health routes and \<open>src/worker.py\<close>. SQLAlchemy,
  which opens databases, is not under \<open>src\<close>: \<open>driver\<close> says what it does with a URL.
\<close>

section \<open>Databases\<close>

text \<open>
  \<open>engine\<close> is the error of \<open>create_engine\<close> on a URL, if it raises one, \<open>create_tables\<close> that of
  \<open>metadata.create_all\<close>, and \<open>session_user\<close> what a connection with a timeout reports: the name of
  the database and of the user, or the driver's message.
\<close>

record driver =
  engine :: "string \<Rightarrow> py_error option"
  create_tables :: "string \<Rightarrow> py_error option"
  session_user :: "string \<Rightarrow> int \<Rightarrow> string + string \<times> string"

definition attempt :: "py_error option \<Rightarrow> py_error + unit" where
  "attempt failure = (case failure of None \<Rightarrow> Inr () | Some x \<Rightarrow> Inl x)"

text \<open>The constructor of an SQL repository: the engine, then the tables.\<close>

definition open_repository :: "driver \<Rightarrow> string \<Rightarrow> py_error + unit" where
  "open_repository db url =
     (let u = normalize_sync_database_url url in
      bind_sum (attempt (engine db u)) (\<lambda>_. attempt (create_tables db u)))"

section \<open>The readiness probe (readiness.py)\<close>

record probe =
  probe_url :: string
  expected_database :: string
  expected_username :: string
  probe_timeout :: int

definition DatabaseReadinessProbe :: "driver \<Rightarrow> string \<Rightarrow> string \<Rightarrow> string \<Rightarrow> int \<Rightarrow> py_error + probe" where
  "DatabaseReadinessProbe db url database username seconds =
     (let u = normalize_postgresql_url_for_alembic url in
      bind_sum (attempt (engine db u)) (\<lambda>_.
        Inr \<lparr>probe_url = u, expected_database = database, expected_username = username, probe_timeout = seconds\<rparr>))"

definition probe_check :: "driver \<Rightarrow> probe \<Rightarrow> py_error + (string \<times> string) list" where
  "probe_check db p =
     (case session_user db (probe_url p) (probe_timeout p) of
        Inl message \<Rightarrow> Inl (DatabaseError message)
      | Inr (current_database, current_user) \<Rightarrow>
          if current_database \<noteq> expected_database p
          then Inl (RuntimeError (''Database readiness failed because the connected database does not '' @
            ''match the service boundary: expected '' @ quoted (expected_database p) @
            '', got '' @ quoted current_database @ ''.''))
          else if current_user \<noteq> expected_username p
          then Inl (RuntimeError (''Database readiness failed because the connected database user does '' @
            ''not match the service boundary: expected '' @ quoted (expected_username p) @
            '', got '' @ quoted current_user @ ''.''))
          else Inr [(''application'', ''ok''), (''database'', ''ok'')])"

definition build_database_readiness_probe :: "driver \<Rightarrow> settings \<Rightarrow> py_error + probe option" where
  "build_database_readiness_probe db st =
     (if APP_RUNTIME_MODE st \<noteq> Real then Inr None
      else bind_sum (validate_runtime_database_url (DATABASE_URL st)
             (Some (EXPECTED_DATABASE_NAME st)) (Some (EXPECTED_DATABASE_USERNAME st))) (\<lambda>_.
           bind_sum (DatabaseReadinessProbe db (DATABASE_URL st) (EXPECTED_DATABASE_NAME st)
             (EXPECTED_DATABASE_USERNAME st) (HEALTHCHECK_TIMEOUT_SECONDS st)) (\<lambda>p. Inr (Some p))))"

section \<open>Health routes (health\_routes.py)\<close>

definition health_check :: "settings \<Rightarrow> json" where
  "health_check st =
     JObj [(''status'', JStr ''ok''), (''service'', JStr (APP_NAME st)), (''version'', JStr (APP_VERSION st)),
           (''environment'', JStr (ENVIRONMENT st))]"

definition live_check :: "settings \<Rightarrow> json" where
  "live_check st =
     JObj [(''status'', JStr ''ok''), (''service'', JStr (APP_NAME st)), (''version'', JStr (APP_VERSION st))]"

definition text_object :: "(string \<times> string) list \<Rightarrow> json" where
  "text_object kvs = JObj (map (\<lambda>(k, v). (k, JStr v)) kvs)"

definition readiness_check :: "driver \<Rightarrow> settings \<Rightarrow> probe option \<Rightarrow> py_error + int \<times> json" where
  "readiness_check db st probe =
     (case (case probe of None \<Rightarrow> Inr [(''application'', ''ok'')] | Some p \<Rightarrow> probe_check db p) of
        Inr checks \<Rightarrow> Inr (200, JObj [(''status'', JStr ''ok''), (''service'', JStr (APP_NAME st)),
          (''checks'', text_object checks)])
      | Inl x \<Rightarrow>
          if is_exception x
          then Inr (503, JObj [(''status'', JStr ''degraded''), (''service'', JStr (APP_NAME st)),
            (''checks'', text_object [(''application'', ''ok''), (''database'', ''error'')]),
            (''detail'', JStr (str_error x))])
          else Inl x)"

section \<open>The application (main.py)\<close>

text \<open>What \<open>add_middleware\<close> installs: classes of the framework, with the arguments they are given.\<close>

datatype middleware =
    TrustedHostMiddleware "string list"
  | CORSMiddleware (allow_origins: "string list") (allow_credentials: bool)

record web_app =
  web_logging :: root_logger
  web_server :: server
  web_probe :: "probe option"
  web_middleware :: "middleware list"

text \<open>\<open>add_middleware\<close> puts a middleware around those already there: the outermost comes first.\<close>

definition app_middleware :: "settings \<Rightarrow> middleware list" where
  "app_middleware st =
     CORSMiddleware (CORS_ALLOWED_ORIGINS st) (CORS_ALLOW_CREDENTIALS st) #
     (if TRUSTED_HOSTS st \<noteq> [] \<and> TRUSTED_HOSTS st \<noteq> [''*''] then [TrustedHostMiddleware (TRUSTED_HOSTS st)] else [])"

definition open_repositories :: "driver \<Rightarrow> settings \<Rightarrow> py_error + unit" where
  "open_repositories db st =
     (if APP_RUNTIME_MODE st = Real
      then bind_sum (open_repository db (DATABASE_URL st)) (\<lambda>_. open_repository db (DATABASE_URL st))
      else Inr ())"

text \<open>
  The root logger and the collaborators in the order of \<open>create_app\<close>; the records of processed
  events are the worker's, the application does not build them. The dispatch of the routers is the
  data type \<open>request\<close> of theory Routes.
\<close>

definition create_app ::
    "driver \<Rightarrow> (string \<Rightarrow> string) \<Rightarrow> jwt_decode \<Rightarrow> settings \<Rightarrow> py_error + web_app" where
  "create_app db flt jwt st =
     bind_sum (configure_logging st) (\<lambda>logging.
     bind_sum (build_database_readiness_probe db st) (\<lambda>probe.
     bind_sum (open_repositories db st) (\<lambda>_.
     bind_sum (build_app flt st) (\<lambda>app.
       Inr \<lparr>web_logging = logging, web_server = \<lparr>srv_app = app, srv_settings = st, srv_jwt = jwt\<rparr>,
            web_probe = probe, web_middleware = app_middleware st\<rparr>))))"

text \<open>\<open>app = create_app()\<close> of the module: the settings come from the environment.\<close>

definition start_application ::
    "driver \<Rightarrow> (string \<Rightarrow> string) \<Rightarrow> jwt_decode \<Rightarrow> (string \<Rightarrow> py_error + string) \<Rightarrow>
       (string \<Rightarrow> py_error + given_settings) \<Rightarrow> (string \<rightharpoonup> string) \<Rightarrow> py_error + web_app" where
  "start_application db flt jwt files source environ =
     bind_sum (get_settings flt files source environ) (create_app db flt jwt)"

text \<open>
  The end of \<open>lifespan\<close>: \<open>close\<close> of the publisher does nothing (the publisher in memory has none),
  the probe disposes of its engine. The result is the URLs whose connection pool is closed.
\<close>

definition lifespan_end :: "web_app \<Rightarrow> string list" where
  "lifespan_end web = (case web_probe web of None \<Rightarrow> [] | Some p \<Rightarrow> [probe_url p])"

subsection \<open>The middleware\<close>

text \<open>
  Header names are in lower case, as the framework hands them over. \<open>web_requests\<close> is
  \<open>REQUEST_COUNTER\<close> by its three labels, \<open>web_observed\<close> the number of observations of
  \<open>REQUEST_DURATION\<close> by its two; the observed durations come from the clock and are left out.
  \<open>web_log\<close> is what the handler of the root logger has written, a line for each record.
\<close>

record http_request =
  req_method :: string
  req_path :: string
  req_headers :: "(string \<times> string) list"
  req_credentials :: "credentials option"
  req_operation :: request

record http_response =
  resp_status :: int
  resp_headers :: "(string \<times> string) list"
  resp_body :: json

record web_state =
  web_world :: world
  web_requests :: "((string \<times> string \<times> int) \<times> nat) list"
  web_observed :: "((string \<times> string) \<times> nat) list"
  web_log :: "string list"

definition increment :: "'k \<Rightarrow> ('k \<times> nat) list \<Rightarrow> ('k \<times> nat) list" where
  "increment k d = AList.update k (Suc (case map_of d k of None \<Rightarrow> 0 | Some n \<Rightarrow> n)) d"

text \<open>
  The framework around the routes: an \<open>HTTPException\<close> is a response before it reaches the
  middleware, any other exception passes through it. The headers the framework itself sets are
  left out.
\<close>

definition call_next :: "server \<Rightarrow> http_request \<Rightarrow> (world, http_response) exec" where
  "call_next s rq w =
     (case serve s (req_credentials rq) (req_operation rq) w of
        (Inl x, w') \<Rightarrow>
          (case x of
             HTTPException _ _ \<Rightarrow> (case respond (req_operation rq) (Inl x) of (code, body) \<Rightarrow>
               (Inr \<lparr>resp_status = code, resp_headers = [], resp_body = body\<rparr>, w'))
           | _ \<Rightarrow> (Inl x, w'))
      | (Inr v, w') \<Rightarrow> (case respond (req_operation rq) (Inr v) of (code, body) \<Rightarrow>
          (Inr \<lparr>resp_status = code, resp_headers = [], resp_body = body\<rparr>, w')))"

definition in_world :: "(world, 'a) exec \<Rightarrow> (web_state, 'a) exec" where
  "in_world = zoom web_world (\<lambda>x s. s\<lparr>web_world := x\<rparr>)"

definition operational_headers :: "string \<Rightarrow> string \<Rightarrow> (string \<times> string) list" where
  "operational_headers correlation rid =
     [(''x-correlation-id'', correlation), (''x-request-id'', rid),
      (''x-content-type-options'', ''nosniff''), (''x-frame-options'', ''DENY''),
      (''referrer-policy'', ''strict-origin-when-cross-origin'')]"

definition completed_record :: "settings \<Rightarrow> string \<Rightarrow> string \<Rightarrow> log_record" where
  "completed_record st correlation rid =
     \<lparr>levelname = ''INFO'', log_message = ''Request completed'', logger_name = ''src.main'',
      log_extra = [''correlation_id'' \<mapsto> correlation, ''request_id'' \<mapsto> rid, ''service'' \<mapsto> APP_NAME st,
                   ''env'' \<mapsto> ENVIRONMENT st, ''version'' \<mapsto> APP_VERSION st]\<rparr>"

definition add_operational_headers_and_logs ::
    "root_logger \<Rightarrow> settings \<Rightarrow> (http_request \<Rightarrow> (world, http_response) exec) \<Rightarrow> http_request \<Rightarrow>
       (web_state, http_response) exec" where
  "add_operational_headers_and_logs logger st next_call rq =
     andthen (in_world (in_env uuid4)) (\<lambda>fresh.
       let correlation = (case map_of (req_headers rq) ''x-correlation-id'' of None \<Rightarrow> fresh | Some c \<Rightarrow> c);
           rid = (case map_of (req_headers rq) ''x-request-id'' of None \<Rightarrow> correlation | Some c \<Rightarrow> c)
       in andthen (in_world (next_call rq)) (\<lambda>resp.
          andthen (writes (\<lambda>s. s\<lparr>
            web_requests := increment (req_method rq, req_path rq, resp_status resp) (web_requests s),
            web_observed := increment (req_method rq, req_path rq) (web_observed s),
            web_log := web_log s @ log_lines logger (completed_record st correlation rid)\<rparr>)) (\<lambda>_.
            ret (resp\<lparr>resp_headers :=
              dict_update (resp_headers resp) (operational_headers correlation rid)\<rparr>))))"

text \<open>
  \<open>wrap\<close> is what the framework's middlewares do around the routes. They are installed before the
  one of \<open>main.py\<close>, so they are inside it. Outside of all an exception becomes a bare status 500.
\<close>

definition handle_request ::
    "(middleware \<Rightarrow> (http_request \<Rightarrow> (world, http_response) exec) \<Rightarrow> http_request \<Rightarrow> (world, http_response) exec) \<Rightarrow>
       web_app \<Rightarrow> http_request \<Rightarrow> (web_state, http_response) exec" where
  "handle_request wrap web rq =
     add_operational_headers_and_logs (web_logging web) (srv_settings (web_server web))
       (foldr wrap (web_middleware web) (call_next (web_server web))) rq"

definition answer ::
    "(middleware \<Rightarrow> (http_request \<Rightarrow> (world, http_response) exec) \<Rightarrow> http_request \<Rightarrow> (world, http_response) exec) \<Rightarrow>
       web_app \<Rightarrow> http_request \<Rightarrow> web_state \<Rightarrow> http_response \<times> web_state" where
  "answer wrap web rq w =
     (case handle_request wrap web rq w of
        (Inr resp, w') \<Rightarrow> (resp, w')
      | (Inl x, w') \<Rightarrow> (\<lparr>resp_status = 500, resp_headers = [], resp_body = JStr ''Internal Server Error''\<rparr>, w'))"

section \<open>The worker (worker.py)\<close>

definition build_event_worker :: "settings \<Rightarrow> (world, unit) exec" where
  "build_event_worker st =
     in_channel (worker_connect (rabbit_settings st) (RABBITMQ_CONSUME_ROUTING_KEYS st))"

text \<open>
  \<open>deliveries\<close> are what the broker hands over before it ends the consumption. The worker builds
  no gateway; the handler uses none.
\<close>

definition worker_main ::
    "server \<Rightarrow> (string \<Rightarrow> string) \<Rightarrow> (nat \<times> string) list \<Rightarrow> (world, int) exec" where
  "worker_main s flt deliveries =
     andthen (build_event_worker (srv_settings s)) (\<lambda>_.
     andthen (try_finally
       (worker_start in_channel (rabbit_settings (srv_settings s)) flt (worker_handler s) deliveries)
       (in_channel close_if_open)) (\<lambda>_. ret 0))"

text \<open>
  The whole process: both SQL repositories are opened first, from the URL of the settings as it
  is. The worker does not check the boundary of the database, and it does not set up the log.
\<close>

definition worker_process ::
    "driver \<Rightarrow> server \<Rightarrow> (string \<Rightarrow> string) \<Rightarrow> (nat \<times> string) list \<Rightarrow> (world, int) exec" where
  "worker_process db s flt deliveries =
     andthen (from_result (open_repositories db (srv_settings s))) (\<lambda>_. worker_main s flt deliveries)"

section \<open>Properties\<close>

text \<open>
  Property C21. Readiness is the service's boundary and never an unhandled error: without a probe
  the service is ready; with one it is ready exactly when the connection reports the expected
  database and the expected user, and every other outcome, a driver error included, is answered
  with status 503 and the state degraded.
\<close>

theorem ready_means_the_expected_database:
  "\<exists>code kvs. readiness_check db st probe = Inr (code, JObj kvs) \<and>
     code = (case probe of
        None \<Rightarrow> 200
      | Some p \<Rightarrow> if session_user db (probe_url p) (probe_timeout p) = Inr (expected_database p, expected_username p)
                  then 200 else 503) \<and>
     map_of kvs ''status'' = Some (JStr (if code = 200 then ''ok'' else ''degraded'')) \<and>
     map_of kvs ''service'' = Some (JStr (APP_NAME st))"
proof (cases probe)
  case None
  then show ?thesis by (simp add: readiness_check_def)
next
  case (Some p)
  show ?thesis
  proof (cases "session_user db (probe_url p) (probe_timeout p)")
    case (Inl m)
    then show ?thesis using Some by (simp add: readiness_check_def probe_check_def)
  next
    case (Inr du)
    then show ?thesis using Some by (cases du) (simp add: readiness_check_def probe_check_def)
  qed
qed

lemma placeholder_blank: "strip token = [] \<Longrightarrow> strip token \<in> set placeholder_tokens"
  by (simp add: placeholder_tokens_def)

lemma resolved_secret_stripped:
  assumes "resolve_secret files raw path name = Inr v"
  shows "strip v = v"
  using assms by (auto simp: resolve_secret_def bind_sum_def split: if_splits option.splits sum.splits)

text \<open>What the settings guarantee about the provider, once they are accepted.\<close>

lemma accepted_provider:
  assumes "model_post_init files s0 = Inr st"
  obtains m where "PAYMENT_PROVIDER_MODE st = Some m" and
    "m = Mercado_Pago \<Longrightarrow> strip (MERCADO_PAGO_ACCESS_TOKEN st) \<noteq> []"
proof -
  obtain j c t where t: "resolve_secret files (MERCADO_PAGO_ACCESS_TOKEN s0) (MERCADO_PAGO_ACCESS_TOKEN_FILE s0)
        ''MERCADO_PAGO_ACCESS_TOKEN'' = Inr t"
      and st: "MERCADO_PAGO_ACCESS_TOKEN st = t"
        "PAYMENT_PROVIDER_MODE st = Some (chosen_provider (s0\<lparr>JWT_SECRET := j, CUSTOMER_JWT_SECRET := c, MERCADO_PAGO_ACCESS_TOKEN := t\<rparr>))"
        "PAYMENT_PROVIDER_MODE st = Some Mercado_Pago \<longrightarrow> t \<notin> set placeholder_tokens"
    using assms by (auto simp: model_post_init_def bind_sum_def Let_def split: sum.splits if_splits)
  have "strip t = t" by (rule resolved_secret_stripped[OF t])
  then have "strip (MERCADO_PAGO_ACCESS_TOKEN st) \<noteq> []" if "PAYMENT_PROVIDER_MODE st = Some Mercado_Pago"
    using that st(1,3) placeholder_blank[of t] by auto
  then show thesis using that[OF st(2)] st(2) by simp
qed

lemma accepted_gateway:
  assumes "model_post_init files s0 = Inr st"
  shows "build_payment_gateway st = Inr (provider_gateway
    (if PAYMENT_PROVIDER_MODE st = Some Mercado_Pago then Some (checkout_settings_of st) else None))"
  using assms by (rule accepted_provider)
    (auto simp: build_payment_gateway_def MercadoPagoCheckoutAdapter_def MercadoPagoSdkClient_def checkout_settings_of_def)

lemma attempt_simps [simp]: "attempt None = Inr ()" "attempt (Some x) = Inl x"
  by (simp_all add: attempt_def)

text \<open>
  Property C22. An application starts from its environment exactly when the settings are accepted,
  their log level is, in upper case, one of the logging library (the settings do not check it) and,
  in real mode, the database URL is inside the boundary and the driver takes both normalised forms
  of it; in memory mode nothing else can fail. The application has the payment gateway of the
  provider mode: a configured Mercado Pago is never silently replaced by the fake.
\<close>

theorem accepted_settings_start_the_service:
  assumes "get_settings flt files source environ = Inr st"
  shows "((\<exists>web. start_application db flt jwt files source environ = Inr web) \<longleftrightarrow>
     LOG_LEVEL st \<in> set level_names \<and>
     (APP_RUNTIME_MODE st = Memory \<or>
     (\<exists>target. validate_runtime_database_url (DATABASE_URL st) (Some (EXPECTED_DATABASE_NAME st))
        (Some (EXPECTED_DATABASE_USERNAME st)) = Inr target) \<and>
     engine db (normalize_postgresql_url_for_alembic (DATABASE_URL st)) = None \<and>
     engine db (normalize_sync_database_url (DATABASE_URL st)) = None \<and>
     create_tables db (normalize_sync_database_url (DATABASE_URL st)) = None)) \<and>
   (\<forall>web. start_application db flt jwt files source environ = Inr web \<longrightarrow>
     gateway (srv_app (web_server web)) = provider_gateway
       (if PAYMENT_PROVIDER_MODE st = Some Mercado_Pago then Some (checkout_settings_of st) else None))"
proof -
  obtain s0 where s0: "model_post_init files s0 = Inr st"
    using get_settings_accepted[OF assms] by blast
  note g = accepted_gateway[OF s0]
  have start: "start_application db flt jwt files source environ = create_app db flt jwt st"
    by (simp add: start_application_def assms)
  show ?thesis unfolding start
  proof (rule conjI)
    show "(\<exists>web. create_app db flt jwt st = Inr web) \<longleftrightarrow>
       LOG_LEVEL st \<in> set level_names \<and>
       (APP_RUNTIME_MODE st = Memory \<or>
       (\<exists>target. validate_runtime_database_url (DATABASE_URL st) (Some (EXPECTED_DATABASE_NAME st))
          (Some (EXPECTED_DATABASE_USERNAME st)) = Inr target) \<and>
       engine db (normalize_postgresql_url_for_alembic (DATABASE_URL st)) = None \<and>
       engine db (normalize_sync_database_url (DATABASE_URL st)) = None \<and>
       create_tables db (normalize_sync_database_url (DATABASE_URL st)) = None)"
      by (cases "APP_RUNTIME_MODE st")
         (auto simp: create_app_def configure_logging_def build_app_def g build_database_readiness_probe_def open_repositories_def
            open_repository_def DatabaseReadinessProbe_def Let_def bind_sum_def attempt_def
            split: sum.splits option.splits)
    show "\<forall>web. create_app db flt jwt st = Inr web \<longrightarrow>
       gateway (srv_app (web_server web)) = provider_gateway
         (if PAYMENT_PROVIDER_MODE st = Some Mercado_Pago then Some (checkout_settings_of st) else None)"
      by (auto simp: create_app_def build_app_def g bind_sum_def split: sum.splits)
  qed
qed

definition sample_driver :: driver where
  "sample_driver = \<lparr>engine = (\<lambda>_. None), create_tables = (\<lambda>_. None), session_user = (\<lambda>_ _. Inr (''bills'', ''bill''))\<rparr>"

definition real_settings :: settings where
  "real_settings = default_settings\<lparr>APP_RUNTIME_MODE := Real, DATABASE_URL := sample_database_url,
     EXPECTED_DATABASE_NAME := ''bills'', EXPECTED_DATABASE_USERNAME := ''bill'',
     MERCADO_PAGO_ACCESS_TOKEN := ''APP-token''\<rparr>"

text \<open>What \<open>model_post_init\<close> makes of them.\<close>

definition accepted_settings :: settings where
  "accepted_settings = real_settings\<lparr>PAYMENT_PROVIDER_MODE := Some Mercado_Pago,
     JWT_ISSUER := ''service-order-os-service/development''\<rparr>"

lemma real_settings_accepted: "model_post_init (\<lambda>_. Inr []) real_settings = Inr accepted_settings"
proof -
  have "strip ''dev-jwt-secret-with-32-characters'' = ''dev-jwt-secret-with-32-characters''"
    "strip ''APP-token'' = ''APP-token''" by code_simp+
  then show ?thesis
    by (simp add: model_post_init_def resolve_secret_def real_settings_def default_settings_def
        accepted_settings_def chosen_provider_def placeholder_tokens_def Let_def)
qed

text \<open>The environment gives a lower-case level and a list of hosts as text.\<close>

definition sample_given :: given_settings where
  "sample_given = \<lparr>given_fields = real_settings\<lparr>LOG_LEVEL := ''info'', TRUSTED_HOSTS := []\<rparr>, given_origins = None,
     given_hosts = Some (Raw_Text '' * ''), given_keys = None, given_items = None\<rparr>"

definition sample_source :: "string \<Rightarrow> py_error + given_settings" where
  "sample_source file = (if file = ''.env'' then Inr sample_given else Inl (OSError file))"

lemma sample_settings:
  "get_settings id (\<lambda>_. Inr []) sample_source (\<lambda>_. None) = Inr accepted_settings"
proof -
  have "parse_list_settings id (Raw_Text '' * '') = Inr [''*'']" by code_simp
  moreover have "normalize_log_level ''info'' = ''INFO''" by code_simp
  ultimately have "Settings id (\<lambda>_. Inr []) sample_given = model_post_init (\<lambda>_. Inr []) real_settings"
    by (simp add: Settings_def sample_given_def given_or_default_def real_settings_def default_settings_def Let_def)
  then show ?thesis
    by (simp add: get_settings_def env_file_name_def sample_source_def real_settings_accepted)
qed

theorem accepted_settings_start_the_service_witness:
  "\<exists>web. start_application sample_driver id (\<lambda>_ _ _ _. Jwt_Error) (\<lambda>_. Inr []) sample_source (\<lambda>_. None) = Inr web \<and>
     gateway (srv_app (web_server web)) = provider_gateway (Some (checkout_settings_of accepted_settings))"
proof -
  have m: "PAYMENT_PROVIDER_MODE accepted_settings = Some Mercado_Pago"
      "DATABASE_URL accepted_settings = sample_database_url"
      "EXPECTED_DATABASE_NAME accepted_settings = ''bills''" "EXPECTED_DATABASE_USERNAME accepted_settings = ''bill''"
    by (simp_all add: accepted_settings_def real_settings_def)
  have "LOG_LEVEL accepted_settings \<in> set level_names"
    by (simp add: accepted_settings_def real_settings_def default_settings_def level_names_def log_levels_def)
  then show ?thesis
    using accepted_settings_start_the_service[OF sample_settings, of sample_driver "\<lambda>_ _ _ _. Jwt_Error"]
    unfolding m sample_url_accepted by (auto simp: sample_driver_def)
qed

text \<open>A level the library does not know passes the settings and stops the application.\<close>

lemma unknown_level_stops_the_application:
  "LOG_LEVEL st \<notin> set level_names \<Longrightarrow>
     create_app db flt jwt st = Inl (ValueError (''Unknown level: '' @ repr_str (LOG_LEVEL st)))"
  by (simp add: create_app_def configure_logging_def bind_sum_def)

subsection \<open>Requests through the middleware\<close>




lemma middleware_run:
  "add_operational_headers_and_logs logger st next_call rq w =
     (let e = w_env (web_world w); fresh = uuid_at e (uuid_used e);
          c = (case map_of (req_headers rq) ''x-correlation-id'' of None \<Rightarrow> fresh | Some c \<Rightarrow> c);
          rid = (case map_of (req_headers rq) ''x-request-id'' of None \<Rightarrow> c | Some i \<Rightarrow> i)
      in case next_call rq ((web_world w)\<lparr>w_env := e\<lparr>uuid_used := Suc (uuid_used e)\<rparr>\<rparr>) of
           (Inl x, v) \<Rightarrow> (Inl x, w\<lparr>web_world := v\<rparr>)
         | (Inr resp, v) \<Rightarrow>
             (Inr (resp\<lparr>resp_headers := dict_update (resp_headers resp) (operational_headers c rid)\<rparr>),
              w\<lparr>web_world := v,
                web_requests := increment (req_method rq, req_path rq, resp_status resp) (web_requests w),
                web_observed := increment (req_method rq, req_path rq) (web_observed w),
                web_log := web_log w @ log_lines logger (completed_record st c rid)\<rparr>))"
  by (simp add: add_operational_headers_and_logs_def in_world_def in_env_def zoom_def uuid4_def andthen_def Let_def
      split: prod.splits sum.splits)













text \<open>
  An exception that is no \<open>HTTPException\<close> passes the middleware: the client gets a bare status
  500 without a correlation identifier, no counter moves and nothing is logged.
\<close>

lemma unhandled_errors_leave_no_trace:
  assumes "handle_request wrap web rq w = (Inl x, w')"
  shows "web_requests w' = web_requests w" and "web_observed w' = web_observed w" and "web_log w' = web_log w"
    and "resp_headers (fst (answer wrap web rq w)) = []" and "resp_status (fst (answer wrap web rq w)) = 500"
  using assms by (auto simp: handle_request_def middleware_run answer_def Let_def split: prod.splits sum.splits)

text \<open>The worker leaves the world alone when a repository cannot be opened.\<close>

lemma worker_needs_the_database:
  "open_repositories db (srv_settings s) = Inl x \<Longrightarrow> worker_process db s flt ds w = (Inl x, w)"
  by (simp add: worker_process_def andthen_def from_result_def)

end
