(* ===== verification/Deliveries.thy ===== *)
theory Deliveries
  imports Operations
begin

text \<open>
  The worker's side of the service: every delivery of the broker is settled once, and an event
  that was processed stays processed. The record of processed events is an interface, the locale
  \<open>processed_log\<close>, kept by the set in memory and by the table.
\<close>

section \<open>What an execution leaves alone\<close>

definition keeps :: "('s \<Rightarrow> 'x) \<Rightarrow> ('s, 'a) exec \<Rightarrow> bool" where
  "keeps g m \<longleftrightarrow> (\<forall>w. g (snd (m w)) = g w)"

lemma keepsD: "keeps g m \<Longrightarrow> m w = (r, w') \<Longrightarrow> g w' = g w"
  unfolding keeps_def by (metis snd_conv)

lemma keeps_andthen: "keeps g m \<Longrightarrow> (\<And>x. keeps g (f x)) \<Longrightarrow> keeps g (andthen m f)"
  by (auto simp: keeps_def andthen_def split: prod.splits sum.splits) (metis snd_conv)+

lemma keeps_pure [simp]: "keeps g (ret x)" "keeps g (raise e)" "keeps g (from_result r)" "keeps g (reads h)"
  by (simp_all add: keeps_def)

lemma keeps_if: "keeps g a \<Longrightarrow> keeps g b \<Longrightarrow> keeps g (if c then a else b)"
  by simp

lemma keeps_try_except:
  assumes "keeps g m" and "\<And>e k. h e = Some k \<Longrightarrow> keeps g k"
  shows "keeps g (try_except m h)"
  using assms by (auto simp: keeps_def try_except_def split: prod.splits sum.splits option.splits) (metis snd_conv)+

lemma keeps_catching: "keeps g m \<Longrightarrow> keeps g (catching cs m)"
  unfolding catching_def by (rule keeps_try_except) auto

lemma zoom_other: "(\<And>x w. g (u x w) = g w) \<Longrightarrow> keeps g (zoom f u m)"
  by (simp add: keeps_def zoom_def split: prod.splits)

lemma keeps_processed [simp]:
  "keeps w_processed (in_env m1)" "keeps w_processed (in_quotes m2)" "keeps w_processed (in_payments m3)"
  "keeps w_processed (in_publisher m4)" "keeps w_processed (in_channel m5)"
  "keeps w_processed (count_transition l)"
  by (auto simp: in_defs count_transition_def keeps_def intro!: zoom_other[unfolded keeps_def, rule_format])

lemma keeps_channel [simp]:
  "keeps w_channel (in_env m1)" "keeps w_channel (in_quotes m2)" "keeps w_channel (in_payments m3)"
  "keeps w_channel (in_publisher m4)" "keeps w_channel (in_processed m5)"
  by (auto simp: in_defs keeps_def intro!: zoom_other[unfolded keeps_def, rule_format])

lemmas keeps_intros = keeps_andthen keeps_try_except keeps_catching keeps_pure keeps_processed keeps_channel

lemma keeps_methods [simp]:
  "keeps w_processed (on_quote m a)" "keeps w_processed (on_payment m' a)"
  "keeps w_channel (on_quote m a)" "keeps w_channel (on_payment m' a)"
  unfolding on_quote_def on_payment_def by (auto intro!: keeps_intros split: prod.splits)

lemma create_keeps [simp]:
  "keeps w_processed (CreateQuoteUseCase app so items amt)" "keeps w_channel (CreateQuoteUseCase app so items amt)"
  unfolding CreateQuoteUseCase_def by (auto intro!: keeps_intros split: prod.splits)

lemma decide_keeps [simp]: "keeps w_processed (decide_status cmd a)"
  unfolding decide_status_def Let_def by (auto intro!: keeps_intros)

lemma use_cases_keep [simp]:
  "keeps w_processed (ApproveQuoteUseCase app i)" "keeps w_processed (ConfirmPaymentUseCase app j)"
  "keeps w_processed (FailPaymentUseCase app j reason)" "keeps w_processed (ApplyPaymentStatusUseCase app cmd)"
  "keeps w_processed (SyncPaymentStatusUseCase app j)"
proof -
  show apply_status: "keeps w_processed (ApplyPaymentStatusUseCase app cmd)" for cmd
    unfolding ApplyPaymentStatusUseCase_def
    by (auto intro!: keeps_intros decide_keeps split: prod.splits option.splits)
  show "keeps w_processed (SyncPaymentStatusUseCase app j)"
    unfolding SyncPaymentStatusUseCase_def by (intro keeps_intros apply_status)
qed (unfold ApproveQuoteUseCase_def ConfirmPaymentUseCase_def FailPaymentUseCase_def,
     (intro keeps_intros keeps_methods)+)

lemma count_keeps [simp]: "keeps w_processed (count_action act)"
  by (cases act) (simp_all add: count_action_def)

lemma handler_keeps_processed: "keeps w_processed (handler s req)"
  by (cases req)
     (auto simp: create_quote_def get_quote_def get_quote_by_service_order_def approve_quote_def
        get_payment_def get_payment_by_service_order_def confirm_payment_def fail_payment_def
        sync_payment_status_def simulate_payment_update_def apply_payment_status_def
        list_published_events_def drain_published_events_def read_quote_def read_payment_def
        intro!: keeps_andthen keeps_catching split: prod.splits)

lemma serve_keeps_processed: "keeps w_processed (serve s creds req)"
  unfolding serve_def by (intro keeps_andthen keeps_pure handler_keeps_processed)

section \<open>The record of processed events as an interface\<close>

definition untouched :: "world \<Rightarrow> world \<Rightarrow> bool" where
  "untouched w w' \<longleftrightarrow> w_quotes w' = w_quotes w \<and> w_payments w' = w_payments w \<and>
     w_publisher w' = w_publisher w \<and> w_channel w' = w_channel w"

lemma untouched_refl [simp]: "untouched w w"
  by (simp add: untouched_def)

locale processed_log =
  fixes port :: "world processed_port" and known :: "world \<Rightarrow> string set"
  assumes known_local: "w_processed w = w_processed v \<Longrightarrow> known w = known v"
    and asked: "is_processed port i w = (r, w') \<Longrightarrow> known w' = known w \<and> untouched w w' \<and>
      (case r of Inr b \<Rightarrow> b = (i \<in> known w) | Inl x \<Rightarrow> is_database_error x)"
    and marked: "mark_processed port i et corr w = (u, w') \<Longrightarrow> untouched w w' \<and>
      (case u of Inr _ \<Rightarrow> known w' = insert i (known w) | Inl x \<Rightarrow> is_database_error x \<and> known w' = known w)"
begin

lemma port_keeps_channel: "keeps w_channel (is_processed port i)" "keeps w_channel (mark_processed port i et corr)"
proof -
  show "keeps w_channel (is_processed port i)"
    unfolding keeps_def
  proof
    fix w
    obtain r w' where run: "is_processed port i w = (r, w')" by fastforce
    then show "w_channel (snd (is_processed port i w)) = w_channel w"
      using asked[OF run] by (simp add: untouched_def)
  qed
  show "keeps w_channel (mark_processed port i et corr)"
    unfolding keeps_def
  proof
    fix w
    obtain r w' where run: "mark_processed port i et corr w = (r, w')" by fastforce
    then show "w_channel (snd (mark_processed port i et corr w)) = w_channel w"
      using marked[OF run] by (simp add: untouched_def)
  qed
qed

lemma create_known: "CreateQuoteUseCase app so items amt w = (r, w') \<Longrightarrow> known w' = known w"
  by (rule known_local) (rule keepsD[OF create_keeps(1)])

lemma handle_cases:
  assumes "processed_repo app = port" and "handle_event app items amt m w = (r, w')"
  obtains (refused) x where "r = Inl x" "w' = w" "is_key_error x"
  | (unread) x where "r = Inl x" "is_database_error x" "untouched w w'" "known w' = known w"
  | (answered) i w1 where "map_of m ''event_id'' = Some i" "is_processed port (str_json i) w = (Inr (str_json i \<in> known w), w1)"
      "known w1 = known w" "untouched w w1" "str_json i \<in> known w \<longrightarrow> r = Inr ''skipped'' \<and> w' = w1"
      "known w1 \<subseteq> known w'" "r = Inr ''processed'' \<longrightarrow> str_json i \<in> known w'"
proof (cases "map_of m ''event_id''")
  case None
  then show thesis using assms(2) refused by (auto simp: handle_event_def item_def andthen_def)
next
  case (Some i)
  show thesis
  proof (cases "map_of m ''event_type'' = None \<or> map_of m ''correlation_id'' = None")
    case True
    then show thesis
      using Some assms(2) refused by (auto simp: handle_event_def item_def andthen_def split: option.splits)
  next
    case False
    then obtain et corr where et: "map_of m ''event_type'' = Some et" and corr: "map_of m ''correlation_id'' = Some corr"
      by auto
    have read: "item m ''event_id'' = Inr i" "item m ''event_type'' = Inr et" "item m ''correlation_id'' = Inr corr"
      using Some et corr by (simp_all add: item_def)
    obtain q w1 where q: "is_processed port (str_json i) w = (q, w1)" by fastforce
    note law = asked[OF q]
    show thesis
    proof (cases q)
      case (Inl x)
      then have "r = Inl x" "w' = w1"
        using assms q read by (simp_all add: handle_event_def)
      then show thesis using unread law Inl by simp
    next
      case (Inr known_before)
      then have q': "is_processed port (str_json i) w = (Inr (str_json i \<in> known w), w1)" using q law by simp
      have "handle_event app items amt m w = (if str_json i \<in> known w then ret ''skipped''
         else if str_json et \<noteq> ''OS_OPENED'' then ret ''ignored''
         else andthen (from_result (item m ''payload'')) (\<lambda>v.
              andthen (from_result (dict_of v)) (\<lambda>pl.
              andthen (from_result (item pl ''service_order_id'')) (\<lambda>so.
              andthen (CreateQuoteUseCase app (str_json so) items amt) (\<lambda>_.
              andthen (mark_processed port (str_json i) (str_json et) (str_json corr)) (\<lambda>_.
                ret ''processed'')))))) w1"
        using q' read by (simp add: handle_event_def assms(1))
      note run = assms(2)[unfolded this]
      have "known w1 \<subseteq> known w' \<and> (r = Inr ''processed'' \<longrightarrow> str_json i \<in> known w')"
        using run law
        by (auto simp: andthen_def split: if_splits prod.splits sum.splits
            dest!: create_known marked)
      moreover have "str_json i \<in> known w \<longrightarrow> r = Inr ''skipped'' \<and> w' = w1"
        using run by auto
      ultimately show thesis using answered[OF Some q'] law by simp
    qed
  qed
qed

lemma handle_known_mono:
  "processed_repo app = port \<Longrightarrow> handle_event app items amt m w = (r, w') \<Longrightarrow> known w \<subseteq> known w'"
  by (erule (1) handle_cases) auto

lemma deliver_known_mono:
  assumes "processed_repo (srv_app s) = port" and "deliver s flt tag body w = (r, w')"
  shows "known w \<subseteq> known w'"
proof -
  have chan: "known v' = known v" if "in_channel c v = (x, v')" for c x v v'
    by (rule known_local) (rule keepsD[OF keeps_processed(5) that])
  have h: "known v \<subseteq> known v'" if "worker_handler s m v = (x, v')" for m x v v'
    using handle_known_mono[OF assms(1)] that unfolding worker_handler_def by blast
  show ?thesis
    using assms(2) unfolding deliver_def handle_delivery_def
    by (auto simp: try_except_def andthen_def split: prod.splits sum.splits option.splits if_splits
        dest!: chan h)
qed

lemma reachable_known_mono:
  assumes "processed_repo (srv_app s) = port" and "reachable s flt w w'"
  shows "known w \<subseteq> known w'"
  using assms(2)
proof induction
  case (process w' i)
  have "known w' \<subseteq> known (process s flt i w')"
  proof (cases i)
    case (Request creds req)
    have "w_processed (snd (serve s creds req w')) = w_processed w'"
      using serve_keeps_processed unfolding keeps_def by blast
    then show ?thesis using known_local Request by (metis order_refl process.simps(1))
  next
    case (Delivery tag body)
    then show ?thesis
      using deliver_known_mono[OF assms(1), of flt tag body w'] by (cases "deliver s flt tag body w'") auto
  qed
  with process.IH show ?case by (rule order_trans)
qed simp

lemma redelivery:
  assumes "processed_repo (srv_app s) = port" and "worker_handler s m w = (Inr ''processed'', w1)"
    and "reachable s flt w1 w2" and "map_of m' ''event_id'' = map_of m ''event_id''"
    and "worker_handler s m' w2 = (r, w3)"
  shows "untouched w2 w3 \<and> (\<forall>x. r = Inr x \<longrightarrow> x = ''skipped'')"
proof -
  obtain i where i: "map_of m ''event_id'' = Some i" "str_json i \<in> known w1"
    using assms(1) assms(2)[unfolded worker_handler_def] by (rule handle_cases) auto
  then have k: "str_json i \<in> known w2" using reachable_known_mono[OF assms(1,3)] by blast
  show ?thesis
    using assms(1,5) unfolding worker_handler_def
    by (rule handle_cases) (use i k assms(4) in auto)
qed

end

section \<open>The two records\<close>

interpretation memory_log: processed_log InMemoryProcessedEventRepository "\<lambda>w. set (processed_ids (w_processed w))"
  by unfold_locales
     (auto simp: InMemoryProcessedEventRepository_def in_processed_def zoom_def untouched_def)

lemma sql_asked:
  assumes "sql_is_processed i w = (r, w')"
  shows "processed_rows (w_processed w') = processed_rows (w_processed w) \<and> untouched w w' \<and>
    (case r of Inr b \<Rightarrow> b = (i \<in> pe_event_id ` set (processed_rows (w_processed w))) | Inl x \<Rightarrow> is_database_error x)"
  using assms
  by (auto simp: sql_is_processed_def in_processed_def zoom_def pe_session_def untouched_def Let_def
      split: option.splits)

lemma sql_marked:
  assumes "sql_mark_processed i et corr w = (r, w')"
  shows "untouched w w' \<and> (case r of
      Inr _ \<Rightarrow> pe_event_id ` set (processed_rows (w_processed w')) =
               insert i (pe_event_id ` set (processed_rows (w_processed w)))
    | Inl x \<Rightarrow> is_database_error x \<and> processed_rows (w_processed w') = processed_rows (w_processed w))"
  using assms unfolding sql_mark_processed_def
proof (cases rule: andthen_cases)
  case (raised e)
  then show ?thesis using sql_asked[OF raised(1)] by simp
next
  case (returned b w1)
  note law = sql_asked[OF returned(1)]
  show ?thesis
    using returned(2) law
    by (auto simp: in_env_def in_processed_def zoom_def andthen_def now_def pe_session_def untouched_def Let_def
        split: if_splits option.splits)
qed

interpretation table_log: processed_log SqlAlchemyProcessedEventRepository
  "\<lambda>w. pe_event_id ` set (processed_rows (w_processed w))"
proof (unfold_locales, goal_cases)
  case (2 i w r w')
  then show ?case using sql_asked by (simp add: SqlAlchemyProcessedEventRepository_def)
next
  case (3 i et corr w u w')
  then have "sql_mark_processed i et corr w = (u, w')" by (simp add: SqlAlchemyProcessedEventRepository_def)
  from sql_marked[OF this] show ?case by (auto split: sum.splits)
qed simp

section \<open>Exceptions, not exits\<close>

text \<open>The callback catches \<open>Exception\<close>: nothing the handler raises is outside it.\<close>

definition orderly :: "('s, 'a) exec \<Rightarrow> bool" where
  "orderly m \<longleftrightarrow> (\<forall>s x s'. m s = (Inl x, s') \<longrightarrow> is_exception x)"

lemma orderlyD: "orderly m \<Longrightarrow> m s = (Inl x, s') \<Longrightarrow> is_exception x"
  by (auto simp: orderly_def)

lemma orderly_andthen:
  assumes "orderly m" and "\<And>x. orderly (f x)"
  shows "orderly (andthen m f)"
  unfolding orderly_def
proof (intro allI impI)
  fix s x s'
  assume "andthen m f s = (Inl x, s')"
  then show "is_exception x"
    by (cases rule: andthen_cases) (use assms in \<open>auto dest: orderlyD\<close>)
qed

lemma orderly_try_finally: "orderly m \<Longrightarrow> orderly f \<Longrightarrow> orderly (try_finally m f)"
  unfolding orderly_def try_finally_def by (auto split: prod.splits sum.splits) blast+

lemma orderly_zoom: "orderly m \<Longrightarrow> orderly (zoom g u m)"
  by (auto simp: orderly_def zoom_def split: prod.splits)

lemma orderly_pure [simp]: "orderly (ret x)" "orderly (reads g)" "orderly (writes f)"
  by (simp_all add: orderly_def)

lemma orderly_result: "(\<And>x. r = Inl x \<Longrightarrow> is_exception x) \<Longrightarrow> orderly (from_result r)"
  by (auto simp: orderly_def)

lemma database_error_exception: "is_database_error x \<Longrightarrow> is_exception x"
  by (cases x) (auto simp: is_database_error_def)

lemma orderly_session: "orderly m \<Longrightarrow> orderly (session m)"
  by (auto simp: orderly_def session_def Let_def split: option.splits)

lemma orderly_cells [simp]:
  "orderly (in_quotes (alloc q))" "orderly (in_quotes (save InMemoryQuoteRepository a))"
  "orderly (in_quotes (save (SqlAlchemyQuoteRepository flt) a))"
  by (auto simp: in_quotes_def orderly_def InMemoryQuoteRepository_def SqlAlchemyQuoteRepository_def mem_save_def
      sql_save_def session_def andthen_def Let_def alloc_def zoom_def split: option.splits prod.splits if_splits)

lemma orderly_create: "orderly (in_env (quote_create so items tot))"
  unfolding in_env_def by (rule orderly_zoom) (auto simp: orderly_def quote_create_run Let_def split: if_splits)

lemma validate_exception: "validate_event_message m = Inl x \<Longrightarrow> is_exception x"
  by (auto simp: validate_event_message_def bind_sum_def Let_def item_def
      split: sum.splits if_splits json.splits option.splits)

lemma orderly_message: "orderly (from_result (event_to_message ev))"
  by (rule orderly_result)
     (auto simp: event_to_message_def bind_sum_def Let_def dest: validate_exception split: sum.splits)

lemma fault_exception [simp]: "is_exception (fault_error f)"
  by (cases f) simp_all

lemma orderly_amqp [simp]: "orderly (amqp c)"
  by (auto simp: orderly_def amqp_def Let_def split: option.splits)

lemma orderly_publish:
  "orderly (in_publisher (publish InMemoryEventPublisher ev))"
  "orderly (in_publisher (publish (RabbitMqBlockingEventPublisher st) ev))"
proof -
  show "orderly (in_publisher (publish InMemoryEventPublisher ev))"
    unfolding in_publisher_def InMemoryEventPublisher_def memory_publish_def publisher_port.select_convs
    by (intro orderly_zoom orderly_andthen orderly_message orderly_pure)
  have "orderly (build_publisher st)" "orderly (channel_publish st ev)"
    unfolding build_publisher_def channel_publish_def by (intro orderly_andthen orderly_amqp orderly_message)+
  moreover have "orderly close_if_open"
    unfolding close_if_open_def connection_is_open_def by (auto intro!: orderly_andthen)
  ultimately show "orderly (in_publisher (publish (RabbitMqBlockingEventPublisher st) ev))"
    unfolding in_publisher_def RabbitMqBlockingEventPublisher_def blocking_publish_def publisher_port.select_convs in_broker_def
    by (intro orderly_zoom orderly_andthen orderly_try_finally orderly_message orderly_pure)
qed

lemma money_exception: "Money d c = Inl x \<Longrightarrow> is_exception x"
  by (cases d) (auto simp: Money_def split: if_splits bool.splits)

lemma dict_of_exception: "dict_of v = Inl x \<Longrightarrow> is_exception x"
proof -
  have pairs: "dict_pairs xs d = Inl x \<Longrightarrow> is_exception x" for xs d
    by (induction xs d rule: dict_pairs.induct) (auto split: option.splits list.splits if_splits json.splits)
  show "dict_of v = Inl x \<Longrightarrow> is_exception x"
    by (auto simp: dict_of_def pairs split: json.splits option.splits)
qed

lemma orderly_item: "orderly (from_result (item d k))"
  by (rule orderly_result) (auto simp: item_def split: option.splits)

lemma orderly_processed:
  "orderly (is_processed InMemoryProcessedEventRepository i)"
  "orderly (mark_processed InMemoryProcessedEventRepository i et corr)"
  "orderly (is_processed SqlAlchemyProcessedEventRepository i)"
  "orderly (mark_processed SqlAlchemyProcessedEventRepository i et corr)"
  by (auto simp: orderly_def dest!: memory_log.asked memory_log.marked table_log.asked table_log.marked
      intro: database_error_exception)

lemma orderly_handler:
  assumes "build_app flt st = Inr app"
  shows "orderly (handle_event app items amt m)"
proof -
  obtain p where app: "app = (case APP_RUNTIME_MODE st of
      Memory \<Rightarrow> memory_app p | Real \<Rightarrow> real_app flt (rabbit_settings st) p)"
    using assms by (rule build_app_cases)
  have "orderly (in_quotes (save (quote_repo app) a))" "orderly (in_publisher (publish (event_pub app) ev))"
    "orderly (is_processed (processed_repo app) i)" "orderly (mark_processed (processed_repo app) i et corr)"
    for a ev i et corr
    using app by (cases "APP_RUNTIME_MODE st"; simp add: memory_app_def real_app_def orderly_publish orderly_processed)+
  moreover have "orderly (from_result (Money amt ''BRL''))" "orderly (from_result (dict_of v))" for v
    by (auto intro!: orderly_result intro: money_exception dict_of_exception)
  ultimately show ?thesis
    unfolding handle_event_def CreateQuoteUseCase_def
    by (auto intro!: orderly_andthen orderly_item orderly_create split: prod.splits)
qed

section \<open>Settling deliveries\<close>

text \<open>The delivery tags a channel log settles, in order.\<close>

fun settled :: "amqp_op list \<Rightarrow> nat list" where
  "settled [] = []"
| "settled (BasicAck tag # ops) = tag # settled ops"
| "settled (BasicNack tag _ # ops) = tag # settled ops"
| "settled (_ # ops) = settled ops"

lemma settled_append [simp]: "settled (a @ b) = settled a @ settled b"
  by (induction a rule: settled.induct) simp_all

lemma handle_keeps_channel:
  assumes "build_app flt st = Inr app"
  shows "keeps w_channel (handle_event app items amt m)"
proof -
  obtain p where app: "app = (case APP_RUNTIME_MODE st of
      Memory \<Rightarrow> memory_app p | Real \<Rightarrow> real_app flt (rabbit_settings st) p)"
    using assms by (rule build_app_cases)
  have "keeps w_channel (is_processed (processed_repo app) i)" "keeps w_channel (mark_processed (processed_repo app) i et corr)"
    for i et corr
    using app memory_log.port_keeps_channel table_log.port_keeps_channel
    by (cases "APP_RUNTIME_MODE st"; simp add: memory_app_def real_app_def)+
  then show ?thesis
    unfolding handle_event_def by (intro keeps_andthen keeps_if keeps_pure create_keeps)
qed

lemma in_channel_run: "in_channel m w = (case m (w_channel w) of (r, b) \<Rightarrow> (r, w\<lparr>w_channel := b\<rparr>))"
  by (simp add: in_channel_def zoom_def)

lemma amqp_law:
  assumes "amqp c b = (u, b')"
  obtains (accepted) "u = Inr ()" "amqp_log b' = amqp_log b @ [c]" | (refused) x where "u = Inl x" "is_broker_error x"
    "amqp_log b' = amqp_log b"
  using assms by (auto simp: amqp_def Let_def split: option.splits)

lemma parse_message_exception:
  assumes "parse_message flt body = Inl x"
  shows "is_exception x"
proof (cases "loads_bytes flt body")
  case (Inl e)
  then have "is_exception e"
    unfolding loads_bytes_def loads_def Let_def by (auto split: option.splits prod.splits if_splits)
  then show ?thesis using assms Inl by (simp add: parse_message_def)
next
  case (Inr v)
  show ?thesis
  proof (cases v)
    case (JObj m)
    then show ?thesis
      using assms Inr by (cases "validate_event_message m") (auto simp: parse_message_def dest: validate_exception)
  qed (use assms Inr in \<open>auto simp: parse_message_def\<close>)
qed

text \<open>The callback: the work, which never touches the channel, and then its settlement.\<close>

lemma deliver_run:
  assumes "build_app flt' st = Inr (srv_app s)"
  obtains r1 w1 where "w_channel w1 = w_channel w"
    "deliver s flt tag body w = (case r1 of
       Inl (x::py_error) \<Rightarrow> in_channel (amqp (BasicNack tag False)) w1
     | Inr (y::string) \<Rightarrow> (case amqp (BasicAck tag) (w_channel w1) of
         (Inr u, b) \<Rightarrow> (Inr (), w1\<lparr>w_channel := b\<rparr>)
       | (Inl x, b) \<Rightarrow> in_channel (amqp (BasicNack tag False)) (w1\<lparr>w_channel := b\<rparr>)))"
proof -
  let ?work = "andthen (from_result (parse_message flt body)) (\<lambda>m. worker_handler s m)"
  obtain r1 w1 where work: "?work w = (r1, w1)" by fastforce
  have same: "w_channel w1 = w_channel w"
    by (rule keepsD[where m = ?work and g = w_channel, OF _ work])
       (auto intro!: keeps_andthen handle_keeps_channel[OF assms] simp: worker_handler_def)
  have raised: "is_exception x" if "r1 = Inl x" for x
    using work that orderlyD[OF orderly_handler[OF assms]] parse_message_exception
    by (auto simp: worker_handler_def andthen_def split: sum.splits)
  have broken: "is_exception x" if "amqp c b = (Inl x, b')" for c x b b'
    using orderlyD[OF orderly_amqp that] .
  have "deliver s flt tag body w = try_except (andthen ?work (\<lambda>_. in_channel (amqp (BasicAck tag))))
      (\<lambda>e. if is_exception e then Some (in_channel (amqp (BasicNack tag False))) else None) w"
    by (simp add: deliver_def handle_delivery_def andthen_assoc)
  also have "\<dots> = (case r1 of
       Inl (x::py_error) \<Rightarrow> in_channel (amqp (BasicNack tag False)) w1
     | Inr y \<Rightarrow> (case amqp (BasicAck tag) (w_channel w1) of
         (Inr u, b) \<Rightarrow> (Inr (), w1\<lparr>w_channel := b\<rparr>)
       | (Inl x, b) \<Rightarrow> in_channel (amqp (BasicNack tag False)) (w1\<lparr>w_channel := b\<rparr>)))"
  proof (cases r1)
    case (Inl x)
    then show ?thesis using work raised[OF Inl] by (simp add: try_except_def)
  next
    case (Inr y)
    obtain u b where ack: "amqp (BasicAck tag) (w_channel w1) = (u, b)" by fastforce
    show ?thesis
      using work Inr ack broken[of "BasicAck tag" "w_channel w1"]
      by (cases u) (simp_all add: try_except_def in_channel_run[of _ w1])
  qed
  finally show thesis by (rule that[OF same])
qed

text \<open>
  Property C18. Every delivery is settled at most once, and exactly once unless the broker itself
  fails: the callback appends to the channel's log either one acknowledgement of the delivery, or
  one rejection without requeueing, or, only when the broker refused, nothing; nothing the message
  or the handler does escapes it.
\<close>

theorem each_delivery_is_settled_once:
  assumes "build_app flt' st = Inr (srv_app s)" and "deliver s flt tag body w = (r, w')"
  shows "\<exists>ops. amqp_log (w_channel w') = amqp_log (w_channel w) @ ops \<and>
     (case r of
        Inr _ \<Rightarrow> ops = [BasicAck tag] \<or> ops = [BasicNack tag False]
      | Inl x \<Rightarrow> ops = [] \<and> is_broker_error x)"
  using assms(1)
proof (rule deliver_run[of flt' st s w flt tag body])
  fix r1 w1
  assume same: "w_channel w1 = w_channel w" and run: "deliver s flt tag body w = (case r1 of
       Inl (x::py_error) \<Rightarrow> in_channel (amqp (BasicNack tag False)) w1
     | Inr (y::string) \<Rightarrow> (case amqp (BasicAck tag) (w_channel w1) of
         (Inr u, b) \<Rightarrow> (Inr (), w1\<lparr>w_channel := b\<rparr>)
       | (Inl x, b) \<Rightarrow> in_channel (amqp (BasicNack tag False)) (w1\<lparr>w_channel := b\<rparr>)))"
  have nack: ?thesis if "in_channel (amqp (BasicNack tag False)) v = (r, w')"
    and "amqp_log (w_channel v) = amqp_log (w_channel w)" for v
  proof -
    obtain u b where a: "amqp (BasicNack tag False) (w_channel v) = (u, b)" by fastforce
    from a show ?thesis
      by (cases rule: amqp_law) (use that a in \<open>auto simp: in_channel_run\<close>)
  qed
  obtain u b where a: "amqp (BasicAck tag) (w_channel w1) = (u, b)" by fastforce
  show ?thesis
  proof (cases r1)
    case (Inl x)
    then show ?thesis using nack[of w1] run assms(2) same by simp
  next
    case (Inr y)
    from a show ?thesis
    proof (cases rule: amqp_law)
      case accepted
      then show ?thesis using run assms(2) same Inr a by auto
    next
      case (refused x)
      then show ?thesis using nack[of "w1\<lparr>w_channel := b\<rparr>"] run assms(2) same Inr a by simp
    qed
  qed
qed

section \<open>A broker that answers\<close>

definition steady :: "broker \<Rightarrow> bool" where
  "steady b \<longleftrightarrow> (\<forall>n. amqp_fault b n = None)"

lemma steady_amqp:
  "steady b \<Longrightarrow> amqp c b = (Inr (), b\<lparr>amqp_count := Suc (amqp_count b), amqp_log := amqp_log b @ [c]\<rparr>)"
  "steady b \<Longrightarrow> steady (b\<lparr>amqp_count := n, amqp_log := l\<rparr>)"
  by (simp_all add: steady_def amqp_def Let_def)

text \<open>Operations that run through and settle nothing.\<close>

definition smooth :: "(broker, unit) exec \<Rightarrow> bool" where
  "smooth m \<longleftrightarrow> (\<forall>b. steady b \<longrightarrow> (\<exists>b'. m b = (Inr (), b') \<and> steady b' \<and> settled (amqp_log b') = settled (amqp_log b)))"

lemma smooth_amqp: "settled [c] = [] \<Longrightarrow> smooth (amqp c)"
  by (simp add: smooth_def steady_amqp)

lemma smooth_consuming: "smooth (amqp (BasicQos n))" "smooth (amqp (BasicConsume q))"
  by (auto intro: smooth_amqp)

lemma smooth_ret: "smooth (ret ())"
  by (simp add: smooth_def)

lemma smooth_andthen:
  assumes "smooth m" and "smooth m'"
  shows "smooth (andthen m (\<lambda>_. m'))"
  unfolding smooth_def
proof (intro allI impI)
  fix b assume "steady b"
  then obtain b1 where b1: "m b = (Inr (), b1)" "steady b1" "settled (amqp_log b1) = settled (amqp_log b)"
    using assms(1) by (auto simp: smooth_def)
  obtain b2 where "m' b1 = (Inr (), b2)" "steady b2" "settled (amqp_log b2) = settled (amqp_log b1)"
    using assms(2) b1(2) by (auto simp: smooth_def)
  then show "\<exists>b'. andthen m (\<lambda>_. m') b = (Inr (), b') \<and> steady b' \<and> settled (amqp_log b') = settled (amqp_log b)"
    using b1 by simp
qed

lemma smooth_binds:
  "smooth m \<Longrightarrow> smooth (foldl (\<lambda>m key. andthen m (\<lambda>_. amqp (QueueBind ex q key))) m keys)"
  by (induction keys arbitrary: m) (simp_all add: smooth_andthen smooth_amqp)

lemma smooth_connect: "smooth (worker_connect st keys)"
  unfolding worker_connect_def by (intro smooth_andthen smooth_binds smooth_ret smooth_amqp) simp_all

lemma smooth_close: "smooth close_if_open"
  by (auto simp: smooth_def close_if_open_def connection_is_open_def andthen_def steady_amqp)

lemma in_channel_smooth:
  assumes "smooth m" and "steady (w_channel w)"
  obtains w' where "in_channel m w = (Inr (), w')" "steady (w_channel w')"
    "settled (amqp_log (w_channel w')) = settled (amqp_log (w_channel w))"
proof -
  obtain b where "m (w_channel w) = (Inr (), b)" "steady b" "settled (amqp_log b) = settled (amqp_log (w_channel w))"
    using assms by (auto simp: smooth_def)
  then show thesis using that[of "w\<lparr>w_channel := b\<rparr>"] by (simp add: in_channel_run)
qed

lemma deliver_steady:
  assumes "build_app flt' st = Inr (srv_app s)" and "steady (w_channel w)"
  obtains w' where "deliver s flt tag body w = (Inr (), w')" "steady (w_channel w')"
    "settled (amqp_log (w_channel w')) = settled (amqp_log (w_channel w)) @ [tag]"
  using assms(1)
proof (rule deliver_run[of flt' st s w flt tag body])
  fix r1 w1
  assume same: "w_channel w1 = w_channel w" and run: "deliver s flt tag body w = (case r1 of
       Inl (x::py_error) \<Rightarrow> in_channel (amqp (BasicNack tag False)) w1
     | Inr (y::string) \<Rightarrow> (case amqp (BasicAck tag) (w_channel w1) of
         (Inr u, b) \<Rightarrow> (Inr (), w1\<lparr>w_channel := b\<rparr>)
       | (Inl x, b) \<Rightarrow> in_channel (amqp (BasicNack tag False)) (w1\<lparr>w_channel := b\<rparr>)))"
  note step = steady_amqp[OF assms(2)]
  have ran: "\<exists>c. settled [c] = [tag] \<and> deliver s flt tag body w = (Inr (), w1\<lparr>w_channel := (w_channel w)\<lparr>
      amqp_count := Suc (amqp_count (w_channel w)), amqp_log := amqp_log (w_channel w) @ [c]\<rparr>\<rparr>)"
  proof (cases r1)
    case (Inl x)
    then show ?thesis using run same step(1)
      by (intro exI[of _ "BasicNack tag False"]) (simp add: in_channel_run)
  next
    case (Inr y)
    then show ?thesis using run same step(1)
      by (intro exI[of _ "BasicAck tag"]) simp
  qed
  then obtain c where "settled [c] = [tag]" "deliver s flt tag body w = (Inr (), w1\<lparr>w_channel := (w_channel w)\<lparr>
      amqp_count := Suc (amqp_count (w_channel w)), amqp_log := amqp_log (w_channel w) @ [c]\<rparr>\<rparr>)" by blast
  then show thesis using that step(2) by simp
qed

lemma consume_steady:
  assumes "build_app flt' st = Inr (srv_app s)" and "steady (w_channel w)"
  obtains w' where "consume (deliver s flt) ds w = (Inr (), w')" "steady (w_channel w')"
    "settled (amqp_log (w_channel w')) = settled (amqp_log (w_channel w)) @ map fst ds"
  using assms(2)
proof (induction ds arbitrary: w thesis)
  case (Cons d ds)
  obtain tag body where d: "d = (tag, body)" by (cases d)
  obtain w1 where w1: "deliver s flt tag body w = (Inr (), w1)" "steady (w_channel w1)"
      "settled (amqp_log (w_channel w1)) = settled (amqp_log (w_channel w)) @ [tag]"
    by (rule deliver_steady[OF assms(1) Cons.prems(2)])
  obtain w2 where "consume (deliver s flt) ds w1 = (Inr (), w2)" "steady (w_channel w2)"
      "settled (amqp_log (w_channel w2)) = settled (amqp_log (w_channel w1)) @ map fst ds"
    using Cons.IH[OF _ w1(2)] by blast
  then show thesis using Cons.prems(1) w1 d by simp
qed simp

section \<open>Properties of the worker\<close>

text \<open>
  Property C19. With a broker that answers the worker runs to its end: it returns 0, and it has
  settled every delivery it was handed, each once and in order, whatever the messages contained,
  whatever the database and the publisher's broker did.
\<close>

theorem worker_settles_every_delivery:
  assumes "build_app flt' st = Inr (srv_app s)" and "\<forall>n. amqp_fault (w_channel w) n = None"
  shows "\<exists>w'. worker_main s flt deliveries w = (Inr 0, w') \<and>
     settled (amqp_log (w_channel w')) = settled (amqp_log (w_channel w)) @ map fst deliveries"
proof -
  let ?st = "rabbit_settings (srv_settings s)"
  have "steady (w_channel w)" using assms(2) by (simp add: steady_def)
  then obtain w1 where w1: "build_event_worker (srv_settings s) w = (Inr (), w1)" "steady (w_channel w1)"
      "settled (amqp_log (w_channel w1)) = settled (amqp_log (w_channel w))"
    unfolding build_event_worker_def by (rule in_channel_smooth[OF smooth_connect])
  obtain w2 where w2: "in_channel (amqp (BasicQos 1)) w1 = (Inr (), w2)" "steady (w_channel w2)"
      "settled (amqp_log (w_channel w2)) = settled (amqp_log (w_channel w1))"
    by (rule in_channel_smooth[OF smooth_consuming(1) w1(2)])
  obtain w3 where w3: "in_channel (amqp (BasicConsume (amqp_queue ?st))) w2 = (Inr (), w3)" "steady (w_channel w3)"
      "settled (amqp_log (w_channel w3)) = settled (amqp_log (w_channel w2))"
    by (rule in_channel_smooth[OF smooth_consuming(2) w2(2)])
  obtain w4 where w4: "consume (deliver s flt) deliveries w3 = (Inr (), w4)" "steady (w_channel w4)"
      "settled (amqp_log (w_channel w4)) = settled (amqp_log (w_channel w3)) @ map fst deliveries"
    by (rule consume_steady[OF assms(1) w3(2)])
  obtain w5 where w5: "in_channel close_if_open w4 = (Inr (), w5)"
      "settled (amqp_log (w_channel w5)) = settled (amqp_log (w_channel w4))"
    by (rule in_channel_smooth[OF smooth_close w4(2)])
  have "deliver s flt = handle_delivery in_channel flt (worker_handler s)"
    by (rule ext)+ (simp add: deliver_def)
  then have "worker_start in_channel ?st flt (worker_handler s) deliveries w1 = (Inr (), w4)"
    using w2(1) w3(1) w4(1) by (simp add: worker_start_def)
  then have "worker_main s flt deliveries w = (Inr 0, w5)"
    using w1(1) w5(1) by (simp add: worker_main_def try_finally_def)
  then show ?thesis using w1(3) w2(3) w3(3) w4(3) w5(2) by simp
qed

theorem worker_settles_every_delivery_witness:
  "\<exists>w'. worker_main sample_server id [(7, ''{}''), (8, ''no json'')] sample_world = (Inr 0, w') \<and>
     settled (amqp_log (w_channel w')) = [7, 8]"
proof -
  have "\<forall>n. amqp_fault (w_channel sample_world) n = None" and log: "settled (amqp_log (w_channel sample_world)) = []"
    by (simp_all add: sample_world_def sample_broker_def)
  from worker_settles_every_delivery[OF sample_app this(1), of id "[(7, ''{}''), (8, ''no json'')]"]
  show ?thesis by (simp add: log)
qed

theorem each_delivery_is_settled_once_witness:
  "\<exists>ops. amqp_log (w_channel (snd (deliver sample_server id 7 ''{}'' sample_world))) = ops \<and>
     (ops = [BasicAck 7] \<or> ops = [BasicNack 7 False])"
proof -
  have "amqp_log (w_channel sample_world) = []" by (simp add: sample_world_def sample_broker_def)
  moreover have "steady (w_channel sample_world)" by (simp add: steady_def sample_world_def sample_broker_def)
  then obtain w' where "deliver sample_server id 7 ''{}'' sample_world = (Inr (), w')"
    using deliver_steady[OF sample_app] by blast
  ultimately show ?thesis
    using each_delivery_is_settled_once[OF sample_app, of id 7 "''{}''" sample_world "Inr ()" w'] by simp
qed

text \<open>
  Property C20. An event is processed once: after a message was processed, whatever requests and
  deliveries came in between, a message with the same event identifier changes no quote, no
  payment, no published message and no broker state, and if the handler returns at all it says
  that the message was skipped.
\<close>

theorem redelivered_events_change_nothing:
  assumes "build_app flt' st = Inr (srv_app s)" and "worker_handler s m w = (Inr ''processed'', w1)"
    and "reachable s flt w1 w2" and "map_of m' ''event_id'' = map_of m ''event_id''"
    and "worker_handler s m' w2 = (r, w3)"
  shows "w_quotes w3 = w_quotes w2 \<and> w_payments w3 = w_payments w2 \<and> w_publisher w3 = w_publisher w2 \<and>
     w_channel w3 = w_channel w2 \<and> (\<forall>x. r = Inr x \<longrightarrow> x = ''skipped'')"
proof -
  obtain p where app: "srv_app s = (case APP_RUNTIME_MODE st of
      Memory \<Rightarrow> memory_app p | Real \<Rightarrow> real_app flt' (rabbit_settings st) p)"
    using assms(1) by (rule build_app_cases)
  have "untouched w2 w3 \<and> (\<forall>x. r = Inr x \<longrightarrow> x = ''skipped'')"
  proof (cases "APP_RUNTIME_MODE st")
    case Memory
    then show ?thesis
      using app by (intro memory_log.redelivery[OF _ assms(2-5)]) (simp add: memory_app_def)
  next
    case Real
    then show ?thesis
      using app by (intro table_log.redelivery[OF _ assms(2-5)]) (simp add: real_app_def)
  qed
  then show ?thesis by (simp add: untouched_def)
qed

definition opened_message :: message where
  "opened_message =
     [(''event_id'', JStr ''e1''), (''event_type'', JStr ''OS_OPENED''), (''correlation_id'', JStr ''c1''),
      (''occurred_at'', JStr ''now''), (''payload'', JObj [(''service_order_id'', JStr ''so1'')])]"

lemma opened_processed:
  "\<exists>w1. worker_handler sample_server opened_message sample_world = (Inr ''processed'', w1) \<and>
     processed_ids (w_processed w1) = [''e1'']"
proof -
  have "strip ''so1'' = ''so1''" "strip ''BRL'' = ''BRL''" by code_simp+
  then show ?thesis
    by (simp add: worker_handler_def handle_event_def opened_message_def sample_server_def memory_app_def item_def
        sample_world_def CreateQuoteUseCase_def Money_def default_settings_def in_env_def in_quotes_def
        in_publisher_def in_processed_def zoom_def quote_create_run alloc_def Let_def andthen_def
        InMemoryQuoteRepository_def mem_save_def InMemoryEventPublisher_def memory_publish_def
        InMemoryProcessedEventRepository_def event_to_message_known known_event_def integration_event_types_def)
qed

theorem redelivered_events_change_nothing_witness:
  "\<exists>w1 w3. worker_handler sample_server opened_message sample_world = (Inr ''processed'', w1) \<and>
     worker_handler sample_server opened_message w1 = (Inr ''skipped'', w3) \<and> w_quotes w3 = w_quotes w1"
proof -
  obtain w1 where w1: "worker_handler sample_server opened_message sample_world = (Inr ''processed'', w1)"
      "processed_ids (w_processed w1) = [''e1'']"
    using opened_processed by blast
  obtain r w3 where again: "worker_handler sample_server opened_message w1 = (r, w3)" by fastforce
  from redelivered_events_change_nothing[OF sample_app w1(1) reachable.start refl again]
  have "w_quotes w3 = w_quotes w1" by simp
  moreover have "r = Inr ''skipped''"
    using again w1(2)
    by (simp add: worker_handler_def handle_event_def opened_message_def sample_server_def memory_app_def item_def
        in_processed_def zoom_def andthen_def InMemoryProcessedEventRepository_def)
  ultimately show ?thesis using w1(1) again by blast
qed

end
