(* ===== verification/Refusals.thy ===== *)
theory Refusals
  imports Deliveries
begin

text \<open>
  Refused requests. A route turns the exceptions \<open>ValueError\<close>, \<open>KeyError\<close> and
  \<open>PaymentGatewayError\<close> of its use case into a response of the client's fault or the
  provider's; what such a response says about the tables and the published events is the
  subject of this theory, for the service in real mode. A use case writes its tables after
  everything that can raise one of the three, so \<open>refusing\<close> executions are built from quiet
  ones, which write nothing, and loud ones, which raise none of the three. The publisher is loud
  as long as the broker client raises exceptions of its own only; the last section shows what
  happens when it raises a \<open>ValueError\<close>.
\<close>

section \<open>Refusing executions\<close>

definition caught :: "py_error \<Rightarrow> bool" where
  "caught x \<longleftrightarrow> is_value_error x \<or> is_key_error x \<or> is_gateway_error x \<or>
     (case x of HTTPException _ _ \<Rightarrow> True | _ \<Rightarrow> False)"

text \<open>What is durable or visible outside the process: the tables, and all the publisher did.\<close>

definition durable :: "world \<Rightarrow> quote_row list \<times> payment_row list \<times> publisher" where
  "durable w = (rows (w_quotes w), rows (w_payments w), w_publisher w)"

definition mild :: "broker \<Rightarrow> bool" where
  "mild b \<longleftrightarrow> (\<forall>n m. amqp_fault b n \<noteq> Some (Amqp_Value_Error m))"

abbreviation polite :: "world \<Rightarrow> bool" where
  "polite w \<equiv> mild (broker_of (w_publisher w))"

text \<open>Both kinds stay inside \<open>P\<close>, a condition on the state that no step of theirs ends.\<close>

definition loud :: "('s \<Rightarrow> bool) \<Rightarrow> ('s, 'a) exec \<Rightarrow> bool" where
  "loud P m \<longleftrightarrow> (\<forall>s r s'. P s \<longrightarrow> m s = (r, s') \<longrightarrow> P s' \<and> (\<forall>x. r = Inl x \<longrightarrow> \<not> caught x))"

definition refusing :: "(world, 'a) exec \<Rightarrow> bool" where
  "refusing m \<longleftrightarrow> (\<forall>w r w'. polite w \<longrightarrow> m w = (r, w') \<longrightarrow>
     polite w' \<and> (\<forall>x. r = Inl x \<longrightarrow> caught x \<longrightarrow> durable w' = durable w))"

lemma loudI:
  assumes "\<And>s r s'. P s \<Longrightarrow> m s = (r, s') \<Longrightarrow> P s'" and "\<And>s x s'. P s \<Longrightarrow> m s = (Inl x, s') \<Longrightarrow> \<not> caught x"
  shows "loud P m"
  using assms unfolding loud_def by blast

lemma loudD:
  assumes "loud P m" and "P s" and "m s = (r, s')"
  shows "P s'" and "r = Inl x \<Longrightarrow> \<not> caught x"
  using assms unfolding loud_def by blast+

lemma refusingI:
  assumes "\<And>w r w'. polite w \<Longrightarrow> m w = (r, w') \<Longrightarrow> polite w'"
    and "\<And>w x w'. polite w \<Longrightarrow> m w = (Inl x, w') \<Longrightarrow> caught x \<Longrightarrow> durable w' = durable w"
  shows "refusing m"
  using assms unfolding refusing_def by blast

lemma refusingD:
  assumes "refusing m" and "polite w" and "m w = (r, w')"
  shows "polite w'" and "r = Inl x \<Longrightarrow> caught x \<Longrightarrow> durable w' = durable w"
  using assms unfolding refusing_def by blast+

lemma loud_andthen:
  assumes m: "loud P m" and f: "\<And>x s s'. m s = (Inr x, s') \<Longrightarrow> loud P (f x)"
  shows "loud P (andthen m f)"
  unfolding loud_def
proof (intro allI impI)
  fix s r s' assume P: "P s" and "andthen m f s = (r, s')"
  from this(2) show "P s' \<and> (\<forall>x. r = Inl x \<longrightarrow> \<not> caught x)"
  proof (cases rule: andthen_cases)
    case (raised e)
    then show ?thesis using loudD[OF m P raised(1)] by blast
  next
    case (returned y s1)
    then show ?thesis using loudD[OF f[OF returned(1)] loudD(1)[OF m P returned(1)] returned(2)] by blast
  qed
qed

lemma refusing_loud: "loud polite m \<Longrightarrow> refusing m"
  by (auto simp: loud_def refusing_def)

lemma keeps_polite: "keeps durable m \<Longrightarrow> polite w \<Longrightarrow> m w = (r, w') \<Longrightarrow> polite w'"
  using keepsD[of durable m w r w'] by (simp add: durable_def)

lemma refusing_quiet:
  assumes "keeps durable m" and "\<And>x w w'. m w = (Inr x, w') \<Longrightarrow> refusing (f x)"
  shows "refusing (andthen m f)"
  unfolding refusing_def
proof (intro allI impI)
  fix w r w' assume polite: "polite w" and "andthen m f w = (r, w')"
  from this(2) show "polite w' \<and> (\<forall>x. r = Inl x \<longrightarrow> caught x \<longrightarrow> durable w' = durable w)"
  proof (cases rule: andthen_cases)
    case (raised e)
    then show ?thesis using keepsD[OF assms(1)] keeps_polite[OF assms(1) polite] by blast
  next
    case (returned y w1)
    note first = keepsD[OF assms(1) returned(1)] keeps_polite[OF assms(1) polite returned(1)]
    then show ?thesis using refusingD[OF assms(2)[OF returned(1)] first(2) returned(2)] by simp
  qed
qed

lemma refusing_keeps: "keeps durable m \<Longrightarrow> refusing m"
  by (rule refusingI) (auto dest: keepsD keeps_polite)

lemma loud_ret [simp]: "loud P (ret x)" "loud P (reads g)"
  by (simp_all add: loud_def)

lemma loud_zoom:
  assumes "loud P m" and "\<And>s t. rd (wr t s) = t"
  shows "loud (\<lambda>s. P (rd s)) (zoom rd wr m)"
  using assms by (auto simp: loud_def zoom_def split: prod.splits)

lemma refusing_andthen_loud:
  assumes m: "refusing m" and f: "\<And>x. loud polite (f x)"
  shows "refusing (andthen m f)"
  unfolding refusing_def
proof (intro allI impI)
  fix w r w' assume polite: "polite w" and "andthen m f w = (r, w')"
  from this(2) show "polite w' \<and> (\<forall>x. r = Inl x \<longrightarrow> caught x \<longrightarrow> durable w' = durable w)"
  proof (cases rule: andthen_cases)
    case (raised e)
    then show ?thesis using refusingD[OF m polite raised(1)] by blast
  next
    case (returned y w1)
    then show ?thesis using loudD[OF f refusingD(1)[OF m polite returned(1)] returned(2)] by blast
  qed
qed

lemma loud_try_finally:
  assumes "loud P m" and "loud P f"
  shows "loud P (try_finally m f)"
  unfolding loud_def
proof (intro allI impI)
  fix s r s' assume P: "P s" and run: "try_finally m f s = (r, s')"
  obtain r1 s1 where m: "m s = (r1, s1)" by fastforce
  obtain r2 s2 where f: "f s1 = (r2, s2)" by fastforce
  note P1 = loudD(1)[OF assms(1) P m]
  show "P s' \<and> (\<forall>x. r = Inl x \<longrightarrow> \<not> caught x)"
    using run m f loudD[OF assms(1) P m] loudD[OF assms(2) P1 f] by (auto simp: try_finally_def split: sum.splits)
qed

section \<open>The collaborators of the real mode\<close>

lemma keeps_durable_env [simp]: "keeps durable (in_env m)"
  by (auto simp: durable_def keeps_def in_env_def zoom_def split: prod.splits)

lemma keeps_durable_count [simp]: "keeps durable (count_transition l)" "keeps durable (count_action act)"
  by (auto simp: durable_def keeps_def count_transition_def count_action_def split: status_action.splits)

lemma keeps_durable_heap [simp]:
  "keeps durable (in_quotes (deref a))" "keeps durable (in_quotes (alloc q))" "keeps durable (in_quotes (assign a q))"
  "keeps durable (in_payments (deref a))" "keeps durable (in_payments (alloc p))" "keeps durable (in_payments (assign a p))"
  by (simp_all add: durable_def keeps_def in_defs zoom_def deref_def alloc_def assign_def)

lemma keeps_durable_methods [simp]: "keeps durable (on_quote m a)" "keeps durable (on_payment m' a)"
  unfolding on_quote_def on_payment_def by (auto intro!: keeps_andthen split: prod.splits)

lemma sql_select_rows: "sql_select l col conv v c = (r, c') \<Longrightarrow> rows c' = rows c"
  by (auto simp: sql_select_def session_def andthen_def Let_def alloc_def from_result_def
      split: option.splits sum.splits)

lemma keeps_durable_select [simp]:
  "keeps durable (in_quotes (get (SqlAlchemyQuoteRepository flt) i))"
  "keeps durable (in_quotes (get_by_service_order_id (SqlAlchemyQuoteRepository flt) i))"
  "keeps durable (in_payments (get (SqlAlchemyPaymentRepository flt) i))"
  "keeps durable (in_payments (get_by_service_order_id (SqlAlchemyPaymentRepository flt) i))"
  by (auto simp: durable_def keeps_def in_defs zoom_def SqlAlchemyQuoteRepository_def SqlAlchemyPaymentRepository_def
      split: prod.splits dest: sql_select_rows)

lemma loud_save [simp]:
  "loud polite (in_quotes (save (SqlAlchemyQuoteRepository flt) a))"
  "loud polite (in_payments (save (SqlAlchemyPaymentRepository flt) b))"
  by (auto simp: loud_def in_defs zoom_def SqlAlchemyQuoteRepository_def SqlAlchemyPaymentRepository_def
      sql_save_def session_def andthen_def Let_def caught_def split: prod.splits option.splits)

lemma loud_amqp: "loud mild (amqp c)"
proof (rule loudI)
  fix b r b' assume "mild b" and "amqp c b = (r, b')"
  then show "mild b'" by (auto simp: amqp_def Let_def mild_def split: option.splits)
next
  fix b x b' assume "mild b" and "amqp c b = (Inl x, b')"
  then obtain f where "amqp_fault b (amqp_count b) = Some f" and "x = fault_error f"
    by (auto simp: amqp_def Let_def split: option.splits)
  then show "\<not> caught x" using \<open>mild b\<close> by (cases f) (auto simp: mild_def caught_def)
qed

abbreviation mild_publisher :: "publisher \<Rightarrow> bool" where
  "mild_publisher s \<equiv> mild (broker_of s)"

lemma loud_in_broker: "loud mild m \<Longrightarrow> loud mild_publisher (in_broker m)"
  unfolding in_broker_def by (rule loud_zoom[where P = mild and rd = broker_of]) simp_all

lemma loud_publish:
  assumes "known_event ev"
  shows "loud polite (in_publisher (publish (RabbitMqBlockingEventPublisher st) ev))"
proof -
  have "loud mild (build_publisher st)" "loud mild close_if_open"
    unfolding build_publisher_def close_if_open_def connection_is_open_def
    by (auto intro!: loud_andthen loud_amqp)
  moreover have "loud mild (channel_publish st ev)"
    using assms by (auto simp: channel_publish_def loud_def andthen_def from_result_def
        dest: loudD[OF loud_amqp] split: sum.splits)
  moreover have "loud mild_publisher (from_result (event_to_message ev))"
    "loud mild_publisher (writes (\<lambda>s. s\<lparr>messages := messages s @ [m]\<rparr>))" for m
    using assms by (auto simp: loud_def from_result_def)
  ultimately have "loud mild_publisher (blocking_publish st ev)"
    unfolding blocking_publish_def by (intro loud_andthen loud_try_finally loud_in_broker)
  then show ?thesis
    unfolding in_publisher_def RabbitMqBlockingEventPublisher_def publisher_port.select_convs
    by (rule loud_zoom[where P = mild_publisher and rd = w_publisher]) simp
qed

section \<open>The use cases\<close>

lemma on_quote_value: "on_quote m a w = (Inr x, w') \<Longrightarrow> \<exists>q q' e e'. m q e = (Inr (q', x), e')"
  by (auto simp: on_quote_def in_defs zoom_def andthen_def split: prod.splits sum.splits)

lemma on_payment_value: "on_payment m a w = (Inr x, w') \<Longrightarrow> \<exists>p p' e e'. m p e = (Inr (p', x), e')"
  by (auto simp: on_payment_def in_defs zoom_def andthen_def split: prod.splits sum.splits)

lemma method_events:
  "on_quote quote_approve a w = (Inr ev, w') \<Longrightarrow> known_event ev"
  "on_payment payment_confirm a w = (Inr ev, w') \<Longrightarrow> known_event ev"
  "on_payment (payment_fail reason) a w = (Inr ev, w') \<Longrightarrow> known_event ev"
  "on_payment (payment_create_preference g) a w = (Inr ev, w') \<Longrightarrow> known_event ev"
  using quote_method_event[of Approve] payment_method_event[of _ Confirm] payment_method_event[of _ "Fail reason"]
    payment_method_event[of _ Request_Preference]
  by (fastforce dest: on_quote_value on_payment_value)+

lemma in_env_value: "in_env m w = (Inr x, w') \<Longrightarrow> \<exists>e e'. m e = (Inr x, e')"
  by (auto simp: in_env_def zoom_def split: prod.splits)

lemma create_refusing: "refusing (CreateQuoteUseCase (real_app flt ps p) so items amt)"
proof -
  have known: "known_event ev" if "in_env (quote_create so items tot) w = (Inr (q, ev), w')" for tot q ev w w'
    using in_env_value[OF that] quote_create_event by blast
  have saved: "loud polite (andthen (in_quotes (save (SqlAlchemyQuoteRepository flt) a)) (\<lambda>_.
      andthen (in_publisher (publish (RabbitMqBlockingEventPublisher ps) ev)) (\<lambda>_. ret a)))"
    if "known_event ev" for a ev
    by (intro loud_andthen loud_publish that) simp_all
  show ?thesis
    unfolding CreateQuoteUseCase_def real_app_def app.select_convs
    by (rule refusing_quiet, simp, rule refusing_quiet, simp, clarsimp split: prod.splits,
        rule refusing_quiet, simp, rule refusing_loud, rule saved, erule known)
qed

lemma approve_refusing: "refusing (ApproveQuoteUseCase (real_app flt ps p) i)"
  unfolding ApproveQuoteUseCase_def real_app_def app.select_convs
  by (rule refusing_quiet, simp)+
     (auto intro!: refusing_loud loud_andthen loud_publish dest: method_events)

lemma saved_and_published:
  assumes "known_event ev"
  shows "refusing (andthen (in_payments (save (SqlAlchemyPaymentRepository flt) a)) (\<lambda>_.
     andthen (in_publisher (publish (RabbitMqBlockingEventPublisher ps) ev)) (\<lambda>_. ret b)))"
  by (intro refusing_loud loud_andthen loud_publish assms) simp_all

lemma confirm_refusing: "refusing (ConfirmPaymentUseCase (real_app flt ps p) j)"
  unfolding ConfirmPaymentUseCase_def real_app_def app.select_convs
  by (rule refusing_quiet, simp, rule refusing_quiet, simp, rule saved_and_published, erule method_events)

lemma fail_refusing: "refusing (FailPaymentUseCase (real_app flt ps p) j reason)"
  unfolding FailPaymentUseCase_def real_app_def app.select_convs
  by (rule refusing_quiet, simp, rule refusing_quiet, simp, rule saved_and_published, erule method_events)

lemma decide_keeps_durable: "keeps durable (decide_status cmd a)"
  unfolding decide_status_def Let_def by (auto intro!: keeps_andthen)

lemma decide_event: "decide_status cmd a w = (Inr (Some ev, act), w') \<Longrightarrow> known_event ev"
  by (auto simp: decide_status_def Let_def andthen_def split: prod.splits sum.splits if_splits dest: method_events)

lemma apply_refusing: "refusing (ApplyPaymentStatusUseCase (real_app flt ps p) cmd)"
  unfolding ApplyPaymentStatusUseCase_def real_app_def app.select_convs
  by (rule refusing_quiet, simp, rule refusing_quiet, rule decide_keeps_durable)
     (auto intro!: refusing_loud loud_andthen loud_publish dest: decide_event split: option.splits prod.splits)

lemma sync_refusing: "refusing (SyncPaymentStatusUseCase (real_app flt ps p) j)"
proof -
  have tail: "refusing (andthen (ApplyPaymentStatusUseCase (real_app flt ps p) cmd) (\<lambda>r. ret (f r)))" for cmd f
    by (rule refusing_andthen_loud[OF apply_refusing]) simp
  show ?thesis
    unfolding SyncPaymentStatusUseCase_def
    by (intro refusing_quiet tail) (simp_all add: real_app_def)
qed

section \<open>The routes\<close>

definition client_clause :: "(py_error \<Rightarrow> py_error option) \<Rightarrow> bool" where
  "client_clause c \<longleftrightarrow> (\<forall>x y. c x = Some y \<longrightarrow> caught x)"

lemma client_clauses [simp]:
  "client_clause not_found" "client_clause bad_request" "client_clause bad_gateway" "client_clause provider_failure"
proof -
  show "client_clause provider_failure"
    unfolding client_clause_def
  proof (intro allI impI)
    fix x y assume "provider_failure x = Some y"
    then show "caught x" by (cases x) (simp_all add: caught_def)
  qed
qed (auto simp: client_clause_def not_found_def bad_request_def bad_gateway_def caught_def)

lemma clauses_caught: "list_all client_clause cs \<Longrightarrow> clauses cs x = Some y \<Longrightarrow> caught x"
  by (induction cs) (auto simp: client_clause_def split: option.splits)

lemma refusing_catching:
  assumes m: "refusing m" and cs: "list_all client_clause cs"
  shows "refusing (catching cs m)"
proof (rule refusingI)
  fix w r w' assume "polite w" and "catching cs m w = (r, w')"
  moreover obtain r1 where "m w = (r1, w')"
    using calculation(2) by (auto simp: catching_def try_except_def split: prod.splits sum.splits option.splits)
  ultimately show "polite w'" using refusingD(1)[OF m] by blast
next
  fix w x w' assume polite: "polite w" and run: "catching cs m w = (Inl x, w')" and x: "caught x"
  then obtain e where e: "m w = (Inl e, w')" "clauses cs e = None \<and> e = x \<or> (\<exists>y. clauses cs e = Some y)"
    by (auto simp: catching_def try_except_def split: prod.splits sum.splits option.splits)
  then have "caught e" using x clauses_caught[OF cs] by auto
  then show "durable w' = durable w" using refusingD(2)[OF m polite e(1)] by blast
qed

lemma loud_routes [simp]:
  "loud polite (in_quotes (deref a))" "loud polite (in_payments (deref a))" "loud polite (read_quote a)"
  "loud polite (read_payment a)" "loud polite (count_transition l)" "loud polite (count_action act)"
  by (auto simp: loud_def in_defs zoom_def deref_def read_quote_def read_payment_def count_transition_def
      count_action_def andthen_def split: status_action.splits)

lemma apply_route_refusing: "refusing (apply_payment_status (real_app flt ps p) cmd)"
  unfolding apply_payment_status_def
  by (rule refusing_andthen_loud[OF apply_refusing]) (auto intro!: loud_andthen)

lemma handler_refusing:
  assumes "srv_app s = real_app flt ps p"
  shows "refusing (handler s req)"
proof -
  note routes = create_quote_def get_quote_def get_quote_by_service_order_def approve_quote_def get_payment_def
    get_payment_by_service_order_def confirm_payment_def fail_payment_def sync_payment_status_def
  note steps = refusing_andthen_loud refusing_catching loud_andthen create_refusing approve_refusing
    confirm_refusing fail_refusing sync_refusing apply_route_refusing
  have lookups: "refusing (in_quotes (get (quote_repo (srv_app s)) i))"
    "refusing (in_quotes (get_by_service_order_id (quote_repo (srv_app s)) i))"
    "refusing (in_payments (get (payment_repo (srv_app s)) i))"
    "refusing (in_payments (get_by_service_order_id (payment_repo (srv_app s)) i))" for i
    by (simp_all add: assms real_app_def refusing_keeps)
  show ?thesis
  proof (cases req)
    case (Post_Simulate j st d)
    show ?thesis
    proof (cases "ENABLE_INTERNAL_TEST_ENDPOINTS (srv_settings s)")
      case True
      then show ?thesis
        unfolding Post_Simulate handler.simps simulate_payment_update_def assms
        by (auto intro!: steps)
    qed (simp add: Post_Simulate simulate_payment_update_def refusing_keeps)
  next
    case Get_Events
    then show ?thesis
      by (auto simp: refusing_def list_published_events_def in_publisher_def zoom_def andthen_def assms real_app_def
          rabbit_publisher.list_law)
  next
    case Post_Drain
    then show ?thesis
      by (auto simp: refusing_def drain_published_events_def in_publisher_def zoom_def andthen_def assms real_app_def
          RabbitMqBlockingEventPublisher_def blocking_drain_def)
  qed (use lookups in \<open>auto simp: routes assms intro!: steps\<close>)
qed

text \<open>
  Property C29. A refused request leaves no trace. In real mode, and while the broker client of
  the publisher raises exceptions of its own only, whenever a route answers with an
  \<open>HTTPException\<close> (no or a wrong token, an unknown identifier, an operation the life cycles
  forbid, invalid data, a failure of the payment provider), the tables are what they were, and
  nothing was published or recorded as published. The unhandled exceptions that end as status
  500 are not answers of a route: after those a part of the work can be done
  (\<open>half_saved_approval\<close>). Without the condition on the broker client the property is false:
  \<open>malformed_broker_url_saves_quote\<close>.
\<close>

theorem refused_requests_change_nothing:
  assumes "build_app flt st = Inr (srv_app s)" and "APP_RUNTIME_MODE st = Real"
    and "\<forall>n m. amqp_fault (broker_of (w_publisher w)) n \<noteq> Some (Amqp_Value_Error m)"
    and "serve s creds req w = (Inl (HTTPException code detail), w')"
  shows "rows (w_quotes w') = rows (w_quotes w) \<and> rows (w_payments w') = rows (w_payments w) \<and>
    w_publisher w' = w_publisher w"
proof -
  obtain p where app: "srv_app s = real_app flt (rabbit_settings st) p"
    using build_app_cases[OF assms(1)] assms(2) by auto
  have "refusing (serve s creds req)"
    unfolding serve_def by (rule refusing_quiet) (simp_all add: handler_refusing[OF app])
  moreover have "polite w" using assms(3) by (simp add: mild_def)
  ultimately have "durable w' = durable w" using refusingD(2)[of "serve s creds req" w _ w'] assms(4) by (simp add: caught_def)
  then show ?thesis by (simp add: durable_def)
qed

definition refusing_settings :: settings where
  "refusing_settings = default_settings\<lparr>APP_RUNTIME_MODE := Real\<rparr>"

definition refusing_server :: server where
  "refusing_server = sample_server\<lparr>srv_app := real_app id (rabbit_settings refusing_settings) None,
     srv_settings := refusing_settings\<rparr>"

lemma refusing_app: "build_app id refusing_settings = Inr (srv_app refusing_server)"
  by (simp add: build_app_def build_payment_gateway_def default_settings_def refusing_server_def real_app_def
      refusing_settings_def build_quote_repository_def build_payment_repository_def build_event_publisher_def
      build_processed_event_repository_def)

lemma refusing_admitted: "\<exists>p. require_admin_principal (srv_jwt refusing_server) st (Some sample_credentials) = Inr p"
  using sample_admitted by (simp add: refusing_server_def)

lemma admitted_serve:
  assumes "require_admin_principal (srv_jwt s) (srv_settings s) creds = Inr p"
  shows "serve s creds req = handler s req"
  by (rule ext) (simp add: serve_def assms)

theorem refused_requests_change_nothing_witness:
  "let w' = snd (serve refusing_server (Some sample_credentials) (Post_Approve ''q1'') sample_world) in
    rows (w_quotes w') = rows (w_quotes sample_world) \<and> rows (w_payments w') = rows (w_payments sample_world) \<and>
    w_publisher w' = w_publisher sample_world"
proof -
  obtain p where "require_admin_principal (srv_jwt refusing_server) (srv_settings refusing_server)
      (Some sample_credentials) = Inr p" using refusing_admitted by blast
  then have "serve refusing_server (Some sample_credentials) (Post_Approve ''q1'') sample_world =
      handler refusing_server (Post_Approve ''q1'') sample_world" by (simp add: admitted_serve)
  then obtain detail where "fst (serve refusing_server (Some sample_credentials) (Post_Approve ''q1'') sample_world) =
      Inl (HTTPException 404 detail)"
    by (simp add: refusing_server_def approve_quote_def ApproveQuoteUseCase_def real_app_def in_quotes_def zoom_def
        SqlAlchemyQuoteRepository_def sql_select_def session_def first_def sample_world_def empty_cell_def
        andthen_def catching_def try_except_def not_found_def)
  then have "serve refusing_server (Some sample_credentials) (Post_Approve ''q1'') sample_world =
      (Inl (HTTPException 404 detail), snd (serve refusing_server (Some sample_credentials) (Post_Approve ''q1'') sample_world))"
    by (metis prod.collapse)
  from refused_requests_change_nothing[OF refusing_app _ _ this] show ?thesis
    by (simp add: refusing_settings_def sample_world_def sample_publisher_def sample_broker_def Let_def)
qed

section \<open>Where a refusal does leave a trace\<close>

text \<open>
  The publisher parses its URL only when it publishes, and \<open>pika.URLParameters\<close> raises a
  \<open>ValueError\<close> for a malformed one. The routes take it for a mistake of the client: the answer is
  400, but the quote is in the table, and nobody is told its identifier.
\<close>

definition misconfigured_world :: world where
  "misconfigured_world = sample_world\<lparr>w_publisher := sample_publisher\<lparr>broker_of :=
     sample_broker\<lparr>amqp_fault := \<lambda>_. Some (Amqp_Value_Error ''Unexpected URL scheme'')\<rparr>\<rparr>\<rparr>"

lemma malformed_broker_url_saves_quote:
  "case create_quote (real_app flt ps None) ''so1'' [''oil''] (amount sample_money) misconfigured_world of
     (r, w1) \<Rightarrow> r = Inl (HTTPException 400 ''Unexpected URL scheme'') \<and>
       length (rows (w_quotes w1)) = 1 \<and> messages (w_publisher w1) = [] \<and> amqp_log (broker_of (w_publisher w1)) = []"
proof -
  have "strip ''so1'' = ''so1''" "strip ''BRL'' = ''BRL''" by code_simp+
  then show ?thesis
    by (simp add: create_quote_def CreateQuoteUseCase_def real_app_def in_defs zoom_def in_publisher_def in_env_def
        misconfigured_world_def sample_world_def sample_publisher_def sample_broker_def empty_cell_def
        SqlAlchemyQuoteRepository_def sql_save_def session_def first_def alloc_def quote_create_run Let_def exec_simps
        RabbitMqBlockingEventPublisher_def blocking_publish_def build_publisher_def in_broker_def amqp_def andthen_def
        catching_def try_except_def bad_request_def Money_def sample_money_def sample_env_def)
qed

text \<open>
  In memory the object changes before the provider is asked: when Mercado Pago refuses the
  checkout, the client is told so, and the quote stays approved without a payment. It can never
  be paid: a second approval is refused because the quote is approved.
\<close>

definition refused_world :: world where
  "refused_world = sample_world\<lparr>w_quotes := one_quote\<rparr>"

lemma refused_checkout_strands_memory_quote:
  "case ApproveQuoteUseCase (memory_app (Some cs)) ''q1'' refused_world of
     (r, w1) \<Rightarrow> (\<exists>m c d. r = Inl (PaymentGatewayError m c d)) \<and>
       mem_view (w_quotes w1) ''q1'' = Some (sample_quote\<lparr>q_status := APPROVED\<rparr>) \<and>
       entries (w_payments w1) = [] \<and>
       fst (ApproveQuoteUseCase (memory_app (Some cs)) ''q1'' w1) =
         Inl (ValueError ''Only created quotes can be approved'')"
  by (simp add: ApproveQuoteUseCase_def memory_app_def in_defs zoom_def on_quote_def on_payment_def
      InMemoryQuoteRepository_def mem_get_def refused_world_def sample_world_def one_quote_def empty_cell_def
      deref_def assign_def alloc_def exec_simps checkout_adapter_def adapter_create_checkout_preference_def
      sdk_client_def execute_def sdk_call_run translate_error_def sample_env_def mem_view_def andthen_def
      new_idempotency_key_def called_def drawn_def stamped_def Let_def)

text \<open>
  The SQL repositories save the quote and the payment in two transactions: when the second one
  fails, the table says approved, there is no payment, and the approval cannot be repeated.
\<close>

lemma half_saved_approval:
  "case ApproveQuoteUseCase (real_app flt ps None) ''q1''
      (refused_world\<lparr>w_payments := empty_cell\<lparr>db_fault := \<lambda>_. Some ''connection lost''\<rparr>\<rparr>) of
     (r, w1) \<Rightarrow> r = Inl (DatabaseError ''connection lost'') \<and>
       rows (w_quotes w1) = [quote_to_row (sample_quote\<lparr>q_status := APPROVED\<rparr>)] \<and> rows (w_payments w1) = [] \<and>
       fst (ApproveQuoteUseCase (real_app flt ps None) ''q1'' w1) =
         Inl (ValueError ''Only created quotes can be approved'')"
  by (simp add: ApproveQuoteUseCase_def real_app_def in_defs zoom_def on_quote_def on_payment_def
      SqlAlchemyQuoteRepository_def SqlAlchemyPaymentRepository_def sql_select_def sql_save_def session_def first_def
      refused_world_def sample_world_def one_quote_def empty_cell_def quote_row_round_trip
      deref_def assign_def alloc_def exec_simps FakePaymentGateway_def andthen_def Let_def)

end
