(* ===== verification/Unknown.thy ===== *)
theory Unknown
  imports Refusals
begin

text \<open>
  Requests about quotes and payments that are not stored: every route that takes an identifier
  or a service order answers 404, in both modes, and the state stays as it is.
\<close>

section \<open>What is stored\<close>

definition quote_ids :: "settings \<Rightarrow> world \<Rightarrow> string set" where
  "quote_ids st w = (case APP_RUNTIME_MODE st of
     Memory \<Rightarrow> fst ` set (entries (w_quotes w)) | Real \<Rightarrow> qr_quote_id ` set (rows (w_quotes w)))"

definition quote_orders :: "settings \<Rightarrow> world \<Rightarrow> string set" where
  "quote_orders st w = (case APP_RUNTIME_MODE st of
     Memory \<Rightarrow> (\<lambda>(i, a). q_service_order_id (heap (w_quotes w) ! a)) ` set (entries (w_quotes w))
   | Real \<Rightarrow> qr_service_order_id ` set (rows (w_quotes w)))"

definition payment_ids :: "settings \<Rightarrow> world \<Rightarrow> string set" where
  "payment_ids st w = (case APP_RUNTIME_MODE st of
     Memory \<Rightarrow> fst ` set (entries (w_payments w)) | Real \<Rightarrow> pr_payment_id ` set (rows (w_payments w)))"

definition payment_orders :: "settings \<Rightarrow> world \<Rightarrow> string set" where
  "payment_orders st w = (case APP_RUNTIME_MODE st of
     Memory \<Rightarrow> (\<lambda>(i, a). p_service_order_id (heap (w_payments w) ! a)) ` set (entries (w_payments w))
   | Real \<Rightarrow> pr_service_order_id ` set (rows (w_payments w)))"

fun unknown :: "settings \<Rightarrow> bool \<Rightarrow> world \<Rightarrow> request \<Rightarrow> bool" where
  "unknown st test_routes w (Get_Quote i) = (i \<notin> quote_ids st w)"
| "unknown st test_routes w (Get_Quote_By_Service_Order so) = (so \<notin> quote_orders st w)"
| "unknown st test_routes w (Post_Approve i) = (i \<notin> quote_ids st w)"
| "unknown st test_routes w (Get_Payment j) = (j \<notin> payment_ids st w)"
| "unknown st test_routes w (Get_Payment_By_Service_Order so) = (so \<notin> payment_orders st w)"
| "unknown st test_routes w (Post_Confirm j) = (j \<notin> payment_ids st w)"
| "unknown st test_routes w (Post_Fail j reason) = (j \<notin> payment_ids st w)"
| "unknown st test_routes w (Post_Sync j) = (j \<notin> payment_ids st w)"
| "unknown st test_routes w (Post_Simulate j s d) = (\<not> test_routes \<or> j \<notin> payment_ids st w)"
| "unknown st test_routes w _ = False"

section \<open>Failing look-ups\<close>

definition unmoved :: "world \<Rightarrow> world \<Rightarrow> bool" where
  "unmoved w w' \<longleftrightarrow> w_env w' = w_env w \<and> w_publisher w' = w_publisher w \<and>
     heap (w_quotes w') = heap (w_quotes w) \<and> entries (w_quotes w') = entries (w_quotes w) \<and>
     rows (w_quotes w') = rows (w_quotes w) \<and>
     heap (w_payments w') = heap (w_payments w) \<and> entries (w_payments w') = entries (w_payments w) \<and>
     rows (w_payments w') = rows (w_payments w)"

text \<open>\<open>m\<close> ends, in a state like \<open>w\<close>, with an exception that \<open>P\<close> allows, or with the database's.\<close>

definition fails :: "settings \<Rightarrow> (py_error \<Rightarrow> bool) \<Rightarrow> world \<Rightarrow> (world, 'a) exec \<Rightarrow> bool" where
  "fails st P w m \<longleftrightarrow> (case m w of
       (Inr _, _) \<Rightarrow> False
     | (Inl x, w') \<Rightarrow> unmoved w w' \<and> (P x \<or> APP_RUNTIME_MODE st = Real \<and> is_database_error x))"

definition is_404 :: "py_error \<Rightarrow> bool" where
  "is_404 x \<longleftrightarrow> (case x of HTTPException code _ \<Rightarrow> code = 404 | _ \<Rightarrow> False)"

lemma fails_andthen: "fails st P w m \<Longrightarrow> fails st P w (andthen m f)"
  by (auto simp: fails_def andthen_def split: prod.splits sum.splits)

lemma uncaught: "is_database_error x \<Longrightarrow> list_all client_clause cs \<Longrightarrow> clauses cs x = None"
proof (rule ccontr)
  assume x: "is_database_error x" and cs: "list_all client_clause cs" and "clauses cs x \<noteq> None"
  then have "caught x" using clauses_caught by blast
  then show False using x by (cases x) (auto simp: caught_def is_database_error_def)
qed

lemma fails_catching:
  assumes "fails st is_key_error w m" and "list_all client_clause cs"
  shows "fails st is_404 w (catching (not_found # cs) m)"
proof -
  obtain x w' where run: "m w = (Inl x, w')" and u: "unmoved w w'"
    and x: "is_key_error x \<or> APP_RUNTIME_MODE st = Real \<and> is_database_error x"
    using assms(1) by (auto simp: fails_def split: prod.splits sum.splits)
  show ?thesis
  proof (cases "is_key_error x")
    case True
    then show ?thesis using run u
      by (simp add: fails_def catching_def try_except_def not_found_def is_404_def)
  next
    case False
    then have "clauses (not_found # cs) x = None"
      using x uncaught[of x "not_found # cs"] assms(2) by simp
    then show ?thesis using run u x False
      by (simp add: fails_def catching_def try_except_def)
  qed
qed

lemma sql_missing:
  assumes "v \<notin> col ` set (rows c)"
  shows "\<exists>x n. sql_select label col conv v c = (Inl x, c\<lparr>db_sessions := n\<rparr>) \<and>
    (is_key_error x \<or> is_database_error x)"
proof -
  have "filter (\<lambda>r. col r = v) (rows c) = []" using assms by (auto simp: filter_empty_conv)
  then have "first (\<lambda>r. col r = v) (c\<lparr>db_sessions := n\<rparr>) = None" for n by (simp add: first_def)
  then show ?thesis
    by (cases "db_fault c (db_sessions c)")
       (auto simp: sql_select_def session_def andthen_def Let_def)
qed

lemma find_none: "so \<notin> (\<lambda>(i, a). owner (heap c ! a)) ` set (entries c) \<Longrightarrow>
    find (\<lambda>a. owner (heap c ! a) = so) (map snd (entries c)) = None"
  by (force simp: find_None_iff)

lemma look_ups_fail:
  assumes app: "build_app flt st = Inr app"
  shows "i \<notin> quote_ids st w \<Longrightarrow> fails st is_key_error w (in_quotes (get (quote_repo app) i))"
    and "so \<notin> quote_orders st w \<Longrightarrow> fails st is_key_error w (in_quotes (get_by_service_order_id (quote_repo app) so))"
    and "j \<notin> payment_ids st w \<Longrightarrow> fails st is_key_error w (in_payments (get (payment_repo app) j))"
    and "so \<notin> payment_orders st w \<Longrightarrow> fails st is_key_error w (in_payments (get_by_service_order_id (payment_repo app) so))"
proof -
  obtain p where p: "app = (case APP_RUNTIME_MODE st of
      Memory \<Rightarrow> memory_app p | Real \<Rightarrow> real_app flt (rabbit_settings st) p)"
    using app by (rule build_app_cases)
  have q: "fails st is_key_error w (in_quotes (sql_select l col conv v))"
    if "v \<notin> col ` set (rows (w_quotes w))" "APP_RUNTIME_MODE st = Real" for l col conv v
    using sql_missing[OF that(1), of l conv] that(2) by (auto simp: fails_def in_quotes_def zoom_def unmoved_def)
  have pp: "fails st is_key_error w (in_payments (sql_select l col conv v))"
    if "v \<notin> col ` set (rows (w_payments w))" "APP_RUNTIME_MODE st = Real" for l col conv v
    using sql_missing[OF that(1), of l conv] that(2) by (auto simp: fails_def in_payments_def zoom_def unmoved_def)
  note mem = memory_app_def InMemoryQuoteRepository_def InMemoryPaymentRepository_def mem_get_def mem_get_by_def
    fails_def in_defs zoom_def unmoved_def
  note sql = real_app_def SqlAlchemyQuoteRepository_def SqlAlchemyPaymentRepository_def
  have none: "map_of es i = None" if "i \<notin> fst ` set es" for es :: "(string \<times> nat) list" and i
    using that by (simp add: map_of_eq_None_iff)
  show "i \<notin> quote_ids st w \<Longrightarrow> fails st is_key_error w (in_quotes (get (quote_repo app) i))"
    by (cases "APP_RUNTIME_MODE st", simp add: p quote_ids_def mem none, simp add: p quote_ids_def sql q)
  show "so \<notin> quote_orders st w \<Longrightarrow> fails st is_key_error w (in_quotes (get_by_service_order_id (quote_repo app) so))"
    by (cases "APP_RUNTIME_MODE st", simp add: p quote_orders_def mem find_none, simp add: p quote_orders_def sql q)
  show "j \<notin> payment_ids st w \<Longrightarrow> fails st is_key_error w (in_payments (get (payment_repo app) j))"
    by (cases "APP_RUNTIME_MODE st", simp add: p payment_ids_def mem none, simp add: p payment_ids_def sql pp)
  show "so \<notin> payment_orders st w \<Longrightarrow> fails st is_key_error w (in_payments (get_by_service_order_id (payment_repo app) so))"
    by (cases "APP_RUNTIME_MODE st", simp add: p payment_orders_def mem find_none, simp add: p payment_orders_def sql pp)
qed

text \<open>
  Property C30. What is not stored is not found. For an administrator, every request about a quote
  or a payment that is not stored (and every use of the test route where it is disabled) is
  answered with status 404, in real mode possibly with the exception of the database instead;
  never with another status, and nothing is stored, changed or published.
\<close>

theorem unknown_identifiers_are_404:
  assumes "build_app flt st = Inr (srv_app s)"
    and "require_admin_principal (srv_jwt s) (srv_settings s) creds = Inr admin"
    and "unknown st (ENABLE_INTERNAL_TEST_ENDPOINTS (srv_settings s)) w req"
  shows "case serve s creds req w of (r, w') \<Rightarrow> unmoved w w' \<and>
    (fst (respond req r) = 404 \<or>
     APP_RUNTIME_MODE st = Real \<and> (\<exists>x. r = Inl x \<and> is_database_error x \<and> fst (respond req r) = 500))"
proof -
  note look_ups = look_ups_fail[OF assms(1)]
  note steps = fails_andthen fails_catching look_ups
  note routes = get_quote_def get_quote_by_service_order_def approve_quote_def get_payment_def
    get_payment_by_service_order_def confirm_payment_def fail_payment_def sync_payment_status_def
  note cases = ApproveQuoteUseCase_def ConfirmPaymentUseCase_def FailPaymentUseCase_def SyncPaymentStatusUseCase_def
  have "fails st is_404 w (handler s req)"
  proof (cases req)
    case (Post_Simulate j ps d)
    show ?thesis
    proof (cases "ENABLE_INTERNAL_TEST_ENDPOINTS (srv_settings s)")
      case True
      then show ?thesis using assms(3)
        unfolding Post_Simulate handler.simps simulate_payment_update_def apply_payment_status_def
          ApplyPaymentStatusUseCase_def
        by (auto intro!: steps)
    qed (simp add: Post_Simulate simulate_payment_update_def fails_def unmoved_def is_404_def)
  qed (use assms(3) in \<open>auto simp: routes cases intro!: steps\<close>)
  then obtain x w' where run: "serve s creds req w = (Inl x, w')" "unmoved w w'"
    and x: "is_404 x \<or> APP_RUNTIME_MODE st = Real \<and> is_database_error x"
    by (auto simp: admitted_serve[OF assms(2)] fails_def split: prod.splits sum.splits)
  then show ?thesis by (cases x) (auto simp: is_404_def is_database_error_def)
qed

theorem unknown_identifiers_are_404_witness:
  "case serve sample_server (Some sample_credentials) (Post_Confirm ''p9'') sample_world of (r, w') \<Rightarrow>
    unmoved sample_world w' \<and>
    (fst (respond (Post_Confirm ''p9'') r) = 404 \<or>
     APP_RUNTIME_MODE default_settings = Real \<and>
       (\<exists>x. r = Inl x \<and> is_database_error x \<and> fst (respond (Post_Confirm ''p9'') r) = 500))"
proof -
  obtain admin where "require_admin_principal (srv_jwt sample_server) (srv_settings sample_server)
      (Some sample_credentials) = Inr admin" using sample_admitted by blast
  from unknown_identifiers_are_404[OF sample_app this, of sample_world "Post_Confirm ''p9''"]
  show ?thesis by (simp add: payment_ids_def default_settings_def sample_world_def empty_cell_def)
qed

end
