(* ===== verification/Journeys.thy ===== *)
theory Journeys
  imports Refusals
begin

text \<open>
  A whole journey through the service in memory mode, step by step: from a new quote to its
  confirmed payment over HTTP.
\<close>

section \<open>One step of each use case in memory\<close>

lemmas memory_defs = memory_app_def InMemoryQuoteRepository_def InMemoryPaymentRepository_def InMemoryEventPublisher_def
  mem_get_def mem_save_def memory_publish_def deref_def assign_def alloc_def

lemma memory_publish_run:
  assumes "known_event ev"
  shows "memory_publish ev s = (Inr (), s\<lparr>events := events s @ [ev], messages := messages s @ [to_message ev]\<rparr>)"
  using assms by (simp add: memory_publish_def)

lemma event_at_known [simp]:
  "known_event (event_at e et corr pl) \<longleftrightarrow> et \<in> set integration_event_types"
  by (simp add: known_event_def)

lemma types_known [simp]:
  "''QUOTE_CREATED'' \<in> set integration_event_types" "''QUOTE_APPROVED'' \<in> set integration_event_types"
  "''PAYMENT_PREFERENCE_CREATED'' \<in> set integration_event_types"
  "''PAYMENT_CONFIRMED'' \<in> set integration_event_types" "''PAYMENT_FAILED'' \<in> set integration_event_types"
  by (simp_all add: integration_event_types_def)

definition type_of :: "message \<Rightarrow> json option" where
  "type_of m = map_of m ''event_type''"

lemma type_of_message [simp]: "type_of (to_message (event_at e et corr pl)) = Some (JStr et)"
  by (simp add: type_of_def to_message_def)

definition at_quote :: "world \<Rightarrow> string \<Rightarrow> nat \<Rightarrow> quote \<Rightarrow> bool" where
  "at_quote w i a q \<longleftrightarrow> map_of (entries (w_quotes w)) i = Some a \<and> a < length (heap (w_quotes w)) \<and>
     heap (w_quotes w) ! a = q \<and> q_quote_id q = i"

definition at_payment :: "world \<Rightarrow> string \<Rightarrow> nat \<Rightarrow> payment \<Rightarrow> bool" where
  "at_payment w j b p \<longleftrightarrow> map_of (entries (w_payments w)) j = Some b \<and> b < length (heap (w_payments w)) \<and>
     heap (w_payments w) ! b = p \<and> p_payment_id p = j"

lemma at_view: "at_quote w i a q \<Longrightarrow> mem_view (w_quotes w) i = Some q"
  "at_payment w j b p \<Longrightarrow> mem_view (w_payments w) j = Some p"
  by (simp_all add: at_quote_def at_payment_def mem_view_def)

lemma memory_create:
  assumes "strip so \<noteq> []" and "items \<noteq> []" and "le_zero amt = Inr False"
  shows "\<exists>a q w1 m. CreateQuoteUseCase (memory_app p) so items amt w = (Inr a, w1) \<and> at_quote w1 (q_quote_id q) a q \<and>
    q = created_quote (w_env w) so items \<lparr>amount = amt, currency = ''BRL''\<rparr> \<and> w_payments w1 = w_payments w \<and>
    w_transitions w1 = w_transitions w \<and>
    messages (w_publisher w1) = messages (w_publisher w) @ [m] \<and> type_of m = Some (JStr ''QUOTE_CREATED'')"
proof -
  have "Money amt ''BRL'' = Inr \<lparr>amount = amt, currency = ''BRL''\<rparr>"
    unfolding Money_iff by (simp add: valid_money_def assms(3) strip_no_space is_space_def code_point_def)
  then show ?thesis
    using assms(1,2)
    by (simp add: CreateQuoteUseCase_def memory_defs in_defs zoom_def andthen_def exec_simps Let_def memory_publish_run
        at_quote_def map_of_update)
qed

lemma memory_approve:
  assumes "at_quote w i a q" and "q_status q = CREATED"
  shows "\<exists>b p w1 m1 m2. ApproveQuoteUseCase (memory_app None) i w = (Inr b, w1) \<and>
    at_quote w1 i a (q\<lparr>q_status := APPROVED\<rparr>) \<and> at_payment w1 (p_payment_id p) b p \<and>
    p_status p = PENDING \<and> p_quote_id p = i \<and> p_total p = q_total q \<and> p_service_order_id p = q_service_order_id q \<and>
    w_transitions w1 = w_transitions w \<and>
    messages (w_publisher w1) = messages (w_publisher w) @ [m1, m2] \<and>
    type_of m1 = Some (JStr ''QUOTE_APPROVED'') \<and> type_of m2 = Some (JStr ''PAYMENT_PREFERENCE_CREATED'')"
  using assms
  by (simp add: ApproveQuoteUseCase_def on_quote_def on_payment_def memory_defs in_defs zoom_def andthen_def exec_simps
      Let_def memory_publish_run at_quote_def at_payment_def map_of_update FakePaymentGateway_def)

lemma memory_confirm:
  assumes "at_payment w j b p" and "p_status p = PENDING"
  shows "\<exists>w1 m. ConfirmPaymentUseCase (memory_app g) j w = (Inr b, w1) \<and>
    at_payment w1 j b (p\<lparr>p_status := CONFIRMED\<rparr>) \<and> w_quotes w1 = w_quotes w \<and> w_transitions w1 = w_transitions w \<and>
    messages (w_publisher w1) = messages (w_publisher w) @ [m] \<and> type_of m = Some (JStr ''PAYMENT_CONFIRMED'')"
  using assms
  by (simp add: ConfirmPaymentUseCase_def on_payment_def memory_defs in_defs zoom_def andthen_def exec_simps
      Let_def memory_publish_run at_payment_def map_of_update)

section \<open>From the quote to the confirmed payment\<close>

fun body_field :: "json \<Rightarrow> string \<Rightarrow> json option" where
  "body_field (JObj kvs) k = map_of kvs k"
| "body_field _ k = None"

definition counted_as :: "string \<Rightarrow> world \<Rightarrow> nat" where
  "counted_as l w = (case map_of (w_transitions w) l of None \<Rightarrow> 0 | Some n \<Rightarrow> n)"

lemma served_create:
  assumes "srv_app s = memory_app p" and "require_admin_principal (srv_jwt s) (srv_settings s) creds = Inr admin"
    and "strip so \<noteq> []" and "items \<noteq> []" and "le_zero amt = Inr False"
  shows "\<exists>a q b w1 m. serve s creds (Post_Quote so items amt) w = (Inr b, w1) \<and> at_quote w1 (q_quote_id q) a q \<and>
    q = created_quote (w_env w) so items \<lparr>amount = amt, currency = ''BRL''\<rparr> \<and> w_payments w1 = w_payments w \<and>
    w_transitions w1 = w_transitions w \<and> body_field b ''quote_id'' = Some (JStr (q_quote_id q)) \<and>
    messages (w_publisher w1) = messages (w_publisher w) @ [m] \<and> type_of m = Some (JStr ''QUOTE_CREATED'')"
proof -
  obtain a q w1 m where c: "CreateQuoteUseCase (memory_app p) so items amt w = (Inr a, w1)"
    and rest: "at_quote w1 (q_quote_id q) a q" "q = created_quote (w_env w) so items \<lparr>amount = amt, currency = ''BRL''\<rparr>"
      "w_payments w1 = w_payments w" "w_transitions w1 = w_transitions w"
      "messages (w_publisher w1) = messages (w_publisher w) @ [m]" "type_of m = Some (JStr ''QUOTE_CREATED'')"
    using memory_create[OF assms(3-5), of p w] by blast
  have "serve s creds (Post_Quote so items amt) w = (Inr (JObj (quote_to_response q)), w1)"
    using c rest(1) by (simp add: admitted_serve[OF assms(2)] create_quote_def assms(1) catching_def try_except_def
        andthen_def read_quote_def in_quotes_def zoom_def deref_def at_quote_def)
  moreover have "body_field (JObj (quote_to_response q)) ''quote_id'' = Some (JStr (q_quote_id q))"
    by (simp add: quote_to_response_def)
  ultimately show ?thesis using rest by blast
qed

lemma served_approve:
  assumes "srv_app s = memory_app None" and "require_admin_principal (srv_jwt s) (srv_settings s) creds = Inr admin"
    and "at_quote w i a q" and "q_status q = CREATED"
  shows "\<exists>b p bd w1 m1 m2. serve s creds (Post_Approve i) w = (Inr bd, w1) \<and>
    at_quote w1 i a (q\<lparr>q_status := APPROVED\<rparr>) \<and> at_payment w1 (p_payment_id p) b p \<and>
    p_status p = PENDING \<and> p_quote_id p = i \<and> p_total p = q_total q \<and> p_service_order_id p = q_service_order_id q \<and>
    body_field bd ''payment_id'' = Some (JStr (p_payment_id p)) \<and> w_transitions w1 = w_transitions w \<and>
    messages (w_publisher w1) = messages (w_publisher w) @ [m1, m2] \<and>
    type_of m1 = Some (JStr ''QUOTE_APPROVED'') \<and> type_of m2 = Some (JStr ''PAYMENT_PREFERENCE_CREATED'')"
proof -
  obtain b p w1 m1 m2 where c: "ApproveQuoteUseCase (memory_app None) i w = (Inr b, w1)"
    and rest: "at_quote w1 i a (q\<lparr>q_status := APPROVED\<rparr>)" "at_payment w1 (p_payment_id p) b p"
      "p_status p = PENDING" "p_quote_id p = i" "p_total p = q_total q" "p_service_order_id p = q_service_order_id q"
      "w_transitions w1 = w_transitions w" "messages (w_publisher w1) = messages (w_publisher w) @ [m1, m2]"
      "type_of m1 = Some (JStr ''QUOTE_APPROVED'')" "type_of m2 = Some (JStr ''PAYMENT_PREFERENCE_CREATED'')"
    using memory_approve[OF assms(3,4)] by blast
  have "serve s creds (Post_Approve i) w = (Inr (JObj (payment_to_response p)), w1)"
    using c rest(2) by (simp add: admitted_serve[OF assms(2)] approve_quote_def assms(1) catching_def try_except_def
        andthen_def read_payment_def in_payments_def zoom_def deref_def at_payment_def)
  moreover have "body_field (JObj (payment_to_response p)) ''payment_id'' = Some (JStr (p_payment_id p))"
    by (simp add: payment_to_response_def)
  ultimately show ?thesis using rest by blast
qed

lemma served_confirm:
  assumes "srv_app s = memory_app g" and "require_admin_principal (srv_jwt s) (srv_settings s) creds = Inr admin"
    and "at_payment w j b p" and "p_status p = PENDING"
  shows "\<exists>bd w1 m. serve s creds (Post_Confirm j) w = (Inr bd, w1) \<and>
    at_payment w1 j b (p\<lparr>p_status := CONFIRMED\<rparr>) \<and> w_quotes w1 = w_quotes w \<and>
    body_field bd ''status'' = Some (JStr ''CONFIRMED'') \<and>
    counted_as ''confirmed'' w1 = Suc (counted_as ''confirmed'' w) \<and>
    messages (w_publisher w1) = messages (w_publisher w) @ [m] \<and> type_of m = Some (JStr ''PAYMENT_CONFIRMED'')"
proof -
  obtain w1 m where c: "ConfirmPaymentUseCase (memory_app g) j w = (Inr b, w1)"
    and rest: "at_payment w1 j b (p\<lparr>p_status := CONFIRMED\<rparr>)" "w_quotes w1 = w_quotes w"
      "w_transitions w1 = w_transitions w"
      "messages (w_publisher w1) = messages (w_publisher w) @ [m]" "type_of m = Some (JStr ''PAYMENT_CONFIRMED'')"
    using memory_confirm[OF assms(3,4)] by blast
  let ?w = "snd (count_transition ''confirmed'' w1)"
  have w: "w_payments ?w = w_payments w1" "w_quotes ?w = w_quotes w1" "w_publisher ?w = w_publisher w1"
    "counted_as ''confirmed'' ?w = Suc (counted_as ''confirmed'' w1)"
    by (simp_all add: count_transition_def counted_as_def map_of_update)
  have "serve s creds (Post_Confirm j) w = (Inr (JObj (payment_to_response (p\<lparr>p_status := CONFIRMED\<rparr>))), ?w)"
    using c rest(1) by (simp add: admitted_serve[OF assms(2)] confirm_payment_def assms(1) catching_def try_except_def
        andthen_def read_payment_def in_payments_def zoom_def deref_def at_payment_def count_transition_def)
  moreover have "body_field (JObj (payment_to_response (p\<lparr>p_status := CONFIRMED\<rparr>))) ''status'' = Some (JStr ''CONFIRMED'')"
    by (simp add: payment_to_response_def)
  moreover have "at_payment ?w j b (p\<lparr>p_status := CONFIRMED\<rparr>)" using rest(1) w(1) by (simp add: at_payment_def)
  moreover have "counted_as ''confirmed'' w1 = counted_as ''confirmed'' w" by (simp add: counted_as_def rest(3))
  ultimately show ?thesis using rest w
    by (intro exI[of _ "JObj (payment_to_response (p\<lparr>p_status := CONFIRMED\<rparr>))"] exI[of _ ?w] exI[of _ m] conjI) simp_all
qed

text \<open>
  Property C31. A quote is carried through to its payment. In memory mode, from whatever state an
  administrator asks for a quote with a service order, items and a positive amount, the request
  succeeds; approving the quote under the returned identifier succeeds; confirming the payment
  under the identifier that returned succeeds. Then the quote is stored as approved and the
  payment as confirmed with the amount and the service order of the quote, the confirmation was
  counted, and exactly the four events of the story were published, in order.
\<close>

theorem order_is_quoted_approved_and_paid:
  assumes "srv_app s = memory_app None" and "require_admin_principal (srv_jwt s) (srv_settings s) creds = Inr admin"
    and "strip so \<noteq> []" and "items \<noteq> []" and "le_zero amt = Inr False"
  shows "\<exists>b1 w1 i b2 w2 j b3 w3 q p ms.
    serve s creds (Post_Quote so items amt) w = (Inr b1, w1) \<and> body_field b1 ''quote_id'' = Some (JStr i) \<and>
    serve s creds (Post_Approve i) w1 = (Inr b2, w2) \<and> body_field b2 ''payment_id'' = Some (JStr j) \<and>
    serve s creds (Post_Confirm j) w2 = (Inr b3, w3) \<and> body_field b3 ''status'' = Some (JStr ''CONFIRMED'') \<and>
    mem_view (w_quotes w3) i = Some q \<and> q_status q = APPROVED \<and> q_service_order_id q = so \<and> q_items q = items \<and>
    mem_view (w_payments w3) j = Some p \<and> p_status p = CONFIRMED \<and> p_quote_id p = i \<and> p_service_order_id p = so \<and>
    p_total p = \<lparr>amount = amt, currency = ''BRL''\<rparr> \<and> q_total q = p_total p \<and>
    counted_as ''confirmed'' w3 = Suc (counted_as ''confirmed'' w) \<and>
    messages (w_publisher w3) = messages (w_publisher w) @ ms \<and>
    map type_of ms = map (Some \<circ> JStr)
      [''QUOTE_CREATED'', ''QUOTE_APPROVED'', ''PAYMENT_PREFERENCE_CREATED'', ''PAYMENT_CONFIRMED'']"
proof -
  obtain a q b1 w1 m1 where 1: "serve s creds (Post_Quote so items amt) w = (Inr b1, w1)" "at_quote w1 (q_quote_id q) a q"
    "body_field b1 ''quote_id'' = Some (JStr (q_quote_id q))" "w_transitions w1 = w_transitions w"
    "messages (w_publisher w1) = messages (w_publisher w) @ [m1]" "type_of m1 = Some (JStr ''QUOTE_CREATED'')"
    and q: "q = created_quote (w_env w) so items \<lparr>amount = amt, currency = ''BRL''\<rparr>"
    using served_create[OF assms, of w] by blast
  have "q_status q = CREATED" by (simp add: q)
  from served_approve[OF assms(1,2) 1(2) this]
  obtain b p b2 w2 m2 m3 where 2: "serve s creds (Post_Approve (q_quote_id q)) w1 = (Inr b2, w2)"
    "at_quote w2 (q_quote_id q) a (q\<lparr>q_status := APPROVED\<rparr>)" "at_payment w2 (p_payment_id p) b p"
    "body_field b2 ''payment_id'' = Some (JStr (p_payment_id p))" "w_transitions w2 = w_transitions w1"
    "messages (w_publisher w2) = messages (w_publisher w1) @ [m2, m3]"
    "type_of m2 = Some (JStr ''QUOTE_APPROVED'')" "type_of m3 = Some (JStr ''PAYMENT_PREFERENCE_CREATED'')"
    and p: "p_status p = PENDING" "p_quote_id p = q_quote_id q" "p_total p = q_total q"
      "p_service_order_id p = q_service_order_id q" by blast
  from served_confirm[OF assms(1,2) 2(3) p(1)]
  obtain b3 w3 m4 where 3: "serve s creds (Post_Confirm (p_payment_id p)) w2 = (Inr b3, w3)"
    "at_payment w3 (p_payment_id p) b (p\<lparr>p_status := CONFIRMED\<rparr>)" "w_quotes w3 = w_quotes w2"
    "body_field b3 ''status'' = Some (JStr ''CONFIRMED'')"
    "counted_as ''confirmed'' w3 = Suc (counted_as ''confirmed'' w2)"
    "messages (w_publisher w3) = messages (w_publisher w2) @ [m4]" "type_of m4 = Some (JStr ''PAYMENT_CONFIRMED'')" by blast
  have views: "mem_view (w_quotes w3) (q_quote_id q) = Some (q\<lparr>q_status := APPROVED\<rparr>)"
    "mem_view (w_payments w3) (p_payment_id p) = Some (p\<lparr>p_status := CONFIRMED\<rparr>)"
    using at_view(1)[OF 2(2)] at_view(2)[OF 3(2)] 3(3) by simp_all
  have count: "counted_as ''confirmed'' w2 = counted_as ''confirmed'' w" by (simp add: counted_as_def 1(4) 2(5))
  have msgs: "messages (w_publisher w3) = messages (w_publisher w) @ [m1, m2, m3, m4]" using 1(5) 2(6) 3(6) by simp
  show ?thesis
    by (intro exI conjI, rule 1(1), rule 1(3), rule 2(1), rule 2(4), rule 3(1), rule 3(4), rule views(1), simp,
        simp add: q, simp add: q, rule views(2), simp, simp add: p, simp add: p q, simp add: p q, simp add: p,
        simp add: 3(5) count, rule msgs, simp add: 1 2 3)
qed

theorem order_is_quoted_approved_and_paid_witness:
  "\<exists>b1 w1 i b2 w2 j b3 w3 q p ms.
    serve sample_server (Some sample_credentials) (Post_Quote ''so1'' [''oil''] (Finite False 12050 (-2))) sample_world =
      (Inr b1, w1) \<and> body_field b1 ''quote_id'' = Some (JStr i) \<and>
    serve sample_server (Some sample_credentials) (Post_Approve i) w1 = (Inr b2, w2) \<and>
    body_field b2 ''payment_id'' = Some (JStr j) \<and>
    serve sample_server (Some sample_credentials) (Post_Confirm j) w2 = (Inr b3, w3) \<and>
    body_field b3 ''status'' = Some (JStr ''CONFIRMED'') \<and>
    mem_view (w_quotes w3) i = Some q \<and> q_status q = APPROVED \<and> q_service_order_id q = ''so1'' \<and> q_items q = [''oil''] \<and>
    mem_view (w_payments w3) j = Some p \<and> p_status p = CONFIRMED \<and> p_quote_id p = i \<and> p_service_order_id p = ''so1'' \<and>
    p_total p = \<lparr>amount = Finite False 12050 (-2), currency = ''BRL''\<rparr> \<and> q_total q = p_total p \<and>
    counted_as ''confirmed'' w3 = Suc (counted_as ''confirmed'' sample_world) \<and>
    messages (w_publisher w3) = messages (w_publisher sample_world) @ ms \<and>
    map type_of ms = map (Some \<circ> JStr)
      [''QUOTE_CREATED'', ''QUOTE_APPROVED'', ''PAYMENT_PREFERENCE_CREATED'', ''PAYMENT_CONFIRMED'']"
proof -
  obtain admin where admin: "require_admin_principal (srv_jwt sample_server) (srv_settings sample_server)
      (Some sample_credentials) = Inr admin" using sample_admitted by blast
  have so: "strip ''so1'' \<noteq> []" and amt: "le_zero (Finite False 12050 (-2)) = Inr False" by code_simp+
  show ?thesis
    by (rule order_is_quoted_approved_and_paid[OF _ admin so _ amt]) (simp_all add: sample_server_def)
qed

end
