(* ===== verification/Notifications.thy ===== *)
theory Notifications
  imports Journeys
begin

text \<open>
  What becomes of a payment under any sequence of notifications of the provider, in both modes.
  The locale \<open>payment_desk\<close> is what \<open>ApplyPaymentStatusUseCase\<close> needs of its collaborators to run
  through: a repository that does not fail while its cell is \<open>calm\<close>, and a publisher that does not
  fail while it is \<open>sound\<close>. In memory nothing can fail; in real mode \<open>calm\<close> is a database without
  faults and \<open>sound\<close> a broker without faults. The last section shows what a broker failure does.
\<close>

section \<open>Verdicts\<close>

text \<open>What one status of the provider says about a pending payment, and what a sequence of them says.\<close>

definition verdict :: "string \<Rightarrow> payment_status option" where
  "verdict s = (if normalized s \<in> set paid_statuses then Some CONFIRMED
     else if normalized s \<in> set lost_statuses then Some FAILED else None)"

fun first_verdict :: "string list \<Rightarrow> payment_status option" where
  "first_verdict [] = None"
| "first_verdict (s # ss) = (case verdict s of None \<Rightarrow> first_verdict ss | Some v \<Rightarrow> Some v)"

fun notify :: "app \<Rightarrow> apply_command list \<Rightarrow> world \<Rightarrow> world" where
  "notify app [] w = w"
| "notify app (c # cs) w = notify app cs (snd (ApplyPaymentStatusUseCase app c w))"

definition outcome :: "payment_status option \<Rightarrow> payment \<Rightarrow> payment" where
  "outcome v p = (case v of None \<Rightarrow> p | Some st \<Rightarrow> p\<lparr>p_status := st\<rparr>)"

text \<open>The messages that announce a verdict on the payment \<open>j\<close>: one of the right type, or none.\<close>

definition announce :: "string \<Rightarrow> payment_status option \<Rightarrow> message list \<Rightarrow> bool" where
  "announce j v ms \<longleftrightarrow>
     length ms = (if v = None then 0 else 1) \<and>
     announced ''PAYMENT_CONFIRMED'' ms = (if v = Some CONFIRMED then [j] else []) \<and>
     announced ''PAYMENT_FAILED'' ms = (if v = Some FAILED then [j] else [])"

lemma announce_none [simp]: "announce j None ms \<longleftrightarrow> ms = []"
  by (auto simp: announce_def)

lemma announce_event:
  "about ev ''PAYMENT_CONFIRMED'' ''payment_id'' j \<Longrightarrow> announce j (Some CONFIRMED) [to_message ev]"
  "about ev ''PAYMENT_FAILED'' ''payment_id'' j \<Longrightarrow> announce j (Some FAILED) [to_message ev]"
  by (auto simp: announce_def announces_def announced_event[of ev])

text \<open>Only a pending payment follows a verdict.\<close>

definition due :: "payment \<Rightarrow> payment_status option \<Rightarrow> payment_status option" where
  "due p v = (if p_status p = PENDING then v else None)"

lemma verdict_cases:
  obtains (paid) "normalized s \<in> set paid_statuses" "verdict s = Some CONFIRMED"
    | (lost) "normalized s \<in> set lost_statuses" "normalized s \<notin> set paid_statuses" "verdict s = Some FAILED"
    | (none) "normalized s \<notin> set paid_statuses" "normalized s \<notin> set lost_statuses" "verdict s = None"
  by (cases "normalized s \<in> set paid_statuses"; cases "normalized s \<in> set lost_statuses")
     (auto simp: verdict_def)

section \<open>Collaborators that do not fail\<close>

locale payment_desk =
  payments: repository "payment_repo app" p_payment_id p_service_order_id "\<lambda>p. valid_money (p_total p)"
    mp mpo goodp viewp linkedp +
  pub: event_publisher "event_pub app" outbox
  for app :: app and mp mpo goodp viewp linkedp outbox +
  fixes calm :: "payment_cell \<Rightarrow> bool" and sound :: "publisher \<Rightarrow> bool"
  assumes calm_heap: "calm (c\<lparr>heap := h\<rparr>) = calm c"
    and calm_get: "goodp c \<Longrightarrow> calm c \<Longrightarrow> get (payment_repo app) i c = (r, c') \<Longrightarrow>
      calm c' \<and> (\<forall>x. r = Inl x \<longrightarrow> \<not> is_database_error x)"
    and calm_save: "goodp c \<Longrightarrow> calm c \<Longrightarrow> save (payment_repo app) a c = (u, c') \<Longrightarrow>
      calm c' \<and> (\<forall>x. u = Inl x \<longrightarrow> \<not> is_database_error x)"
    and sound_publish: "known_event ev \<Longrightarrow> sound s \<Longrightarrow> publish (event_pub app) ev s = (u, s') \<Longrightarrow>
      u = Inr () \<and> sound s'"
begin

definition healthy :: "world \<Rightarrow> bool" where
  "healthy w \<longleftrightarrow> goodp (w_payments w) \<and> calm (w_payments w) \<and> sound (w_publisher w)"

lemma lookup_found:
  assumes "goodp c" and "calm c" and "viewp c j = Some p" and "get (payment_repo app) j c = (r, c')"
  obtains a where "r = Inr a" "goodp c'" "calm c'" "viewp c' = viewp c" "a < length (heap c')" "heap c' ! a = p"
  using assms(1,4)
proof (cases rule: payments.getE)
  case (found a)
  then show thesis
    using that payments.get_frame[OF assms(1,4)] calm_get[OF assms(1,2,4)] assms(3) by simp
qed (use assms calm_get[OF assms(1,2,4)] in auto)

lemma change_stored:
  assumes "goodp c" and "calm c" and "a < length (heap c)" and "viewp c j = Some (heap c ! a)"
    and "p_payment_id x = j" and "valid_money (p_total x)"
    and "save (payment_repo app) a (c\<lparr>heap := (heap c)[a := x]\<rparr>) = (u, c')"
  shows "u = Inr () \<and> goodp c' \<and> calm c' \<and> viewp c' = (viewp c)(j \<mapsto> x)"
proof -
  have "p_payment_id x = p_payment_id (heap c ! a)" using payments.view_ident[OF assms(1,4)] assms(5) by simp
  then have "goodp (c\<lparr>heap := (heap c)[a := x]\<rparr>)" using payments.assign_law[OF assms(1,3) _ assms(6)] by blast
  moreover have "calm (c\<lparr>heap := (heap c)[a := x]\<rparr>)" using assms(2) by (simp add: calm_heap)
  ultimately show ?thesis
    using calm_save[OF _ _ assms(7)] payments.change_saved[OF assms(1,3,4,5,6,7)] by (cases u) auto
qed

lemma keep_stored:
  assumes "goodp c" and "calm c" and "a < length (heap c)" and "viewp c j = Some (heap c ! a)"
    and "save (payment_repo app) a c = (u, c')"
  shows "u = Inr () \<and> goodp c' \<and> calm c' \<and> viewp c' = viewp c"
  using change_stored[OF assms(1-4), of "heap c ! a" u c'] payments.view_ident[OF assms(1,4)] assms(4,5)
  by (simp add: fun_upd_idem)

text \<open>A decision that changes the payment, and one that leaves it.\<close>

lemma applied_change:
  assumes w: "healthy w" and p: "viewp (w_payments w) j = Some p" "cmd_payment_id c = j"
    and d: "\<And>a v. a < length (heap (w_payments v)) \<Longrightarrow> heap (w_payments v) ! a = p \<Longrightarrow> w_env v = w_env w \<Longrightarrow>
      decide_status c a v = (Inr (Some ev, act),
        v\<lparr>w_env := e, w_payments := (w_payments v)\<lparr>heap := (heap (w_payments v))[a := x]\<rparr>\<rparr>)"
    and x: "same_payment p x" and ev: "known_event ev"
  shows "\<exists>w1. snd (ApplyPaymentStatusUseCase app c w) = w1 \<and> healthy w1 \<and> w_quotes w1 = w_quotes w \<and>
    viewp (w_payments w1) = (viewp (w_payments w))(j \<mapsto> x) \<and>
    outbox (w_publisher w1) = outbox (w_publisher w) @ [to_message ev]"
proof -
  have h: "goodp (w_payments w)" "calm (w_payments w)" "sound (w_publisher w)"
    using w by (simp_all add: healthy_def)
  obtain r c1 where g: "get (payment_repo app) j (w_payments w) = (r, c1)" by fastforce
  obtain a where a: "r = Inr a" "goodp c1" "calm c1" "viewp c1 = viewp (w_payments w)" "a < length (heap c1)"
    "heap c1 ! a = p" using lookup_found[OF h(1,2) p(1) g] .
  let ?c = "c1\<lparr>heap := (heap c1)[a := x]\<rparr>"
  have dec: "decide_status c a (w\<lparr>w_payments := c1\<rparr>) = (Inr (Some ev, act), w\<lparr>w_env := e, w_payments := ?c\<rparr>)"
    using d[of a "w\<lparr>w_payments := c1\<rparr>"] a(5,6) by simp
  obtain u c2 where s: "save (payment_repo app) a ?c = (u, c2)" by fastforce
  have "p_payment_id x = j" "valid_money (p_total x)"
    using x payments.view_ident[OF h(1) p(1)] by (auto simp: same_payment_iff)
  from change_stored[OF a(2,3,5) _ this s] a(4,6) p(1)
  have c2: "u = Inr ()" "goodp c2" "calm c2" "viewp c2 = (viewp (w_payments w))(j \<mapsto> x)" by simp_all
  obtain q s1 where b: "publish (event_pub app) ev (w_publisher w) = (q, s1)" by fastforce
  note pubd = sound_publish[OF ev h(3) b] pub.publish_law[OF ev b]
  have "snd (ApplyPaymentStatusUseCase app c w) = w\<lparr>w_env := e, w_payments := c2, w_publisher := s1\<rparr>"
    using g a(1) dec s c2(1) b pubd p(2)
    by (simp add: ApplyPaymentStatusUseCase_def in_payments_def in_publisher_def zoom_def andthen_def)
  then show ?thesis using c2 pubd by (simp add: healthy_def)
qed

lemma applied_nothing:
  assumes w: "healthy w" and p: "viewp (w_payments w) j = Some p" "cmd_payment_id c = j"
    and d: "\<And>a v. a < length (heap (w_payments v)) \<Longrightarrow> heap (w_payments v) ! a = p \<Longrightarrow>
      decide_status c a v = (r1, v) \<and> (case r1 of Inl _ \<Rightarrow> True | Inr (evo, _) \<Rightarrow> evo = None)"
  shows "\<exists>w1. snd (ApplyPaymentStatusUseCase app c w) = w1 \<and> healthy w1 \<and> w_quotes w1 = w_quotes w \<and>
    viewp (w_payments w1) = viewp (w_payments w) \<and> outbox (w_publisher w1) = outbox (w_publisher w)"
proof -
  have h: "goodp (w_payments w)" "calm (w_payments w)" "sound (w_publisher w)"
    using w by (simp_all add: healthy_def)
  obtain r c1 where g: "get (payment_repo app) j (w_payments w) = (r, c1)" by fastforce
  obtain a where a: "r = Inr a" "goodp c1" "calm c1" "viewp c1 = viewp (w_payments w)" "a < length (heap c1)"
    "heap c1 ! a = p" using lookup_found[OF h(1,2) p(1) g] .
  have dec: "decide_status c a (w\<lparr>w_payments := c1\<rparr>) = (r1, w\<lparr>w_payments := c1\<rparr>)"
    and none: "case r1 of Inl _ \<Rightarrow> True | Inr (evo, _) \<Rightarrow> evo = None"
    using d[of a "w\<lparr>w_payments := c1\<rparr>"] a(5,6) by simp_all
  obtain u c2 where s: "save (payment_repo app) a c1 = (u, c2)" by fastforce
  have c2: "u = Inr ()" "goodp c2" "calm c2" "viewp c2 = viewp (w_payments w)"
    using keep_stored[OF a(2,3,5) _ s] a(4,6) p(1) by simp_all
  have "snd (ApplyPaymentStatusUseCase app c w) = w\<lparr>w_payments := (case r1 of Inl _ \<Rightarrow> c1 | Inr _ \<Rightarrow> c2)\<rparr>"
    using g a(1) dec s c2(1) p(2) none
    by (auto simp: ApplyPaymentStatusUseCase_def in_payments_def zoom_def andthen_def ret_def split: sum.splits)
  then show ?thesis using c2 a h by (auto simp: healthy_def split: sum.splits)
qed

text \<open>One notification, to a payment that has a preference.\<close>

lemma notified:
  assumes "healthy w" and "viewp (w_payments w) j = Some p" and "cmd_payment_id c = j"
    and "p_status p \<noteq> WAITING_PREFERENCE"
  shows "\<exists>w1 ms. snd (ApplyPaymentStatusUseCase app c w) = w1 \<and> healthy w1 \<and> w_quotes w1 = w_quotes w \<and>
    viewp (w_payments w1) = (viewp (w_payments w))(j \<mapsto> outcome (due p (verdict (cmd_provider_status c))) p) \<and>
    outbox (w_publisher w1) = outbox (w_publisher w) @ ms \<and>
    announce j (due p (verdict (cmd_provider_status c))) ms"
proof -
  have id: "p_payment_id p = j" using payments.view_ident assms(1,2) by (auto simp: healthy_def)
  have quiet: ?thesis if none: "due p (verdict (cmd_provider_status c)) = None"
    and d: "\<And>a v. a < length (heap (w_payments v)) \<Longrightarrow> heap (w_payments v) ! a = p \<Longrightarrow>
      decide_status c a v = (res, v) \<and> (case res of Inl _ \<Rightarrow> True | Inr (evo, _) \<Rightarrow> evo = None)" for res
    using applied_nothing[OF assms(1-3) d] assms(2) none by (auto simp: outcome_def fun_upd_idem)
  show ?thesis
  proof (cases rule: verdict_cases[of "cmd_provider_status c"])
    case paid
    show ?thesis
    proof (cases "p_status p = PENDING")
      case True
      let ?ev = "event_at (w_env w) ''PAYMENT_CONFIRMED'' (p_service_order_id p)
        (payment_payload p [(''payment_id'', JStr (p_payment_id p))])"
      have ev: "known_event ?ev" "about ?ev ''PAYMENT_CONFIRMED'' ''payment_id'' j"
        using id by (simp_all add: about_def payment_payload_def map_of_dict_update)
      have "\<exists>w1. snd (ApplyPaymentStatusUseCase app c w) = w1 \<and> healthy w1 \<and> w_quotes w1 = w_quotes w \<and>
        viewp (w_payments w1) = (viewp (w_payments w))(j \<mapsto> p\<lparr>p_status := CONFIRMED\<rparr>) \<and>
        outbox (w_publisher w1) = outbox (w_publisher w) @ [to_message ?ev]"
        by (rule applied_change[OF assms(1-3) _ _ ev(1), where act = Act_Confirmed and e = "stamped (w_env w)"])
           (use True paid in \<open>simp_all add: decide_status_def on_payment_def in_defs zoom_def andthen_def deref_def
              assign_def payment_confirm_run Let_def same_payment_iff\<close>)
      then show ?thesis using True paid announce_event(1)[OF ev(2)] by (auto simp: due_def outcome_def)
    next
      case False
      then have "p_status p = CONFIRMED \<or> p_status p = FAILED" using assms(4) by (cases "p_status p") auto
      then show ?thesis
        by (intro quiet[where res = "Inr (None, if p_status p = CONFIRMED then Act_Duplicate else Act_Ignored)"])
           (use paid in \<open>auto simp: due_def decide_status_def in_defs zoom_def andthen_def deref_def Let_def ret_def\<close>)
    qed
  next
    case lost
    show ?thesis
    proof (cases "p_status p = PENDING")
      case True
      let ?ev = "event_at (w_env w) ''PAYMENT_FAILED'' (p_service_order_id p)
        (payment_payload p [(''payment_id'', JStr (p_payment_id p)), (''reason'', JStr (fail_reason c))])"
      have ev: "known_event ?ev" "about ?ev ''PAYMENT_FAILED'' ''payment_id'' j"
        using id by (simp_all add: about_def payment_payload_def map_of_dict_update)
      have "\<exists>w1. snd (ApplyPaymentStatusUseCase app c w) = w1 \<and> healthy w1 \<and> w_quotes w1 = w_quotes w \<and>
        viewp (w_payments w1) = (viewp (w_payments w))(j \<mapsto> p\<lparr>p_status := FAILED\<rparr>) \<and>
        outbox (w_publisher w1) = outbox (w_publisher w) @ [to_message ?ev]"
        by (rule applied_change[OF assms(1-3) _ _ ev(1), where act = Act_Failed and e = "stamped (w_env w)"])
           (use True lost in \<open>simp_all add: decide_status_def on_payment_def in_defs zoom_def andthen_def deref_def
              assign_def payment_fail_run Let_def same_payment_iff\<close>)
      then show ?thesis using True lost announce_event(2)[OF ev(2)] by (auto simp: due_def outcome_def)
    next
      case False
      then have "p_status p = CONFIRMED \<or> p_status p = FAILED" using assms(4) by (cases "p_status p") auto
      then show ?thesis
        by (intro quiet[where res = "Inr (None, if p_status p = FAILED then Act_Duplicate else Act_Ignored)"])
           (use lost in \<open>auto simp: due_def decide_status_def in_defs zoom_def andthen_def deref_def Let_def ret_def\<close>)
    qed
  next
    case none
    show ?thesis
      by (rule quiet[where res = "if normalized (cmd_provider_status c) \<in> set open_statuses then Inr (None, Act_Ignored)
            else Inl (ValueError (''Unsupported Mercado Pago status: '' @ cmd_provider_status c))"])
         (use none in \<open>simp_all add: due_def decide_status_def in_defs zoom_def andthen_def deref_def Let_def
            ret_def raise_def\<close>)
  qed
qed

text \<open>Any number of them.\<close>

lemma all_notified:
  assumes "healthy w" and "viewp (w_payments w) j = Some p" and "\<forall>c \<in> set cs. cmd_payment_id c = j"
    and "p_status p \<noteq> WAITING_PREFERENCE"
  shows "\<exists>ms. w_quotes (notify app cs w) = w_quotes w \<and>
    viewp (w_payments (notify app cs w)) =
      (viewp (w_payments w))(j \<mapsto> outcome (due p (first_verdict (map cmd_provider_status cs))) p) \<and>
    outbox (w_publisher (notify app cs w)) = outbox (w_publisher w) @ ms \<and>
    announce j (due p (first_verdict (map cmd_provider_status cs))) ms"
  using assms
proof (induction cs arbitrary: w p)
  case Nil
  then show ?case by (simp add: due_def outcome_def fun_upd_idem)
next
  case (Cons c cs)
  let ?v = "due p (verdict (cmd_provider_status c))" and ?n = "ApplyPaymentStatusUseCase app c w"
  obtain w1 ms where step: "snd ?n = w1" "healthy w1" "w_quotes w1 = w_quotes w"
    "viewp (w_payments w1) = (viewp (w_payments w))(j \<mapsto> outcome ?v p)"
    "outbox (w_publisher w1) = outbox (w_publisher w) @ ms" "announce j ?v ms"
    using notified[OF Cons.prems(1,2) _ Cons.prems(4), of c] Cons.prems(3) by auto
  have final: "v = CONFIRMED \<or> v = FAILED" if "verdict s = Some v" for s v
    using that by (auto simp: verdict_def split: if_splits)
  have st: "p_status (outcome ?v p) \<noteq> WAITING_PREFERENCE"
    using Cons.prems(4) final[of "cmd_provider_status c"] by (auto simp: outcome_def due_def split: option.splits)
  have at: "viewp (w_payments w1) j = Some (outcome ?v p)" using step(4) by simp
  note ih = Cons.IH[OF step(2) at _ st]
  show ?case
  proof (cases ?v)
    case None
    then show ?thesis
      using ih Cons.prems(2,3) step by (cases "p_status p = PENDING") (auto simp: due_def outcome_def fun_upd_idem)
  next
    case (Some v)
    then have "p_status p = PENDING" "verdict (cmd_provider_status c) = Some v"
      by (auto simp: due_def split: if_splits)
    moreover have "due (outcome ?v p) u = None" for u
      using final[OF calculation(2)] calculation by (auto simp: due_def outcome_def)
    ultimately show ?thesis using ih Cons.prems(3) step Some by (auto simp: due_def outcome_def)
  qed
qed

end

section \<open>Both modes\<close>

lemma smooth_publish:
  assumes "known_event ev" and "steady (broker_of s)"
    and "publish (RabbitMqBlockingEventPublisher st) ev s = (u, s')"
  shows "u = Inr () \<and> steady (broker_of s')"
proof -
  have build: "smooth (build_publisher st)"
    unfolding build_publisher_def by (intro smooth_andthen smooth_amqp) simp_all
  have chan: "smooth (channel_publish st ev)"
    using assms(1) smooth_amqp[of "BasicPublish (amqp_exchange st) (amqp_routing_key st) (message_body (to_message ev))"]
    by (simp add: channel_publish_def smooth_def)
  have broker: "\<exists>b. in_broker m s = (Inr (), s\<lparr>broker_of := b\<rparr>) \<and> steady b" if "smooth m" "steady (broker_of s)" for m s
    using that by (fastforce simp: smooth_def in_broker_def zoom_def)
  obtain b1 where b1: "in_broker (build_publisher st) s = (Inr (), s\<lparr>broker_of := b1\<rparr>)" "steady b1"
    using broker[OF build assms(2)] by blast
  obtain b2 where b2: "in_broker (channel_publish st ev) (s\<lparr>broker_of := b1\<rparr>) = (Inr (), s\<lparr>broker_of := b2\<rparr>)" "steady b2"
    using broker[OF chan, of "s\<lparr>broker_of := b1\<rparr>"] b1(2) by auto
  let ?s = "s\<lparr>broker_of := b2, messages := messages s @ [to_message ev]\<rparr>"
  obtain b3 where "in_broker close_if_open ?s = (Inr (), ?s\<lparr>broker_of := b3\<rparr>)" "steady b3"
    using broker[OF smooth_close, of ?s] b2(2) by auto
  then show ?thesis
    using assms(1,3) b1(1) b2(1)
    by (auto simp: RabbitMqBlockingEventPublisher_def blocking_publish_def try_finally_def andthen_def)
qed

lemma reliable_heap: "reliable (c\<lparr>heap := h\<rparr>) = reliable c"
  by (simp add: reliable_def)

interpretation memory_desk: payment_desk
  "memory_app p"
  "\<lambda>i. ''Payment'' @ '' not found: '' @ i" "\<lambda>so. ''Payment'' @ '' not found for service order: '' @ so"
  "mem_good p_payment_id (\<lambda>p. valid_money (p_total p))" mem_view mem_linked messages "\<lambda>_. True" "\<lambda>_. True" for p
  unfolding memory_app_def
  by (intro payment_desk.intro payment_desk_axioms.intro; (unfold app.select_convs)?)
     (rule memory_payments.repository_axioms memory_publisher.event_publisher_axioms |
       auto simp: InMemoryPaymentRepository_def InMemoryEventPublisher_def memory_publish_run
         dest: mem_reliable)+

interpretation real_desk: payment_desk
  "real_app flt ps p"
  "\<lambda>i. ''Payment not found: '' @ i" "\<lambda>so. ''Payment not found for service order: '' @ so"
  "sql_good pr_payment_id payment_to_row (payment_from_row flt) (\<lambda>p. valid_money (p_total p))"
  "sql_view pr_payment_id (payment_from_row flt)" "\<lambda>_ _. False"
  messages reliable "\<lambda>s. steady (broker_of s)" for flt ps p
  unfolding real_app_def
  by (intro payment_desk.intro payment_desk_axioms.intro; (unfold app.select_convs)?)
     (rule table_payments.repository_axioms rabbit_publisher.event_publisher_axioms reliable_heap
        table_payments.reliable_get table_payments.reliable_save smooth_publish | assumption)+

text \<open>
  The payments repository of the mode is well-formed: every reachable state is like this, and so is
  a database that an earlier run of the service has left.
\<close>

definition good_payments :: "(string \<Rightarrow> string) \<Rightarrow> settings \<Rightarrow> world \<Rightarrow> bool" where
  "good_payments flt st w =
     (case APP_RUNTIME_MODE st of
        Memory \<Rightarrow> mem_good p_payment_id (\<lambda>p. valid_money (p_total p)) (w_payments w)
      | Real \<Rightarrow> sql_good pr_payment_id payment_to_row (payment_from_row flt) (\<lambda>p. valid_money (p_total p)) (w_payments w))"

text \<open>The payments database and the publisher's broker answer from now on. In memory there is none.\<close>

definition all_answer :: "settings \<Rightarrow> world \<Rightarrow> bool" where
  "all_answer st w =
     (case APP_RUNTIME_MODE st of
        Memory \<Rightarrow> True
      | Real \<Rightarrow> reliable (w_payments w) \<and> steady (broker_of (w_publisher w)))"

lemma reachable_good_payments:
  assumes "build_app flt st = Inr (srv_app s)" and "fresh_start w0" and "reachable s flt w0 w"
  shows "good_payments flt st w"
proof -
  obtain p where app: "srv_app s = (case APP_RUNTIME_MODE st of
      Memory \<Rightarrow> memory_app p | Real \<Rightarrow> real_app flt (rabbit_settings st) p)"
    using assms(1) by (rule build_app_cases)
  show ?thesis
  proof (cases "APP_RUNTIME_MODE st")
    case Memory
    have s0: "memory_service.ledger_of w0 = empty_ledger" "memory_service.kept w0"
      using assms(2)
      by (auto simp: fresh_start_def memory_service.ledger_of_def memory_service.kept_def empty_ledger_def
          mem_view_def mem_good_def fun_eq_iff ids_drawn_def)
    have "memory_service.moves w0 w"
      using assms(3) s0 app Memory by (intro memory_service.reachable_moves[of s flt w0 w p]) simp_all
    then show ?thesis using Memory by (simp add: good_payments_def memory_service.moves_def memory_service.kept_def)
  next
    case Real
    have s0: "real_service.ledger_of flt w0 = empty_ledger" "real_service.kept flt w0"
      using assms(2)
      by (auto simp: fresh_start_def real_service.ledger_of_def real_service.kept_def empty_ledger_def
          sql_view_def sql_good_def fun_eq_iff ids_drawn_def)
    have "real_service.moves flt w0 w"
      using assms(3) s0 app Real
      by (intro real_service.reachable_moves[of s flt w0 w flt "rabbit_settings st" p]) simp_all
    then show ?thesis using Real by (simp add: good_payments_def real_service.moves_def real_service.kept_def)
  qed
qed

text \<open>
  Property C32. The first final notification decides, in both modes. Take a service whose payments
  are well-formed (as in every reachable state) and, in real mode, a payments database and a
  broker that answer. Whatever notifications of the provider are applied to a pending payment,
  in whatever order and number, with unsupported and repeated statuses among them: afterwards
  the payment has the status that the first paid or lost notification says (it is unchanged if
  there was none), no other payment and no quote has changed, and exactly that one change was
  published, with the identifier of the payment. The condition on the broker is needed: a failure
  of it leaves a settled payment unannounced for ever (\<open>lost_announcement\<close>).
\<close>

theorem first_final_notification_decides:
  assumes "build_app flt st = Inr app" and "good_payments flt st w" and "all_answer st w"
    and "stored flt st w = (Q, P, E)" and "P j = Some p" and "p_status p = PENDING"
    and "\<forall>c \<in> set cs. cmd_payment_id c = j"
  shows "\<exists>ms. let v = first_verdict (map cmd_provider_status cs) in
    stored flt st (notify app cs w) = (Q, P(j \<mapsto> outcome v p), E @ ms) \<and> announce j v ms"
proof -
  obtain g where app: "app = (case APP_RUNTIME_MODE st of
      Memory \<Rightarrow> memory_app g | Real \<Rightarrow> real_app flt (rabbit_settings st) g)"
    using assms(1) by (rule build_app_cases)
  have due: "due p v = v" for v using assms(6) by (simp add: due_def)
  have st: "p_status p \<noteq> WAITING_PREFERENCE" using assms(6) by simp
  show ?thesis
  proof (cases "APP_RUNTIME_MODE st")
    case Memory
    then have "memory_desk.healthy w" using assms(2) by (simp add: memory_desk.healthy_def good_payments_def)
    moreover have "mem_view (w_payments w) j = Some p" using assms(4,5) Memory by (auto simp: stored_def)
    ultimately show ?thesis
      using memory_desk.all_notified[OF _ _ assms(7) st, of w g] assms(4) Memory
      by (auto simp: app stored_def due Let_def)
  next
    case Real
    then have "real_desk.healthy flt w"
      using assms(2,3) by (simp add: real_desk.healthy_def good_payments_def all_answer_def)
    moreover have "sql_view pr_payment_id (payment_from_row flt) (w_payments w) j = Some p"
      using assms(4,5) Real by (auto simp: stored_def)
    ultimately show ?thesis
      using real_desk.all_notified[OF _ _ assms(7) st, of flt w "rabbit_settings st" g] assms(4) Real
      by (auto simp: app stored_def due Let_def)
  qed
qed

text \<open>In real mode, with one pending payment in the table.\<close>

definition one_payment :: world where
  "one_payment = sample_world\<lparr>w_payments := empty_cell\<lparr>rows := [payment_to_row sample_payment]\<rparr>\<rparr>"

definition sample_notes :: "apply_command list" where
  "sample_notes = map (\<lambda>s. \<lparr>cmd_payment_id = ''p1'', cmd_provider_status = s, cmd_status_detail = None\<rparr>)
     [''pending'', ''in_mediation'', '' Approved'', ''refunded'']"

lemma one_payment_stored:
  "stored flt refusing_settings one_payment = (Map.empty, [''p1'' \<mapsto> sample_payment], [])"
  "good_payments flt refusing_settings one_payment" "all_answer refusing_settings one_payment"
  by (auto simp: stored_def good_payments_def all_answer_def refusing_settings_def one_payment_def sample_world_def
      empty_cell_def sample_publisher_def sample_broker_def steady_def reliable_def sql_view_def sql_good_def
      payment_row_round_trip fun_eq_iff)

theorem first_final_notification_decides_witness:
  "\<exists>ms. stored id refusing_settings (notify (srv_app refusing_server) sample_notes one_payment) =
     (Map.empty, [''p1'' \<mapsto> sample_payment\<lparr>p_status := CONFIRMED\<rparr>], ms) \<and> length ms = 1 \<and>
     announced ''PAYMENT_CONFIRMED'' ms = [''p1''] \<and> announced ''PAYMENT_FAILED'' ms = []"
proof -
  have v: "first_verdict (map cmd_provider_status sample_notes) = Some CONFIRMED"
    by code_simp
  have ids: "\<forall>c \<in> set sample_notes. cmd_payment_id c = ''p1''" by (simp add: sample_notes_def)
  have pending: "p_status sample_payment = PENDING" by (simp add: sample_payment_def)
  from first_final_notification_decides[OF refusing_app one_payment_stored(2,3,1) _ pending ids]
  show ?thesis by (auto simp: v outcome_def announce_def Let_def)
qed

section \<open>A lost announcement\<close>

text \<open>
  The payment is saved before its event is published, and nothing publishes it later: when the
  broker cannot be reached for a moment, the notification ends with the broker's exception and a
  payment that is confirmed; when the provider sends it again, it is a duplicate, and
  \<open>PAYMENT_CONFIRMED\<close> is never published.
\<close>

lemma lost_announcement:
  assumes "w = one_payment\<lparr>w_publisher := sample_publisher\<lparr>broker_of :=
      sample_broker\<lparr>amqp_fault := \<lambda>n. if n = 0 then Some (Amqp_Error ''connection refused'') else None\<rparr>\<rparr>\<rparr>"
    and "c = \<lparr>cmd_payment_id = ''p1'', cmd_provider_status = ''approved'', cmd_status_detail = None\<rparr>"
  shows "case ApplyPaymentStatusUseCase (real_app flt ps p) c w of (r, w1) \<Rightarrow>
     r = Inl (BrokerError ''connection refused'') \<and>
     rows (w_payments w1) = [payment_to_row (sample_payment\<lparr>p_status := CONFIRMED\<rparr>)] \<and> messages (w_publisher w1) = [] \<and>
     (case ApplyPaymentStatusUseCase (real_app flt ps p) c w1 of (r2, w2) \<Rightarrow>
        map_sum id res_action r2 = Inr Act_Duplicate \<and> messages (w_publisher w2) = [])"
proof -
  have n: "normalized ''approved'' \<in> set paid_statuses" by code_simp
  have s: "p_status sample_payment = PENDING" "p_payment_id sample_payment = ''p1''"
    "valid_money (p_total sample_payment)" by (simp_all add: sample_payment_def)
  show ?thesis
    unfolding assms
    by (simp add: ApplyPaymentStatusUseCase_def decide_status_def real_app_def in_defs zoom_def in_publisher_def n s
        on_payment_def deref_def assign_def alloc_def payment_confirm_run andthen_def Let_def
        SqlAlchemyPaymentRepository_def sql_select_def sql_save_def session_def first_def payment_row_round_trip
        RabbitMqBlockingEventPublisher_def blocking_publish_def build_publisher_def in_broker_def amqp_def
        one_payment_def sample_world_def sample_publisher_def sample_broker_def empty_cell_def)
qed

end
