(* ===== verification/Prepared_File.thy ===== *)
theory Prepared_File
  imports Prepared
begin

text \<open>
  The whole script of theory Prepare\_Env: its steps composed, the file it writes read back, and
  what follows. Preparing a prepared file changes nothing, and the service accepts what the
  script wrote.
\<close>

section \<open>The steps composed\<close>

lemma step_cong:
  assumes "step W F R N m" and "\<And>d. N d = N' d"
  shows "step W F R N' m"
proof -
  have "N = N'" using assms(2) by auto
  then show ?thesis using assms(1) by simp
qed

lemma step_each:
  assumes "\<And>k. k \<in> set ks \<Longrightarrow> step {key k} {} {key k} (N k) (f k)" and "distinct (map key ks)"
  shows "step (set (map key ks)) {} (set (map key ks)) (\<lambda>d. \<forall>k\<in>set ks. N k d) (for_each f ks)"
  using assms
proof (induction ks)
  case (Cons k ks)
  have "step (set (map key ks)) {} (set (map key ks)) (\<lambda>d. \<forall>k\<in>set ks. N k d) (for_each f ks)"
    using Cons by simp
  from step_andthen[OF Cons.prems(1)[of k] this] Cons.prems(2) show ?case
    by (auto intro: step_cong)
next
  case Nil
  show ?case by (rule stepI) auto
qed

definition checks_of :: "(string \<rightharpoonup> string) \<Rightarrow> bool" where
  "checks_of d \<longleftrightarrow> (\<exists>x. fst (validate_database_url d) = Inr x) \<and> (\<exists>x. fst (validate_app_base_url d) = Inr x) \<and>
     (\<exists>k\<in>{''APPROVAL_TOKEN_SECRET'', ''APPROVAL_TOKEN_SECRET_FILE''}. filled d k) \<and>
     (\<exists>k\<in>{''JWT_SECRET'', ''JWT_SECRET_FILE''}. filled d k) \<and>
     (\<exists>k\<in>{''CUSTOMER_JWT_SECRET'', ''CUSTOMER_JWT_SECRET_FILE''}. filled d k)"

definition rest_normal :: "env_values \<Rightarrow> bool" where
  "rest_normal d \<longleftrightarrow>
     (\<forall>k\<in>set required_boolean_fields. \<exists>v\<in>truth. d k = Some v) \<and>
     (\<forall>(k, preset)\<in>set optional_boolean_defaults. \<forall>v. d k = Some v \<longrightarrow> v \<in> truth) \<and>
     (\<forall>k\<in>set required_positive_integer_fields. strip (value_of d k) = [] \<or> positive_numeral (value_of d k)) \<and>
     (\<forall>(k, preset)\<in>set optional_positive_integer_defaults. \<forall>v. d k = Some v \<longrightarrow> positive_numeral v) \<and>
     checks_of d \<and> list_normal ''CORS_ALLOWED_ORIGINS'' d \<and> list_normal ''TRUSTED_HOSTS'' d \<and>
     (\<exists>v. d ''LOG_LEVEL'' = Some v \<and> upper v = v)"

definition rest :: "(string \<Rightarrow> string) \<Rightarrow> (env_values, unit) exec" where
  "rest flt =
     andthen (for_each normalize_boolean required_boolean_fields) (\<lambda>_.
     andthen (for_each (\<lambda>(key, preset). normalize_optional_boolean key preset) optional_boolean_defaults) (\<lambda>_.
     andthen (for_each normalize_positive_integer required_positive_integer_fields) (\<lambda>_.
     andthen (for_each (\<lambda>(key, preset). normalize_optional_positive_integer key preset)
       optional_positive_integer_defaults) (\<lambda>_.
     andthen validate_database_url (\<lambda>_.
     andthen validate_app_base_url (\<lambda>_.
     andthen (normalize_list_field flt ''CORS_ALLOWED_ORIGINS'') (\<lambda>_.
     andthen (normalize_list_field flt ''TRUSTED_HOSTS'') (\<lambda>_.
     andthen validate_secret_contract (\<lambda>_.
     andthen (\<lambda>d. (item_of d ''LOG_LEVEL'', d)) (\<lambda>level.
       set_value ''LOG_LEVEL'' (upper level)))))))))))"

lemma prepare_values_rest: "prepare_values flt =
    andthen (andthen validate_required_text_fields (\<lambda>_. validate_environment)) (\<lambda>_.
    andthen normalize_email_provider (\<lambda>_. rest flt))"
  by (simp add: prepare_values_def rest_def andthen_assoc)

lemma presets: "positive_numeral ''587''" "positive_numeral ''10''" "''false'' \<in> truth"
proof -
  have "py_int (show_nat n) = Some (int n)" if "length (show_nat n) \<le> 3" for n
    using that by (intro py_int_show) (simp add: max_int_digits_def)
  moreover have "show_nat 587 = ''587''" "show_nat 10 = ''10''" by code_simp+
  ultimately have "py_int ''587'' = Some 587" "py_int ''10'' = Some 10"
    by (metis length_Cons list.size(3) numeral_3_eq_3 order_refl of_nat_numeral,
        metis One_nat_def Suc_le_mono length_Cons list.size(3) numeral_3_eq_3 of_nat_numeral le0)
  moreover have "show_int 587 = ''587''" "show_int 10 = ''10''" by code_simp+
  ultimately show "positive_numeral ''587''" "positive_numeral ''10''" "''false'' \<in> truth"
    unfolding positive_numeral_def truth_def by (metis zero_less_numeral, metis zero_less_numeral, simp)
qed

lemma steps_of_the_rest:
  "step {''LOG_JSON''} {} {''LOG_JSON''} (\<lambda>d. \<forall>k\<in>set required_boolean_fields. \<exists>v\<in>truth. d k = Some v)
     (for_each normalize_boolean required_boolean_fields)"
  "step {''SMTP_USE_TLS'', ''SMTP_USE_AUTH''} {} {''SMTP_USE_TLS'', ''SMTP_USE_AUTH''}
     (\<lambda>d. \<forall>(k, preset)\<in>set optional_boolean_defaults. \<forall>v. d k = Some v \<longrightarrow> v \<in> truth)
     (for_each (\<lambda>(key, preset). normalize_optional_boolean key preset) optional_boolean_defaults)"
  "step (set required_positive_integer_fields) {} (set required_positive_integer_fields)
     (\<lambda>d. \<forall>k\<in>set required_positive_integer_fields.
        strip (value_of d k) = [] \<or> positive_numeral (value_of d k))
     (for_each normalize_positive_integer required_positive_integer_fields)"
  "step {''SMTP_PORT'', ''SMTP_TIMEOUT_SECONDS''} {} {''SMTP_PORT'', ''SMTP_TIMEOUT_SECONDS''}
     (\<lambda>d. \<forall>(k, preset)\<in>set optional_positive_integer_defaults. \<forall>v. d k = Some v \<longrightarrow> positive_numeral v)
     (for_each (\<lambda>(key, preset). normalize_optional_positive_integer key preset) optional_positive_integer_defaults)"
proof -
  note each = step_each[where key = id] step_each[where key = fst]
  show "step {''LOG_JSON''} {} {''LOG_JSON''} (\<lambda>d. \<forall>k\<in>set required_boolean_fields. \<exists>v\<in>truth. d k = Some v)
     (for_each normalize_boolean required_boolean_fields)"
    using each(1)[of required_boolean_fields "\<lambda>k d. \<exists>v\<in>truth. d k = Some v" normalize_boolean] step_boolean
    by (simp add: required_boolean_fields_def)
  show "step {''SMTP_USE_TLS'', ''SMTP_USE_AUTH''} {} {''SMTP_USE_TLS'', ''SMTP_USE_AUTH''}
     (\<lambda>d. \<forall>(k, preset)\<in>set optional_boolean_defaults. \<forall>v. d k = Some v \<longrightarrow> v \<in> truth)
     (for_each (\<lambda>(key, preset). normalize_optional_boolean key preset) optional_boolean_defaults)"
  proof -
    have one: "step {fst k} {} {fst k} (case k of (k, p) \<Rightarrow> \<lambda>d. \<forall>v. d k = Some v \<longrightarrow> v \<in> truth)
        (case k of (key, preset) \<Rightarrow> normalize_optional_boolean key preset)" if "k \<in> set optional_boolean_defaults" for k
      using that step_optional_boolean presets(3) by (auto simp: optional_boolean_defaults_def)
    have "distinct (map fst optional_boolean_defaults)" by (simp add: optional_boolean_defaults_def)
    from each(2)[OF one this] show ?thesis by (simp add: optional_boolean_defaults_def del: for_each.simps)
  qed
  show "step (set required_positive_integer_fields) {} (set required_positive_integer_fields)
     (\<lambda>d. \<forall>k\<in>set required_positive_integer_fields.
        strip (value_of d k) = [] \<or> positive_numeral (value_of d k))
     (for_each normalize_positive_integer required_positive_integer_fields)"
    using each(1)[of required_positive_integer_fields
        "\<lambda>k d. strip (value_of d k) = [] \<or> positive_numeral (value_of d k)" normalize_positive_integer]
      step_positive_integer
    by (simp add: required_positive_integer_fields_def del: for_each.simps strip_Nil_iff)
  show "step {''SMTP_PORT'', ''SMTP_TIMEOUT_SECONDS''} {} {''SMTP_PORT'', ''SMTP_TIMEOUT_SECONDS''}
     (\<lambda>d. \<forall>(k, preset)\<in>set optional_positive_integer_defaults. \<forall>v. d k = Some v \<longrightarrow> positive_numeral v)
     (for_each (\<lambda>(key, preset). normalize_optional_positive_integer key preset) optional_positive_integer_defaults)"
  proof -
    have one: "step {fst k} {} {fst k} (case k of (k, p) \<Rightarrow> \<lambda>d. \<forall>v. d k = Some v \<longrightarrow> positive_numeral v)
        (case k of (key, preset) \<Rightarrow> normalize_optional_positive_integer key preset)" if "k \<in> set optional_positive_integer_defaults" for k
      using that step_optional_positive_integer presets(1,2) by (auto simp: optional_positive_integer_defaults_def)
    have "distinct (map fst optional_positive_integer_defaults)" by (simp add: optional_positive_integer_defaults_def)
    from each(2)[OF one this] show ?thesis by (simp add: optional_positive_integer_defaults_def del: for_each.simps)
  qed
qed

lemma step_secrets: "step {} {} (set [''APPROVAL_TOKEN_SECRET'', ''APPROVAL_TOKEN_SECRET_FILE''] \<union>
    (set [''JWT_SECRET'', ''JWT_SECRET_FILE''] \<union> set [''CUSTOMER_JWT_SECRET'', ''CUSTOMER_JWT_SECRET_FILE'']))
    (\<lambda>d. (\<exists>k\<in>set [''APPROVAL_TOKEN_SECRET'', ''APPROVAL_TOKEN_SECRET_FILE'']. filled d k) \<and>
      (\<exists>k\<in>set [''JWT_SECRET'', ''JWT_SECRET_FILE'']. filled d k) \<and>
      (\<exists>k\<in>set [''CUSTOMER_JWT_SECRET'', ''CUSTOMER_JWT_SECRET_FILE'']. filled d k)) validate_secret_contract"
  (is "step _ _ ?R ?N _")
proof -
  have "step ({} \<union> ({} \<union> {})) ({} \<union> ({} \<union> {})) ?R ?N validate_secret_contract"
    unfolding validate_secret_contract_def by (intro step_andthen step_any) simp_all
  then show ?thesis by (simp only: Un_empty_left)
qed

lemma step_rest: "\<exists>W F R. step W F R rest_normal (rest flt) \<and> F = {} \<and> ''EMAIL_PROVIDER'' \<notin> W \<union> R \<and> ''ENVIRONMENT'' \<notin> W"
  unfolding rest_def
  apply (intro exI conjI)
   apply (rule step_cong)
    apply (rule step_andthen, rule steps_of_the_rest(1))
     apply (rule step_andthen, rule steps_of_the_rest(2))
      apply (rule step_andthen, rule steps_of_the_rest(3))
       apply (rule step_andthen, rule steps_of_the_rest(4))
        apply (rule step_andthen, rule step_database_url)
         apply (rule step_andthen, rule step_app_base_url)
          apply (rule step_andthen, rule step_list_field)
           apply (rule step_andthen, rule step_list_field)
            apply (rule step_andthen, rule step_secrets, rule step_log_level)
           apply (simp_all add: required_positive_integer_fields_def)
  apply (auto simp add: rest_normal_def checks_of_def required_positive_integer_fields_def)
  done

section \<open>The values\<close>

definition front_normal :: "env_values \<Rightarrow> bool" where
  "front_normal d \<longleftrightarrow> (\<exists>v\<in>set valid_environments. d ''ENVIRONMENT'' = Some v)"

lemma step_front:
  "step {''ENVIRONMENT''} (set required_text_fields) {''ENVIRONMENT''} front_normal
     (andthen validate_required_text_fields (\<lambda>_. validate_environment))"
proof -
  have "step ({} \<union> {''ENVIRONMENT''}) (set required_text_fields \<union> {}) ({} \<union> {''ENVIRONMENT''})
      (\<lambda>d. True \<and> (\<exists>v\<in>set valid_environments. d ''ENVIRONMENT'' = Some v))
      (andthen validate_required_text_fields (\<lambda>_. validate_environment))"
    unfolding validate_required_text_fields_def by (intro step_andthen step_required step_environment) simp
  then show ?thesis
    by (simp only: Un_empty_left Un_empty_right simp_thms front_normal_def[abs_def])
qed

definition provider_normal :: "env_values \<Rightarrow> bool" where
  "provider_normal d \<longleftrightarrow> (\<forall>v. d ''EMAIL_PROVIDER'' = Some v \<longrightarrow> v \<in> set valid_email_providers)"

lemma email_run:
  assumes "normalize_email_provider d = (Inr x, d')"
  shows "\<exists>v\<in>set valid_email_providers. d' = d(''EMAIL_PROVIDER'' \<mapsto> v)"
  using assms by (auto simp: normalize_email_provider_def Let_def andthen_def set_value_def invalid_def split: if_splits)

lemma email_fixed:
  assumes "provider_normal d"
  shows "\<exists>v x. normalize_email_provider d = (Inr x, d(''EMAIL_PROVIDER'' \<mapsto> v)) \<and>
    (''EMAIL_PROVIDER'' \<in> dom d \<longrightarrow> d ''EMAIL_PROVIDER'' = Some v)"
  using assms
  by (auto simp: provider_normal_def normalize_email_provider_def valid_email_providers_def Let_def set_value_def
      split: option.splits)

text \<open>The values of a prepared file, read back.\<close>

definition prepared :: "env_values \<Rightarrow> bool" where
  "prepared d \<longleftrightarrow> (\<forall>k\<in>set required_text_fields. filled d k) \<and> front_normal d \<and> provider_normal d \<and> rest_normal d"

lemma provider_clean: "v \<in> set valid_email_providers \<Longrightarrow> clean v"
  by (auto simp: valid_email_providers_def)

lemma prepare_values_success:
  assumes "prepare_values flt d = (Inr x, d')" and "clean_map d"
  shows "prepared (d' |` dom d) \<and> clean_map d' \<and> dom d \<subseteq> dom d'"
proof -
  obtain W R where rest: "step W {} R rest_normal (rest flt)"
    and off: "''EMAIL_PROVIDER'' \<notin> W \<union> R" "''ENVIRONMENT'' \<notin> W"
    using step_rest by blast
  obtain y d1 z d2 where r1: "andthen validate_required_text_fields (\<lambda>_. validate_environment) d = (Inr y, d1)"
    and r2: "normalize_email_provider d1 = (Inr z, d2)" and r3: "rest flt d2 = (Inr x, d')"
    using assms(1) unfolding prepare_values_rest by (blast elim: andthen_InrE)
  note s1 = step_success[OF step_front r1] and s3 = step_success[OF rest r3]
  obtain v where v: "v \<in> set valid_email_providers" "d2 = d1(''EMAIL_PROVIDER'' \<mapsto> v)" using email_run[OF r2] by blast
  have dom: "dom d1 = dom d" "dom d' = insert ''EMAIL_PROVIDER'' (dom d)"
  proof -
    show "dom d1 = dom d" using s1 by (simp add: changes_def)
    moreover have "dom d' = dom d2" using s3 by (simp add: changes_def)
    ultimately show "dom d' = insert ''EMAIL_PROVIDER'' (dom d)" using v(2) by simp
  qed
  have "clean_map d1" using s1 assms(2) unfolding changes_def by blast
  then have "clean_map d2" using provider_clean[OF v(1)] unfolding v(2) clean_map_def by simp
  then have clean: "clean_map d'" using s3 unfolding changes_def by blast
  have outside: "d' k = d2 k" if "k \<notin> W" for k using s3 that unfolding changes_def by blast
  let ?r = "d' |` dom d"
  have same: "?r k = d' k" if "k \<noteq> ''EMAIL_PROVIDER''" for k
  proof (cases "k \<in> dom d")
    case False
    then have "k \<notin> dom d'" using that unfolding dom(2) by blast
    then show ?thesis using False by (simp add: restrict_map_def domIff)
  qed simp
  have filled_same: "filled ?r k = filled d' k" if "k \<noteq> ''EMAIL_PROVIDER''" for k
    using same[OF that] by (simp add: filled_def value_of_def)
  have "rest_normal ?r"
  proof (rule step_local[OF rest])
    show "\<forall>k\<in>R. ?r k = d' k"
    proof
      fix k assume "k \<in> R"
      then have "k \<noteq> ''EMAIL_PROVIDER''" using off(1) by blast
      then show "?r k = d' k" by (rule same)
    qed
    show "rest_normal d'" using s3 by simp
  qed
  moreover have "front_normal ?r"
    using s1 v(2) outside[OF off(2)] same[of "''ENVIRONMENT''"] by (simp add: front_normal_def)
  moreover have "\<forall>k\<in>set required_text_fields. filled ?r k"
  proof
    fix k assume k: "k \<in> set required_text_fields"
    then have e: "k \<noteq> ''EMAIL_PROVIDER''" by (auto simp: required_text_fields_def)
    have "filled d1 k" using s1 k by simp
    then have "filled d2 k" using e v(2) by (simp add: filled_def value_of_def)
    then have "filled d' k" using s3 unfolding changes_def by blast
    then show "filled ?r k" using filled_same[OF e] by simp
  qed
  moreover have "provider_normal ?r"
    using v outside[of "''EMAIL_PROVIDER''"] off(1) by (simp add: provider_normal_def restrict_map_def)
  ultimately show ?thesis using clean unfolding prepared_def dom(2) by blast
qed

lemma prepare_values_fixed:
  assumes "prepared r"
  shows "\<exists>x r'. prepare_values flt r = (Inr x, r') \<and> (\<forall>k\<in>dom r. r' k = r k)"
proof -
  obtain W R where rest: "step W {} R rest_normal (rest flt)"
    and off: "''EMAIL_PROVIDER'' \<notin> W \<union> R" "''ENVIRONMENT'' \<notin> W"
    using step_rest by blast
  obtain y where r1: "andthen validate_required_text_fields (\<lambda>_. validate_environment) r = (Inr y, r)"
    using step_fixed[OF step_front, of r] assms by (auto simp: prepared_def)
  obtain v z where r2: "normalize_email_provider r = (Inr z, r(''EMAIL_PROVIDER'' \<mapsto> v))"
    and v: "''EMAIL_PROVIDER'' \<in> dom r \<longrightarrow> r ''EMAIL_PROVIDER'' = Some v"
    using email_fixed[of r] assms by (auto simp: prepared_def)
  let ?r = "r(''EMAIL_PROVIDER'' \<mapsto> v)"
  have "rest_normal ?r" using step_local[OF rest, of ?r r] assms off by (auto simp: prepared_def)
  then obtain x where "rest flt ?r = (Inr x, ?r)" using step_fixed[OF rest] by blast
  then have "prepare_values flt r = (Inr x, ?r)" unfolding prepare_values_rest by (simp add: r1 r2)
  then show ?thesis using v by (intro exI[of _ x] exI[of _ ?r]) auto
qed

section \<open>The file written is read back\<close>

lemma set_strip: "set (strip s) \<subseteq> set s"
  unfolding strip_def lstrip_def by (rule subset_trans[OF set_rstrip]) (auto dest: set_dropWhileD)

lemma hd_strip: "strip s \<noteq> [] \<Longrightarrow> hd (strip s) = hd (lstrip s)"
  using rstrip_prefix[of "lstrip s"] unfolding strip_def by (metis hd_append2)

lemma hd_strip_visible: "s \<noteq> [] \<Longrightarrow> \<not> is_space (hd s) \<Longrightarrow> strip s \<noteq> [] \<and> hd (strip s) = hd s"
proof -
  assume s: "s \<noteq> []" "\<not> is_space (hd s)"
  then have "strip s \<noteq> []" unfolding strip_Nil_iff by (auto intro: hd_in_set)
  moreover have "lstrip s = s" using s by (cases s) (simp_all add: lstrip_def)
  ultimately show ?thesis using hd_strip[of s] by simp
qed

lemma hd_strip_prefix: "strip a \<noteq> [] \<Longrightarrow> hd (strip (a @ b)) = hd (strip a)"
proof -
  assume a: "strip a \<noteq> []"
  then have ex: "\<exists>c\<in>set a. \<not> is_space c" by (simp add: strip_Nil_iff)
  then have "strip (a @ b) \<noteq> []" by (auto simp: strip_Nil_iff)
  moreover have "lstrip (a @ b) = lstrip a @ b" "lstrip a \<noteq> []"
    using ex by (auto simp: lstrip_def dropWhile_append1 dropWhile_eq_Nil_conv)
  ultimately show ?thesis using hd_strip a by simp
qed

lemma startswith_hash: "startswith s ''#'' \<longleftrightarrow> s \<noteq> [] \<and> hd s = CHR ''#''"
  by (cases s) (auto simp: startswith_def)

lemma classify_raw: "classify raw = Raw_Line l \<Longrightarrow> l = raw"
  by (auto simp: classify.simps Let_def split: if_splits)

lemma equals_visible: "\<not> is_space CHR ''=''"
  by (simp add: is_space_def code_point_def)

lemma key_line_again:
  assumes "classify raw = Key_Line k"
  shows "classify (k @ ''='' @ v) = Key_Line k"
    and "snd (snd (partition_at CHR ''='' (k @ ''='' @ v))) = v" and "strip k = k" and "set k \<subseteq> set raw"
proof -
  define a where "a = takeWhile (\<lambda>x. x \<noteq> CHR ''='') raw"
  have k: "k = strip a" and r: "strip raw \<noteq> []" "\<not> startswith (strip raw) ''#''" "CHR ''='' \<in> set raw"
    using assms by (auto simp: classify.simps Let_def partition_at_def a_def split: if_splits)
  have "set k \<subseteq> set a" unfolding k by (rule set_strip)
  moreover have "set a \<subseteq> set raw - {CHR ''=''}" by (auto simp: a_def dest: set_takeWhileD)
  ultimately have free: "CHR ''='' \<notin> set k" and sub: "set k \<subseteq> set raw" by auto
  have part: "partition_at CHR ''='' (k @ CHR ''='' # v) = (k, True, v)" by (rule partition_at_found[OF free])
  have fixed: "strip k = k" by (simp add: k)
  have "hd (k @ CHR ''='' # v) \<noteq> CHR ''#'' \<and> \<not> is_space (hd (k @ CHR ''='' # v))"
  proof (cases "k = []")
    case False
    have "raw = a @ dropWhile (\<lambda>x. x \<noteq> CHR ''='') raw" by (simp add: a_def)
    then have "hd (strip raw) = hd k" using hd_strip_prefix[of a] False k by metis
    then have "hd k \<noteq> CHR ''#''" using r(1,2) by (simp add: startswith_hash)
    then show ?thesis using strip_ends(1)[of a] False k by simp
  qed (simp add: equals_visible)
  then have "strip (k @ CHR ''='' # v) \<noteq> [] \<and> hd (strip (k @ CHR ''='' # v)) \<noteq> CHR ''#''"
    using hd_strip_visible[of "k @ CHR ''='' # v"] by simp
  then show "classify (k @ ''='' @ v) = Key_Line k"
    using part fixed by (simp add: classify.simps startswith_hash del: strip_Nil_iff)
  show "snd (snd (partition_at CHR ''='' (k @ ''='' @ v))) = v" using part by simp
  show "strip k = k" by (rule fixed)
  show "set k \<subseteq> set raw" by (rule sub)
qed

definition assign :: "string \<Rightarrow> env_values \<Rightarrow> env_values" where
  "assign raw m =
     (case classify raw of
        Raw_Line l \<Rightarrow> m
      | Key_Line k \<Rightarrow> m(k \<mapsto> strip (snd (snd (partition_at CHR ''='' raw)))))"

lemma load_lines_assign: "load_lines ls = (map classify ls, fold assign ls Map.empty)"
proof -
  have "foldl (\<lambda>acc raw. load_line raw acc) (es, m) ls = (es @ map classify ls, fold assign ls m)" for es m
    by (induction ls arbitrary: es m)
       (auto simp: assign_def split: env_entry.split dest: classify_raw)
  then show ?thesis by (simp add: load_lines_def)
qed

lemma assign_dom: "dom (fold assign ls m) = dom m \<union> {k. Key_Line k \<in> set (map classify ls)}"
  by (induction ls arbitrary: m) (auto simp: assign_def split: env_entry.splits)

lemma assign_clean: "list_all no_break ls \<Longrightarrow> clean_map m \<Longrightarrow> clean_map (fold assign ls m)"
proof (induction ls arbitrary: m)
  case (Cons raw ls)
  let ?v = "snd (snd (partition_at CHR ''='' raw))"
  have "set ?v \<subseteq> set raw" by (auto simp: partition_at_def dest!: in_set_dropD set_dropWhileD)
  then have "no_break (strip ?v)" using Cons.prems(1) set_strip[of ?v] by (auto intro!: no_break_subset[of raw])
  then have "clean (strip ?v)" by (simp add: clean_def)
  then have "clean_map (assign raw m)"
    using Cons.prems(2) by (auto simp: assign_def clean_map_def split: env_entry.splits)
  then show ?case using Cons by simp
qed simp

lemma entry_line_again:
  assumes "classify raw = e"
  shows "classify (entry_line d e) = e"
proof (cases e)
  case (Raw_Line l)
  then have "l = raw" using assms classify_raw by blast
  then show ?thesis using Raw_Line assms by simp
qed (use assms key_line_again(1) in simp)

lemma assign_entry:
  assumes "classify raw = e" and "clean_map d"
  shows "assign (entry_line d e) m = (case e of Raw_Line l \<Rightarrow> m | Key_Line k \<Rightarrow> m(k \<mapsto> value_of d k))"
proof (cases e)
  case (Key_Line k)
  have "strip (value_of d k) = value_of d k"
    using assms(2) by (cases "d k") (simp_all add: clean_map_def clean_def value_of_def)
  then show ?thesis
    using key_line_again(1,2)[where raw = raw and k = k and v = "value_of d k"] assms(1) Key_Line
    by (simp add: assign_def)
qed (use entry_line_again[OF assms(1), of d] in \<open>simp add: assign_def\<close>)

lemma assign_entries:
  assumes "clean_map d"
  shows "fold assign (map (\<lambda>raw. entry_line d (classify raw)) ls) m =
    (\<lambda>k. if Key_Line k \<in> set (map classify ls) then Some (value_of d k) else m k)"
proof (induction ls arbitrary: m)
  case (Cons raw ls)
  show ?case
    by (auto simp: Cons assign_entry[OF refl assms] fun_eq_iff split: env_entry.splits)
qed simp

lemma entry_line_no_break:
  assumes "no_break raw" and "clean_map d"
  shows "no_break (entry_line d (classify raw))"
proof (cases "classify raw")
  case (Raw_Line l)
  then have "l = raw" by (rule classify_raw)
  then show ?thesis using assms(1) Raw_Line by simp
next
  case (Key_Line k)
  have "no_break (value_of d k)"
    using assms(2) by (cases "d k") (simp_all add: clean_map_def clean_def value_of_def)
  moreover have "no_break k" using key_line_again(4)[OF Key_Line] assms(1) by (rule no_break_subset[rotated])
  moreover have "\<not> is_break CHR ''=''" using break_space equals_visible by blast
  ultimately show ?thesis using Key_Line by simp
qed

lemma env_file_round_trip_run:
  assumes "load_env_file path file = Inr (entries, values)" and "entries \<noteq> []"
    and "dom values \<subseteq> dom d" and "clean_map d"
  shows "load_env_file path (Some (rewrite_env_file entries d)) = Inr (entries, d |` dom values) \<and> clean_map values"
proof -
  obtain content where l: "load_lines (splitlines content) = (entries, values)"
    using assms(1) by (auto simp: load_env_file_def split: option.splits)
  define ls where "ls = splitlines content"
  have e: "entries = map classify ls" and v: "values = fold assign ls Map.empty"
    using l by (simp_all add: load_lines_assign ls_def)
  have nb: "list_all no_break ls" unfolding ls_def by (rule splitlines_no_break)
  have dom: "dom values = {k. Key_Line k \<in> set (map classify ls)}" unfolding v assign_dom by simp
  let ?out = "map (\<lambda>raw. entry_line d (classify raw)) ls"
  have "list_all no_break ?out" using nb entry_line_no_break[OF _ assms(4)] by (auto simp: list_all_iff)
  then have "splitlines (write_lines ?out) = ?out"
    using assms(2) e by (intro splitlines_write_lines) simp_all
  moreover have "map classify ?out = entries" unfolding e by (simp add: entry_line_again)
  moreover have "fold assign ?out Map.empty = d |` dom values"
    unfolding assign_entries[OF assms(4)] dom
    using assms(3) dom by (auto simp: fun_eq_iff restrict_map_def intro!: dom_value[symmetric])
  ultimately have "load_lines (splitlines (write_lines ?out)) = (entries, d |` dom values)"
    unfolding load_lines_assign by simp
  moreover have "rewrite_env_file entries d = utf8_encode (write_lines ?out)"
    by (simp add: rewrite_env_file_def e comp_def)
  moreover have "clean_map values" unfolding v using nb by (rule assign_clean) (simp add: clean_map_def)
  ultimately show ?thesis by (simp add: load_env_file_def)
qed

text \<open>
  Writing is inverse to reading: the file that is written for the entries of a file
  and any map of clean values, such as the values read, reads back as the same entries and the
  values of the keys the file has.
\<close>

theorem env_file_round_trip:
  assumes "load_env_file path file = Inr (entries, values)" and "entries \<noteq> []"
    and "dom values \<subseteq> dom d" and "clean_map d"
  shows "load_env_file path (Some (rewrite_env_file entries d)) = Inr (entries, d |` dom values) \<and> clean_map values"
  using assms by (rule env_file_round_trip_run)

section \<open>Properties of the script\<close>

lemma prepare_envE:
  assumes "prepare_env flt path file = Inr out"
  obtains entries d d' where "load_env_file path file = Inr (entries, d)" and "dom d \<subseteq> dom d'"
    and "out = rewrite_env_file entries d'" and "prepared (d' |` dom d)"
    and "load_env_file path (Some out) = Inr (entries, d' |` dom d)" and "clean_map d'"
    and "\<And>k. Key_Line k \<in> set entries \<Longrightarrow> k \<in> dom d"
proof -
  obtain entries d x d' where l: "load_env_file path file = Inr (entries, d)"
    and run: "prepare_values flt d = (Inr x, d')" and out: "out = rewrite_env_file entries d'"
    using assms by (auto simp: prepare_env_def bind_sum_def split: sum.splits prod.splits)
  obtain ls where ls: "list_all no_break ls" "entries = map classify ls" "d = fold assign ls Map.empty"
    using l splitlines_no_break by (auto simp: load_env_file_def load_lines_assign split: option.splits)
  have "clean_map d" unfolding ls(3) using ls(1) by (rule assign_clean) (simp add: clean_map_def)
  note s = prepare_values_success[OF run this]
  have "filled (d' |` dom d) ''APP_NAME''" using s by (simp add: prepared_def required_text_fields_def)
  then have "d \<noteq> Map.empty" by (auto simp: filled_def value_of_def)
  then have "entries \<noteq> []" using ls(2,3) by auto
  from env_file_round_trip_run[OF l this] s
  have "load_env_file path (Some out) = Inr (entries, d' |` dom d)" unfolding out by blast
  moreover have "k \<in> dom d" if "Key_Line k \<in> set entries" for k
    using that ls(2) unfolding ls(3) assign_dom by simp
  ultimately show thesis using that[OF l] s out by blast
qed

text \<open>
  Property C27. The script is idempotent: once it has prepared a file, running it again on what it
  wrote succeeds and writes the same bytes.
\<close>

theorem preparing_again_changes_nothing:
  assumes "prepare_env flt path file = Inr out"
  shows "prepare_env flt path (Some out) = Inr out"
proof -
  obtain entries d d' where "load_env_file path file = Inr (entries, d)" and sub: "dom d \<subseteq> dom d'"
    and out: "out = rewrite_env_file entries d'" and p: "prepared (d' |` dom d)"
    and l: "load_env_file path (Some out) = Inr (entries, d' |` dom d)" and c: "clean_map d'"
    and keys: "\<And>k. Key_Line k \<in> set entries \<Longrightarrow> k \<in> dom d"
    using assms by (rule prepare_envE) blast
  obtain x r where run: "prepare_values flt (d' |` dom d) = (Inr x, r)" and r: "\<forall>k\<in>dom (d' |` dom d). r k = (d' |` dom d) k"
    using prepare_values_fixed[OF p] by blast
  have "r k = d' k" if "Key_Line k \<in> set entries" for k
    using r keys[OF that] sub by (simp add: dom_restrict subset_iff)
  then have "entry_line r e = entry_line d' e" if "e \<in> set entries" for e
    using that by (cases e) (simp_all add: value_of_def)
  then have "rewrite_env_file entries r = out" unfolding out rewrite_env_file_def by (simp cong: map_cong)
  then show ?thesis using l run by (simp add: prepare_env_def)
qed

text \<open>
  Property C28. What the script checked, the service reads as it should. Read back, a file the
  script wrote has an environment of the \<open>Literal\<close> of the settings, a Boolean \<open>LOG_JSON\<close>, a log
  level that the validator of the settings leaves alone, a database URL inside the boundary that
  the file itself names, and lists of origins and hosts that the settings parse to the same
  non-empty lists. Its health-check timeout is a positive integer or blank; a blank one is not
  repaired (lemma \<open>blank_timeout_is_prepared\<close>), and no \<open>int\<close> reads it.
\<close>

theorem prepared_file_is_accepted:
  assumes "prepare_env flt path file = Inr out"
  shows "\<exists>entries d. load_env_file path (Some out) = Inr (entries, d) \<and>
    value_of d ''ENVIRONMENT'' \<in> set environment_literal \<and>
    value_of d ''LOG_JSON'' \<in> {''true'', ''false''} \<and>
    normalize_log_level (value_of d ''LOG_LEVEL'') = value_of d ''LOG_LEVEL'' \<and>
    (\<exists>target. validate_runtime_database_url (value_of d ''DATABASE_URL'')
       (Some (case d ''EXPECTED_DATABASE_NAME'' of None \<Rightarrow> ''billing_service_db'' | Some n \<Rightarrow> n))
       (Some (case d ''EXPECTED_DATABASE_USERNAME'' of None \<Rightarrow> ''billing_service_user'' | Some u \<Rightarrow> u)) = Inr target) \<and>
    (\<forall>k\<in>{''CORS_ALLOWED_ORIGINS'', ''TRUSTED_HOSTS''}. \<exists>items. items \<noteq> [] \<and>
       parse_csv_or_json_list flt (Raw_Text (value_of d k)) = Inr items \<and>
       value_of d k = dumps_compact (JArr (map JStr items))) \<and>
    (value_of d ''HEALTHCHECK_TIMEOUT_SECONDS'' = [] \<or>
       (\<exists>n>0. py_int (value_of d ''HEALTHCHECK_TIMEOUT_SECONDS'') = Some n))"
proof -
  obtain entries d d' where "load_env_file path file = Inr (entries, d)" and sub: "dom d \<subseteq> dom d'"
    and out: "out = rewrite_env_file entries d'" and p: "prepared (d' |` dom d)"
    and l: "load_env_file path (Some out) = Inr (entries, d' |` dom d)" and c: "clean_map d'"
    and keys: "\<And>k. Key_Line k \<in> set entries \<Longrightarrow> k \<in> dom d"
    using assms by (rule prepare_envE) blast
  let ?r = "d' |` dom d"
  have n: "front_normal ?r" "rest_normal ?r" using p by (simp_all add: prepared_def)
  have clean: "strip (value_of ?r k) = value_of ?r k" for k
    using c by (cases "?r k") (auto simp: clean_map_def clean_def value_of_def restrict_map_def split: if_splits)
  have list: "\<exists>items. items \<noteq> [] \<and> parse_csv_or_json_list flt (Raw_Text (value_of ?r k)) = Inr items \<and>
      value_of ?r k = dumps_compact (JArr (map JStr items))" if "list_normal k ?r" for k
  proof -
    obtain items where i: "items \<noteq> []" "\<forall>i\<in>set items. strip i = i \<and> i \<noteq> []" "value_of ?r k = list_text items"
      using \<open>list_normal k ?r\<close> unfolding list_normal_def by auto
    have "list_text items \<noteq> []" "startswith (list_text items) ''[''" by (simp_all add: list_text_shape startswith_def)
    then have "parse_csv_or_json_list flt (Raw_Text (value_of ?r k)) = Inr items"
      using clean[of k] nonblank_fixed[OF i(2)] i(3)
      by (simp add: parse_csv_or_json_list_def list_text_loads comp_def)
    then show ?thesis using i(1,3) unfolding list_text_def by blast
  qed
  have db: "\<exists>target. validate_runtime_database_url (value_of ?r ''DATABASE_URL'')
       (Some (case ?r ''EXPECTED_DATABASE_NAME'' of None \<Rightarrow> ''billing_service_db'' | Some n \<Rightarrow> n))
       (Some (case ?r ''EXPECTED_DATABASE_USERNAME'' of None \<Rightarrow> ''billing_service_user'' | Some u \<Rightarrow> u)) = Inr target"
    using n(2) clean[of "''DATABASE_URL''"]
    by (auto simp: rest_normal_def checks_of_def validate_database_url_def andthen_def require_run invalid_def
        split: if_splits sum.splits)
  have "filled ?r ''HEALTHCHECK_TIMEOUT_SECONDS'' \<longrightarrow> positive_numeral (value_of ?r ''HEALTHCHECK_TIMEOUT_SECONDS'')"
    using n(2) unfolding rest_normal_def required_positive_integer_fields_def filled_def by auto
  then have timeout: "value_of ?r ''HEALTHCHECK_TIMEOUT_SECONDS'' = [] \<or>
      (\<exists>n>0. py_int (value_of ?r ''HEALTHCHECK_TIMEOUT_SECONDS'') = Some n)"
    using clean[of "''HEALTHCHECK_TIMEOUT_SECONDS''"] unfolding positive_numeral_def filled_def by auto
  have words: "value_of ?r ''ENVIRONMENT'' \<in> set environment_literal" "value_of ?r ''LOG_JSON'' \<in> {''true'', ''false''}"
    "upper (value_of ?r ''LOG_LEVEL'') = value_of ?r ''LOG_LEVEL''"
    using n unfolding front_normal_def rest_normal_def required_boolean_fields_def truth_def
    by (auto simp: valid_environments_def environment_literal_def value_of_def)
  show ?thesis
    using l words db timeout list n(2)
    by (intro exI[of _ entries] exI[of _ ?r]) (simp add: rest_normal_def normalize_log_level_def)
qed

section \<open>A concrete file\<close>

definition sample_env_file :: string where
  "sample_env_file =
     ''# billing'' @ [newline] @ ''APP_NAME = billing'' @ [newline] @ ''APP_VERSION=1'' @ [newline] @
     ''ENVIRONMENT=Production'' @ [newline] @ ''LOG_LEVEL=info'' @ [newline] @ ''LOG_JSON=TRUE'' @ [newline] @
     ''DATABASE_URL=postgresql://billing_service_user:p@db/billing_service_db'' @ [newline] @
     ''APP_BASE_URL=https://billing.test'' @ [newline] @ ''CORS_ALLOWED_ORIGINS=a, b'' @ [newline] @
     ''TRUSTED_HOSTS=*'' @ [newline] @ ''JWT_ALGORITHM=HS256'' @ [newline] @ ''SMTP_PORT='' @ [newline] @ ''HEALTHCHECK_TIMEOUT_SECONDS= 05'' @ [newline] @
     ''APPROVAL_TOKEN_SECRET=x'' @ [newline] @ ''JWT_SECRET=y'' @ [newline] @ ''CUSTOMER_JWT_SECRET=z''"

definition sample_env_out :: string where
  "sample_env_out =
     ''# billing'' @ [newline] @ ''APP_NAME=billing'' @ [newline] @ ''APP_VERSION=1'' @ [newline] @
     ''ENVIRONMENT=production'' @ [newline] @ ''LOG_LEVEL=INFO'' @ [newline] @ ''LOG_JSON=true'' @ [newline] @
     ''DATABASE_URL=postgresql://billing_service_user:p@db/billing_service_db'' @ [newline] @
     ''APP_BASE_URL=https://billing.test'' @ [newline] @
     ''CORS_ALLOWED_ORIGINS=['' @ [CHR 0x22] @ ''a'' @ [CHR 0x22] @ '','' @ [CHR 0x22] @ ''b'' @ [CHR 0x22] @ '']'' @ [newline] @
     ''TRUSTED_HOSTS=['' @ [CHR 0x22] @ ''*'' @ [CHR 0x22] @ '']'' @ [newline] @ ''JWT_ALGORITHM=HS256'' @ [newline] @
     ''SMTP_PORT=587'' @ [newline] @ ''HEALTHCHECK_TIMEOUT_SECONDS=5'' @ [newline] @
     ''APPROVAL_TOKEN_SECRET=x'' @ [newline] @ ''JWT_SECRET=y'' @ [newline] @
     ''CUSTOMER_JWT_SECRET=z'' @ [newline]"

lemma sample_prepared: "prepare_env id ''.env'' (Some sample_env_file) = Inr sample_env_out"
  by code_simp

theorem preparing_again_changes_nothing_witness:
  "prepare_env id ''.env'' (Some sample_env_out) = Inr sample_env_out"
  by (rule preparing_again_changes_nothing[OF sample_prepared])

text \<open>A blank number passes through the script as it is, and is no number.\<close>

lemma blank_timeout_is_prepared:
  assumes "strip (value_of d ''HEALTHCHECK_TIMEOUT_SECONDS'') = []"
  shows "normalize_positive_integer ''HEALTHCHECK_TIMEOUT_SECONDS'' d = (Inr (), d)"
    and "py_int (strip (value_of d ''HEALTHCHECK_TIMEOUT_SECONDS'')) = None"
  using assms by (simp_all add: normalize_positive_integer_def exec_simps py_int_def)

theorem prepared_file_is_accepted_witness:
  "\<exists>entries d. load_env_file ''.env'' (Some sample_env_out) = Inr (entries, d) \<and>
    value_of d ''ENVIRONMENT'' \<in> set environment_literal \<and>
    value_of d ''LOG_JSON'' \<in> {''true'', ''false''} \<and>
    normalize_log_level (value_of d ''LOG_LEVEL'') = value_of d ''LOG_LEVEL'' \<and>
    (\<exists>target. validate_runtime_database_url (value_of d ''DATABASE_URL'')
       (Some (case d ''EXPECTED_DATABASE_NAME'' of None \<Rightarrow> ''billing_service_db'' | Some n \<Rightarrow> n))
       (Some (case d ''EXPECTED_DATABASE_USERNAME'' of None \<Rightarrow> ''billing_service_user'' | Some u \<Rightarrow> u)) = Inr target) \<and>
    (\<forall>k\<in>{''CORS_ALLOWED_ORIGINS'', ''TRUSTED_HOSTS''}. \<exists>items. items \<noteq> [] \<and>
       parse_csv_or_json_list id (Raw_Text (value_of d k)) = Inr items \<and>
       value_of d k = dumps_compact (JArr (map JStr items))) \<and>
    (value_of d ''HEALTHCHECK_TIMEOUT_SECONDS'' = [] \<or>
       (\<exists>n>0. py_int (value_of d ''HEALTHCHECK_TIMEOUT_SECONDS'') = Some n))"
  by (rule prepared_file_is_accepted[OF sample_prepared])

lemma sample_lines:
  "load_env_file ''.env'' (Some (''A= 1'' @ [newline])) = Inr ([Key_Line ''A''], [''A'' \<mapsto> ''1''])"
proof -
  have "utf8_decode (''A= 1'' @ [newline]) = Some (''A= 1'' @ [newline])"
    "splitlines (''A= 1'' @ [newline]) = [''A= 1'']" "classify ''A= 1'' = Key_Line ''A''"
    "strip (snd (snd (partition_at CHR ''='' ''A= 1''))) = ''1''" by code_simp+
  then show ?thesis by (simp add: load_env_file_def load_lines_assign assign_def)
qed

lemma clean_two: "clean ''2''"
  by (rule clean_spaceless) (simp add: is_space_def code_point_def)

theorem env_file_round_trip_witness:
  "load_env_file ''.env'' (Some (rewrite_env_file [Key_Line ''A''] [''A'' \<mapsto> ''2'', ''B'' \<mapsto> ''2''])) =
     Inr ([Key_Line ''A''], [''A'' \<mapsto> ''2'', ''B'' \<mapsto> ''2''] |` dom [''A'' \<mapsto> ''1'']) \<and> clean_map [''A'' \<mapsto> ''1'']"
  by (rule env_file_round_trip[OF sample_lines]) (auto simp: clean_map_def clean_two split: if_splits)

end
