(* ===== verification/Lines.thy ===== *)
theory Lines
  imports Py_Input
begin

text \<open>
  How \<open>str.replace\<close> and \<open>str.splitlines\<close> fit together: replacing a text without line ends by
  another one works line by line, and replacing the end of one line leaves the other lines alone.
\<close>

section \<open>Replacing inside lines\<close>

lemma startswith_cut: "b \<notin> set old \<Longrightarrow> startswith (l @ b # r) old \<longleftrightarrow> startswith l old"
proof (induction old arbitrary: l)
  case (Cons c old)
  then show ?case by (cases l) (auto simp: startswith_def)
qed (simp add: startswith_def)

lemma startswith_length: "startswith s p \<Longrightarrow> length p \<le> length s"
  by (auto simp: startswith_iff)

lemma replace_all_cut:
  assumes "b \<notin> set old"
  shows "replace_all old new (l @ b # r) = replace_all old new l @ b # replace_all old new r"
proof (induction l rule: measure_induct_rule[where f = length])
  case (less l)
  show ?case
  proof (cases l)
    case Nil
    have "startswith (b # r) old \<Longrightarrow> old = []" using assms startswith_cut[of b old "[]" r]
      by (auto simp: startswith_def)
    with Nil show ?thesis by auto
  next
    case (Cons c cs)
    have cut: "startswith (c # cs @ b # r) old \<longleftrightarrow> startswith (c # cs) old"
      using startswith_cut[OF assms, of "c # cs" r] by simp
    show ?thesis
    proof (cases "old \<noteq> [] \<and> startswith (c # cs) old")
      case True
      then have "length old - 1 \<le> length cs" using startswith_length by fastforce
      then show ?thesis using True cut less[of "drop (length old - 1) cs"] by (simp add: Cons)
    next
      case False
      then show ?thesis using cut less[of cs] by (auto simp: Cons)
    qed
  qed
qed

lemma replace_all_absent: "c \<in> set old \<Longrightarrow> c \<notin> set s \<Longrightarrow> replace_all old new s = s"
proof (induction s)
  case (Cons d s)
  have "set old \<subseteq> set (d # s)" if "startswith (d # s) old" using that by (metis startswith_iff set_append Un_upper1)
  then have "\<not> startswith (d # s) old" using Cons.prems by auto
  with Cons show ?case by simp
qed simp

lemma replace_all_skip: "hd old \<notin> set u \<Longrightarrow> old \<noteq> [] \<Longrightarrow> replace_all old new (u @ r) = u @ replace_all old new r"
proof (induction u)
  case (Cons d u)
  then have "\<not> startswith (d # u @ r) old" by (cases old) (auto simp: startswith_def)
  with Cons show ?case by simp
qed simp

lemma replace_all_here: "old \<noteq> [] \<Longrightarrow> replace_all old new (old @ v) = new @ replace_all old new v"
proof -
  assume "old \<noteq> []"
  then obtain c cs where "old = c # cs" by (cases old) auto
  then show ?thesis using startswith_append[of old v] by simp
qed

lemma replace_all_no_break: "no_break new \<Longrightarrow> no_break s \<Longrightarrow> no_break (replace_all old new s)"
  by (induction old new s rule: replace_all.induct)
    (auto simp: no_break_def list_all_iff dest: in_set_dropD)

lemma replace_all_Nil_iff: "new \<noteq> [] \<Longrightarrow> replace_all old new s = [] \<longleftrightarrow> s = []"
  by (cases s) auto

lemma splitlines_one: "no_break l \<Longrightarrow> l \<noteq> [] \<Longrightarrow> splitlines l = [l]"
proof -
  assume a: "no_break l" "l \<noteq> []"
  then have l: "takeWhile (\<lambda>c. \<not> is_break c) l = l" "dropWhile (\<lambda>c. \<not> is_break c) l = []"
    by (auto simp: no_break_def list_all_iff takeWhile_eq_all_conv)
  show ?thesis by (subst splitlines.simps, unfold l) (simp add: after_break_def a(2))
qed

lemma splitlines_break:
  assumes "no_break l" and "is_break c"
  shows "splitlines (l @ c # r) = l # splitlines (after_break (c # r))"
proof -
  have "takeWhile (\<lambda>c. \<not> is_break c) (l @ c # r) = l" "dropWhile (\<lambda>c. \<not> is_break c) (l @ c # r) = c # r"
    using assms by (induction l) auto
  then show ?thesis by (subst splitlines.simps) simp
qed

lemma line_cases:
  obtains "s = []" | "no_break s" "s \<noteq> []" | l c r where "s = l @ c # r" "no_break l" "is_break c"
proof (cases "dropWhile (\<lambda>c. \<not> is_break c) s")
  case Nil
  then have "no_break s" by (auto simp: no_break_def list_all_iff)
  then show thesis using that by blast
next
  case (Cons c r)
  then have "s = takeWhile (\<lambda>c. \<not> is_break c) s @ c # r" by (metis takeWhile_dropWhile_id)
  moreover have "is_break c" using Cons by (metis dropWhile_eq_Cons_conv)
  ultimately show thesis using that(3) no_break_takeWhile by blast
qed

lemma after_break_replaced:
  assumes "no_break old" and "no_break new" and "new \<noteq> []"
  shows "after_break (c # replace_all old new r) = replace_all old new (after_break (c # r))"
proof (cases r)
  case (Cons d s)
  show ?thesis
  proof (cases "code_point d = 10")
    case True
    then have "d \<notin> set old" using assms(1) by (auto simp: no_break_def list_all_iff is_break_def)
    from replace_all_cut[OF this, of new "[]" s] True show ?thesis by (simp add: Cons after_break_def)
  next
    case False
    have "code_point (hd (replace_all old new (d # s))) \<noteq> 10"
      using False assms(2,3) by (cases new) (auto simp: is_break_def)
    then show ?thesis using False by (simp add: Cons after_break_def del: replace_all.simps)
  qed
qed (simp add: after_break_def)

lemma splitlines_replace:
  assumes "no_break old" and "no_break new" and "new \<noteq> []"
  shows "splitlines (replace_all old new s) = map (replace_all old new) (splitlines s)"
proof (induction s rule: measure_induct_rule[where f = length])
  case (less s)
  show ?case
  proof (rule line_cases[of s])
    assume s: "no_break s" "s \<noteq> []"
    then show ?thesis
      using splitlines_one[OF s] splitlines_one[of "replace_all old new s"] assms(2,3)
      by (simp add: replace_all_no_break replace_all_Nil_iff)
  next
    fix l c r
    assume s: "s = l @ c # r" "no_break l" "is_break c"
    then have "c \<notin> set old" using assms(1) by (auto simp: no_break_def list_all_iff)
    from replace_all_cut[OF this] have "replace_all old new s = replace_all old new l @ c # replace_all old new r"
      by (simp add: s)
    moreover have "splitlines (replace_all old new (after_break (c # r))) = map (replace_all old new) (splitlines (after_break (c # r)))"
      using after_break_length[of "c # r" "\<lambda>_. False"] by (intro less) (simp add: s)
    ultimately show ?thesis
      using splitlines_break[OF replace_all_no_break[OF assms(2) s(2)] s(3)] splitlines_break[OF s(2,3)]
      by (simp add: s after_break_replaced[OF assms])
  qed simp
qed

text \<open>A line feed ends a line whatever follows it, and what stands before the last line does not matter.\<close>

lemma splitlines_newline: "splitlines (x @ newline # b) = splitlines (x @ [newline]) @ splitlines b"
proof (induction x rule: measure_induct_rule[where f = length])
  case (less x)
  show ?case
  proof (rule line_cases[of x])
    assume "no_break x" "x \<noteq> []"
    then show ?thesis using splitlines_line[of x b] splitlines_line[of x "[]"] by simp
  next
    fix l c r
    assume x: "x = l @ c # r" "no_break l" "is_break c"
    have "after_break (c # r @ newline # b) = (case r of [] \<Rightarrow> if code_point c = 13 then b else newline # b
        | _ \<Rightarrow> after_break (c # r) @ newline # b)" for b
      by (auto simp: after_break_def split: list.splits)
    moreover have "splitlines (after_break (c # r) @ newline # b) = splitlines (after_break (c # r) @ [newline]) @ splitlines b"
      using after_break_length[of "c # r" "\<lambda>_. False"] by (intro less) (simp add: x)
    ultimately show ?thesis
      using splitlines_break[OF x(2,3), of "r @ newline # b"] splitlines_break[OF x(2,3), of "r @ [newline]"]
        splitlines_line[of "[]" b] splitlines_line[of "[]" "[]"]
      by (auto simp: x split: list.splits)
  qed (use splitlines_line[of "[]" b] splitlines_line[of "[]" "[]"] in simp)
qed

lemma splitlines_last_line:
  "\<exists>ls t. \<forall>p. no_break p \<and> p \<noteq> [] \<longrightarrow> splitlines (a @ p @ [newline]) = ls @ [t @ p]"
proof (induction a rule: measure_induct_rule[where f = length])
  case (less a)
  show ?case
  proof (rule line_cases[of a])
    assume "a = []"
    then show ?thesis using splitlines_line[of _ "[]"] by (intro exI[of _ "[]"]) simp
  next
    assume "no_break a" "a \<noteq> []"
    then show ?thesis using splitlines_line[of "a @ _" "[]"] by (intro exI[of _ "[]"] exI[of _ a]) simp
  next
    fix l c r
    assume a: "a = l @ c # r" "no_break l" "is_break c"
    have ab: "after_break (c # r @ p @ [newline]) = after_break (c # r) @ p @ [newline]" if "no_break p" "p \<noteq> []" for p
      using that by (cases r; cases p) (auto simp: after_break_def is_break_def)
    obtain ls t where "\<forall>p. no_break p \<and> p \<noteq> [] \<longrightarrow> splitlines (after_break (c # r) @ p @ [newline]) = ls @ [t @ p]"
      using less[of "after_break (c # r)"] after_break_length[of "c # r" "\<lambda>_. False"] by (auto simp: a)
    then have "\<forall>p. no_break p \<and> p \<noteq> [] \<longrightarrow> splitlines (a @ p @ [newline]) = (l # ls) @ [t @ p]"
      using splitlines_break[OF a(2,3)] ab by (simp add: a)
    then show ?thesis by blast
  qed
qed

lemma replace_first_cases: "replace_first old new s = s \<or> (\<exists>a b. s = a @ old @ b \<and> replace_first old new s = a @ new @ b)"
proof (induction s)
  case (Cons c s)
  show ?case
  proof (cases "old \<noteq> [] \<and> startswith (c # s) old")
    case True
    then obtain b where b: "c # s = old @ b" by (auto simp: startswith_iff)
    then have "drop (length old - 1) s = b" using True by (cases old) auto
    with True have "replace_first old new (c # s) = [] @ new @ b" by simp
    moreover have "c # s = [] @ old @ b" using b by simp
    ultimately show ?thesis by blast
  next
    case False
    from Cons show ?thesis
    proof (elim disjE exE conjE)
      fix a b
      assume "s = a @ old @ b" "replace_first old new s = a @ new @ b"
      with False show ?thesis by (intro disjI2 exI[of _ "c # a"] exI[of _ b]) auto
    qed (use False in auto)
  qed
qed simp

lemma replace_first_keeps_line:
  assumes "no_break p" "p \<noteq> []" "no_break q" "q \<noteq> []" and "l \<in> set (splitlines s)" and "\<And>x. l \<noteq> x @ p"
  shows "l \<in> set (splitlines (replace_first (p @ [newline]) (q @ [newline]) s))"
  using replace_first_cases[of "p @ [newline]" "q @ [newline]" s]
proof (elim disjE exE conjE)
  fix a b
  assume s: "s = a @ (p @ [newline]) @ b" "replace_first (p @ [newline]) (q @ [newline]) s = a @ (q @ [newline]) @ b"
  obtain ls t where "\<forall>p. no_break p \<and> p \<noteq> [] \<longrightarrow> splitlines (a @ p @ [newline]) = ls @ [t @ p]"
    using splitlines_last_line by blast
  then have "splitlines (a @ p @ [newline]) = ls @ [t @ p]" "splitlines (a @ q @ [newline]) = ls @ [t @ q]"
    using assms by auto
  then have "splitlines s = ls @ [t @ p] @ splitlines b"
    "splitlines (replace_first (p @ [newline]) (q @ [newline]) s) = ls @ [t @ q] @ splitlines b"
    using splitlines_newline[of "a @ p" b] splitlines_newline[of "a @ q" b] s by simp_all
  with assms(5,6) show ?thesis by auto
qed (use assms(5) in simp)

end
