(* ===== verification/Render_K8s.thy ===== *)
theory Render_K8s
  imports Prepared_File Lines "HOL-Library.AList" "HOL-Library.Char_ord" "HOL-Library.List_Lexorder"
begin

text \<open>
  \<open>scripts/deploy/render_k8s_manifests.py\<close>: the script that turns an env file into the manifests
  of a deployment. A Python dict is an association list (\<open>AList.update\<close> keeps the place of a key
  that is set again, as the dict does), the output directory is a map from file names to texts
  and the state of the script, and the directory of the static manifests is an argument. The
  text of a manifest is taken as it is decoded; the bytes of the env file are decoded as in theory
  Prepare\_Env.
\<close>

section \<open>Constants\<close>

definition SENSITIVE_KEYS :: "string list" where
  "SENSITIVE_KEYS =
     [''APPROVAL_TOKEN_SECRET'', ''APPROVAL_TOKEN_SECRET_FILE'', ''DATABASE_URL'', ''JWT_SECRET'',
      ''JWT_SECRET_FILE'', ''SMTP_PASSWORD'', ''SMTP_PASSWORD_FILE'', ''SMTP_USERNAME'', ''TESTMAIL_API_KEY'',
      ''CUSTOMER_JWT_SECRET'', ''CUSTOMER_JWT_SECRET_FILE'', ''DD_API_KEY'', ''MERCADO_PAGO_ACCESS_TOKEN'',
      ''MERCADO_PAGO_ACCESS_TOKEN_FILE'', ''RABBITMQ_URL'']"

definition REQUIRED_SECRET_KEYS :: "string list" where
  "REQUIRED_SECRET_KEYS = [''APPROVAL_TOKEN_SECRET'', ''DATABASE_URL'', ''JWT_SECRET'', ''CUSTOMER_JWT_SECRET'']"

definition STATIC_MANIFESTS :: "string list" where
  "STATIC_MANIFESTS =
     [''namespace.yaml'', ''job-migrate.yaml'', ''deployment.yaml'', ''deployment-worker.yaml'', ''service.yaml'',
      ''hpa.yaml'', ''ingress.yaml'']"

definition IMAGE_MANIFESTS :: "string list" where
  "IMAGE_MANIFESTS = [''job-migrate.yaml'', ''deployment.yaml'', ''deployment-worker.yaml'']"

definition IMAGE_PLACEHOLDER :: string where
  "IMAGE_PLACEHOLDER = ''__API_IMAGE__''"

definition LEGACY_IMAGE_PLACEHOLDER :: string where
  "LEGACY_IMAGE_PLACEHOLDER = ''${API_IMAGE}''"

section \<open>The env file\<close>

type_synonym env_dict = "(string \<times> string) list"

definition parse_line :: "env_dict \<Rightarrow> string \<Rightarrow> env_dict" where
  "parse_line values raw_line =
     (let stripped = strip raw_line in
      if stripped = [] \<or> startswith stripped ''#'' \<or> CHR ''='' \<notin> set raw_line then values
      else case partition_at CHR ''='' raw_line of
        (key, _, value) \<Rightarrow> AList.update (strip key) (strip value) values)"

definition parse_env_file :: "string \<Rightarrow> string option \<Rightarrow> py_error + env_dict" where
  "parse_env_file env_path file =
     (case file of
        None \<Rightarrow> Inl (OSError (''No such file: '' @ env_path))
      | Some bytes \<Rightarrow>
          (case utf8_decode bytes of
             None \<Rightarrow> Inl (ValueError ''invalid utf-8'')
           | Some content \<Rightarrow> Inr (foldl parse_line [] (splitlines content))))"

section \<open>Images\<close>

text \<open>The three patterns of \<open>IMAGE_PLACEHOLDER_PATTERNS\<close>, matched against the whole value.\<close>

definition braced_token :: "string \<Rightarrow> bool" where
  "braced_token v \<longleftrightarrow> startswith v ''${'' \<and> 4 \<le> length v \<and> last v = CHR ''}'' \<and> CHR ''}'' \<notin> set (butlast (drop 2 v))"

definition underscored_token :: "string \<Rightarrow> bool" where
  "underscored_token v \<longleftrightarrow> startswith v ''__'' \<and> 5 \<le> length v \<and> drop (length v - 2) v = ''__'' \<and>
     newline \<notin> set (take (length v - 4) (drop 2 v))"

definition angled_token :: "string \<Rightarrow> bool" where
  "angled_token v \<longleftrightarrow> startswith v ''<'' \<and> 3 \<le> length v \<and> last v = CHR ''>'' \<and> CHR ''>'' \<notin> set (butlast (drop 1 v))"

definition is_placeholder_like_image :: "string \<Rightarrow> bool" where
  "is_placeholder_like_image v \<longleftrightarrow>
     contains (upper v) ''PLACEHOLDER'' \<or> braced_token v \<or> underscored_token v \<or> angled_token v"

definition normalize_image_ref :: "string \<Rightarrow> py_error + string" where
  "normalize_image_ref raw =
     (let normalized = strip raw in
      if normalized = [] then
        Inl (SystemExit ''The --image value must be a non-empty container image reference.'')
      else if list_ex is_space normalized then
        Inl (SystemExit ''The --image value must not contain whitespace.'')
      else if is_placeholder_like_image normalized then
        Inl (SystemExit ''The --image value must be a rendered container image reference, not a placeholder.'')
      else Inr normalized)"

definition extract_image_values :: "string \<Rightarrow> string list" where
  "extract_image_values content =
     map (\<lambda>line. strip (snd (snd (partition_at CHR '':'' (strip line)))))
       (filter (\<lambda>line. startswith (strip line) ''image:'') (splitlines content))"

section \<open>Files\<close>

text \<open>
  \<open>Path.read_text\<close> turns every line end into a line feed; \<open>Path.write_text\<close> writes the text as
  it is (on the systems the script runs on).
\<close>

type_synonym text_dir = "string \<rightharpoonup> string"

function universal_newlines :: "string \<Rightarrow> string" where
  "universal_newlines [] = []"
| "universal_newlines (c # s) =
     (if code_point c = 13 then newline # universal_newlines (drop (if startswith s [newline] then 1 else 0) s)
      else c # universal_newlines s)"
  by pat_completeness auto

termination
  by (relation "measure length") auto

definition read_text :: "text_dir \<Rightarrow> string \<Rightarrow> py_error + string" where
  "read_text dir name =
     (case dir name of None \<Rightarrow> Inl (OSError (''No such file: '' @ name)) | Some t \<Rightarrow> Inr (universal_newlines t))"

definition write_text :: "string \<Rightarrow> string \<Rightarrow> (text_dir, unit) exec" where
  "write_text name content = writes (\<lambda>dir. dir(name \<mapsto> content))"

definition validate_rendered_manifest_images :: "string \<Rightarrow> (text_dir, unit) exec" where
  "validate_rendered_manifest_images name =
     andthen (\<lambda>dir. (read_text dir name, dir)) (\<lambda>content.
       if contains content IMAGE_PLACEHOLDER \<or> contains content LEGACY_IMAGE_PLACEHOLDER then
         raise (SystemExit (''Rendered manifest '' @ name @ '' still contains an unresolved image placeholder.''))
       else if extract_image_values content = [] then
         raise (SystemExit (''Rendered manifest '' @ name @ '' does not contain an image field.''))
       else for_each (\<lambda>image_value.
         if image_value = [] then
           raise (SystemExit (''Rendered manifest '' @ name @ '' contains an empty image field.''))
         else if is_placeholder_like_image image_value then
           raise (SystemExit (''Rendered manifest '' @ name @ '' still contains an unresolved image value: '' @ image_value))
         else ret ()) (extract_image_values content))"

definition yaml_quote :: "string \<Rightarrow> string" where
  "yaml_quote value = dumps_str value"

definition value_at :: "env_dict \<Rightarrow> string \<Rightarrow> string" where
  "value_at values key = (case map_of values key of None \<Rightarrow> [] | Some v \<Rightarrow> v)"

definition manifest_lines :: "string \<Rightarrow> string \<Rightarrow> string \<Rightarrow> string \<Rightarrow> env_dict \<Rightarrow> string list" where
  "manifest_lines kind name namespace section_name values =
     [''apiVersion: v1'', ''kind: '' @ kind, ''metadata:'', ''  name: '' @ name, ''  namespace: '' @ namespace] @
     (if kind = ''Secret'' then [''type: Opaque''] else []) @ [section_name @ '':''] @
     map (\<lambda>key. ''  '' @ key @ '': '' @ yaml_quote (value_at values key)) (sort (map fst values))"

definition write_manifest ::
    "string \<Rightarrow> string \<Rightarrow> string \<Rightarrow> string \<Rightarrow> string \<Rightarrow> env_dict \<Rightarrow> (text_dir, unit) exec" where
  "write_manifest path kind name namespace section_name values =
     write_text path (write_lines (manifest_lines kind name namespace section_name values))"

definition rendered_text :: "string \<Rightarrow> string \<Rightarrow> string \<Rightarrow> string" where
  "rendered_text namespace img content =
     replace_all LEGACY_IMAGE_PLACEHOLDER img
       (replace_all IMAGE_PLACEHOLDER img
         (replace_first (''name: service-order'' @ [newline]) (''name: '' @ namespace @ [newline])
           (replace_all ''namespace: service-order'' (''namespace: '' @ namespace) content)))"

definition render_static_manifest :: "text_dir \<Rightarrow> string \<Rightarrow> string \<Rightarrow> string \<Rightarrow> (text_dir, unit) exec" where
  "render_static_manifest source_dir namespace img manifest_name =
     andthen (from_result (read_text source_dir manifest_name)) (\<lambda>content.
     andthen (write_text manifest_name (rendered_text namespace img content)) (\<lambda>_.
       if manifest_name \<in> set IMAGE_MANIFESTS then validate_rendered_manifest_images manifest_name
       else ret ()))"

definition render_static_manifests :: "text_dir \<Rightarrow> string \<Rightarrow> string \<Rightarrow> (text_dir, unit) exec" where
  "render_static_manifests source_dir namespace img =
     for_each (render_static_manifest source_dir namespace img) STATIC_MANIFESTS"

section \<open>The script\<close>

record render_args =
  arg_env_file :: string
  arg_output_dir :: string
  arg_image :: string
  arg_namespace :: string

definition with_defaults :: "env_dict \<Rightarrow> env_dict" where
  "with_defaults values =
     AList.update ''MIGRATE_ON_STARTUP'' ''false''
       (case map_of values ''EMAIL_PROVIDER'' of
          None \<Rightarrow> AList.update ''EMAIL_PROVIDER'' ''NOOP'' values | Some _ \<Rightarrow> values)"

definition secret_values :: "env_dict \<Rightarrow> env_dict" where
  "secret_values values = filter (\<lambda>(key, value). key \<in> set SENSITIVE_KEYS \<and> strip value \<noteq> []) values"

definition config_values :: "env_dict \<Rightarrow> env_dict" where
  "config_values values = filter (\<lambda>(key, value). key \<notin> set SENSITIVE_KEYS \<and> strip value \<noteq> []) values"

definition missing_secret_keys :: "env_dict \<Rightarrow> string list" where
  "missing_secret_keys values =
     sort (filter (\<lambda>key. key \<notin> fst ` set (secret_values values)) REQUIRED_SECRET_KEYS)"

definition render_main :: "render_args \<Rightarrow> text_dir \<Rightarrow> string option \<Rightarrow> (text_dir, int \<times> string) exec" where
  "render_main args source_dir env_file =
     andthen (from_result (normalize_image_ref (arg_image args))) (\<lambda>img.
     andthen (from_result (parse_env_file (arg_env_file args) env_file)) (\<lambda>parsed.
       let values = with_defaults parsed in
       if missing_secret_keys values \<noteq> [] then
         raise (SystemExit (''Missing required secret keys in env file: '' @ join '', '' (missing_secret_keys values)))
       else
         andthen (render_static_manifests source_dir (arg_namespace args) img) (\<lambda>_.
         andthen (write_manifest ''configmap.rendered.yaml'' ''ConfigMap'' ''service-order-billing-service-config''
           (arg_namespace args) ''data'' (config_values values)) (\<lambda>_.
         andthen (write_manifest ''secret.rendered.yaml'' ''Secret'' ''service-order-billing-service-secret''
           (arg_namespace args) ''stringData'' (secret_values values)) (\<lambda>_.
           ret (0, ''Rendered manifests into '' @ arg_output_dir args))))))"

section \<open>Association lists that stand for dicts\<close>

lemma map_of_filter_entry:
  assumes "distinct (map fst al)"
  shows "map_of (filter (\<lambda>(k, v). P k v) al) k =
    (case map_of al k of None \<Rightarrow> None | Some v \<Rightarrow> if P k v then Some v else None)"
  using assms by (induction al) (auto simp: map_of_eq_None_iff split: option.splits)

lemma distinct_filter_keys: "distinct (map fst al) \<Longrightarrow> distinct (map fst (filter P al))"
  by (simp add: distinct_map_filter)

lemma same_map_same_keys:
  assumes "distinct (map fst al)" and "distinct (map fst bl)" and "map_of al = map_of bl"
  shows "sort (map fst al) = sort (map fst bl)"
proof (rule sorted_distinct_set_unique)
  have "fst ` set al = fst ` set bl" using assms(3) dom_map_of_conv_image_fst by metis
  then show "set (sort (map fst al)) = set (sort (map fst bl))" by simp
qed (simp_all add: assms)

lemma manifest_lines_of_map:
  assumes "distinct (map fst al)" and "distinct (map fst bl)" and "map_of al = map_of bl"
  shows "manifest_lines kind name ns sec al = manifest_lines kind name ns sec bl"
  using same_map_same_keys[OF assms] by (simp add: manifest_lines_def value_at_def assms(3))

definition env_dict_ok :: "env_dict \<Rightarrow> bool" where
  "env_dict_ok vs \<longleftrightarrow> distinct (map fst vs) \<and> (\<forall>(k, v) \<in> set vs. no_break k \<and> strip v = v)"

lemma env_dict_ok_update:
  assumes "env_dict_ok vs" and "no_break k" and "strip v = v"
  shows "env_dict_ok (AList.update k v vs)"
proof -
  have "set (AList.update k v vs) \<subseteq> insert (k, v) (set vs)"
    by (induction vs) auto
  then show ?thesis using assms by (fastforce simp: env_dict_ok_def distinct_update)
qed

lemma parse_lines_ok:
  assumes "env_dict_ok vs" and "list_all no_break ls"
  shows "env_dict_ok (foldl parse_line vs ls)"
  using assms
proof (induction ls arbitrary: vs)
  case (Cons l ls)
  have "set (takeWhile (\<lambda>x. x \<noteq> CHR ''='') l) \<subseteq> set l" by (blast dest: set_takeWhileD)
  then have "no_break (strip (takeWhile (\<lambda>x. x \<noteq> CHR ''='') l))"
    using Cons.prems(2) subset_trans[OF set_strip] by (simp add: no_break_subset[of l])
  then have "env_dict_ok (parse_line vs l)"
    using Cons.prems by (simp add: parse_line_def partition_at_def Let_def env_dict_ok_update)
  with Cons show ?case by simp
qed simp

lemma parse_env_file_ok: "parse_env_file path file = Inr vs \<Longrightarrow> env_dict_ok vs"
  by (auto simp: parse_env_file_def env_dict_ok_def[of "[]"] splitlines_no_break intro!: parse_lines_ok
      split: option.splits)

lemma with_defaults_ok: "env_dict_ok vs \<Longrightarrow> env_dict_ok (with_defaults vs)"
  by (auto simp: with_defaults_def intro!: env_dict_ok_update split: option.splits) code_simp+

lemma map_of_with_defaults:
  "map_of (with_defaults vs) k =
    (if k = ''MIGRATE_ON_STARTUP'' then Some ''false''
     else if k = ''EMAIL_PROVIDER'' \<and> map_of vs k = None then Some ''NOOP'' else map_of vs k)"
  by (auto simp: with_defaults_def update_conv' split: option.splits)

section \<open>What a run that succeeds has written\<close>

lemma for_each_Cons_Inr:
  "for_each f (x # xs) s = (Inr u, s'') \<longleftrightarrow> (\<exists>a s'. f x s = (Inr a, s') \<and> for_each f xs s' = (Inr u, s''))"
  by (auto simp: andthen_def split: prod.splits sum.splits)

definition concrete_images :: "string \<Rightarrow> bool" where
  "concrete_images content \<longleftrightarrow>
     \<not> contains content IMAGE_PLACEHOLDER \<and> \<not> contains content LEGACY_IMAGE_PLACEHOLDER \<and>
     extract_image_values content \<noteq> [] \<and>
     (\<forall>v \<in> set (extract_image_values content). v \<noteq> [] \<and> \<not> is_placeholder_like_image v)"

lemma for_each_check:
  assumes "\<And>x s. f x s = (if P x then (Inr (), s) else (Inl (e x), s))"
  shows "for_each f xs s = (Inr u, s') \<longleftrightarrow> list_all P xs \<and> s' = s"
  using assms by (induction xs) (auto simp: andthen_def)

lemma validate_run:
  "validate_rendered_manifest_images name dir = (Inr u, dir') \<longleftrightarrow>
     dir' = dir \<and> (\<exists>t. dir name = Some t \<and> concrete_images (universal_newlines t))"
proof -
  note checks = for_each_check[where P = "\<lambda>v. v \<noteq> [] \<and> \<not> is_placeholder_like_image v"
      and e = "\<lambda>v. if v = [] then SystemExit (''Rendered manifest '' @ name @ '' contains an empty image field.'')
        else SystemExit (''Rendered manifest '' @ name @ '' still contains an unresolved image value: '' @ v)"]
  show ?thesis
    by (cases "dir name")
      (auto simp: validate_rendered_manifest_images_def read_text_def andthen_def concrete_images_def checks list_all_iff)
qed

definition static_manifest :: "text_dir \<Rightarrow> string \<Rightarrow> string \<Rightarrow> string \<Rightarrow> string option" where
  "static_manifest source_dir ns img name =
     map_option (\<lambda>t. rendered_text ns img (universal_newlines t)) (source_dir name)"

lemma static_step: "render_static_manifest src ns img n dir = (Inr u, dir') \<longleftrightarrow>
    dir' = dir(n := static_manifest src ns img n) \<and> src n \<noteq> None \<and>
    (n \<in> set IMAGE_MANIFESTS \<longrightarrow> (\<exists>t. static_manifest src ns img n = Some t \<and> concrete_images (universal_newlines t)))"
  by (cases "src n") (auto simp: render_static_manifest_def read_text_def write_text_def andthen_def static_manifest_def
      validate_run)

lemma static_steps: "distinct names \<Longrightarrow> for_each (render_static_manifest src ns img) names dir = (Inr u, dir') \<longleftrightarrow>
    dir' = (\<lambda>n. if n \<in> set names then static_manifest src ns img n else dir n) \<and> (\<forall>n \<in> set names. src n \<noteq> None \<and>
    (n \<in> set IMAGE_MANIFESTS \<longrightarrow> (\<exists>t. static_manifest src ns img n = Some t \<and> concrete_images (universal_newlines t))))"
proof (induction names arbitrary: dir)
  case (Cons n names)
  let ?f = "static_manifest src ns img"
  have merged: "(\<lambda>m. if m \<in> set names then ?f m else (dir(n := ?f n)) m) = (\<lambda>m. if m \<in> set (n # names) then ?f m else dir m)"
    by auto
  have "distinct names" using Cons.prems by simp
  from Cons.IH[OF this, of "dir(n := ?f n)", unfolded merged] show ?case
    unfolding for_each_Cons_Inr static_step by (simp only: list.set ball_simps) blast
qed auto

lemma statics_run: "render_static_manifests src ns img dir = (Inr u, dir') \<longleftrightarrow>
    dir' = (\<lambda>n. if n \<in> set STATIC_MANIFESTS then static_manifest src ns img n else dir n) \<and>
    (\<forall>n \<in> set STATIC_MANIFESTS. src n \<noteq> None) \<and>
    (\<forall>n \<in> set IMAGE_MANIFESTS. \<exists>t. static_manifest src ns img n = Some t \<and> concrete_images (universal_newlines t))"
proof -
  have "distinct STATIC_MANIFESTS" "set STATIC_MANIFESTS \<inter> set IMAGE_MANIFESTS = set IMAGE_MANIFESTS"
    by (auto simp: STATIC_MANIFESTS_def IMAGE_MANIFESTS_def)
  then show ?thesis unfolding render_static_manifests_def by (simp only: static_steps) blast
qed

definition config_text :: "string \<Rightarrow> env_dict \<Rightarrow> string" where
  "config_text ns vs = write_lines (manifest_lines ''ConfigMap'' ''service-order-billing-service-config'' ns ''data''
     (config_values vs))"

definition secret_text :: "string \<Rightarrow> env_dict \<Rightarrow> string" where
  "secret_text ns vs = write_lines (manifest_lines ''Secret'' ''service-order-billing-service-secret'' ns ''stringData''
     (secret_values vs))"

lemma render_main_success:
  assumes "render_main args src file dir = (Inr res, dir')"
  obtains img vs where "normalize_image_ref (arg_image args) = Inr img"
    and "parse_env_file (arg_env_file args) file = Inr vs" and "missing_secret_keys (with_defaults vs) = []"
    and "\<And>n. dir' n =
      (if n = ''secret.rendered.yaml'' then Some (secret_text (arg_namespace args) (with_defaults vs))
       else if n = ''configmap.rendered.yaml'' then Some (config_text (arg_namespace args) (with_defaults vs))
       else if n \<in> set STATIC_MANIFESTS then static_manifest src (arg_namespace args) img n else dir n)"
    and "\<And>n. n \<in> set IMAGE_MANIFESTS \<Longrightarrow>
      \<exists>t. static_manifest src (arg_namespace args) img n = Some t \<and> concrete_images (universal_newlines t)"
proof -
  obtain img vs where i: "normalize_image_ref (arg_image args) = Inr img"
    and v: "parse_env_file (arg_env_file args) file = Inr vs"
    using assms by (auto simp: render_main_def andthen_def split: prod.splits sum.splits)
  then have m: "missing_secret_keys (with_defaults vs) = []"
    using assms by (auto simp: render_main_def andthen_def Let_def split: if_splits)
  with i v obtain u dir1 where s: "render_static_manifests src (arg_namespace args) img dir = (Inr u, dir1)"
    and d: "dir' = dir1(''configmap.rendered.yaml'' \<mapsto> config_text (arg_namespace args) (with_defaults vs),
      ''secret.rendered.yaml'' \<mapsto> secret_text (arg_namespace args) (with_defaults vs))"
    using assms by (auto simp: render_main_def andthen_def Let_def write_manifest_def write_text_def config_text_def
        secret_text_def split: prod.splits sum.splits)
  from s d show thesis by (intro that[OF i v m]) (auto simp: statics_run)
qed

lemma render_main_succeeds:
  assumes "normalize_image_ref (arg_image args) = Inr img" and "parse_env_file (arg_env_file args) file = Inr vs"
    and "missing_secret_keys (with_defaults vs) = []" and "\<forall>n \<in> set STATIC_MANIFESTS. src n \<noteq> None"
    and "\<forall>n \<in> set IMAGE_MANIFESTS. \<exists>t. static_manifest src (arg_namespace args) img n = Some t \<and>
      concrete_images (universal_newlines t)"
  shows "\<exists>dir'. render_main args src file dir = (Inr (0, ''Rendered manifests into '' @ arg_output_dir args), dir')"
proof -
  have "\<exists>dir1. render_static_manifests src (arg_namespace args) img dir = (Inr (), dir1)"
    using assms(4,5) by (simp add: statics_run)
  then show ?thesis
    using assms(1-3) by (auto simp: render_main_def write_manifest_def write_text_def Let_def andthen_def)
qed

lemma parsed_distinct: "parse_env_file path file = Inr vs \<Longrightarrow> distinct (map fst (with_defaults vs))"
  using with_defaults_ok[OF parse_env_file_ok] by (simp add: env_dict_ok_def)

lemma map_of_config:
  assumes "distinct (map fst vs)"
  shows "map_of (config_values vs) k =
    (case map_of vs k of None \<Rightarrow> None | Some v \<Rightarrow> if k \<notin> set SENSITIVE_KEYS \<and> strip v \<noteq> [] then Some v else None)"
  unfolding config_values_def by (rule map_of_filter_entry[OF assms])

lemma map_of_secret:
  assumes "distinct (map fst vs)"
  shows "map_of (secret_values vs) k =
    (case map_of vs k of None \<Rightarrow> None | Some v \<Rightarrow> if k \<in> set SENSITIVE_KEYS \<and> strip v \<noteq> [] then Some v else None)"
  unfolding secret_values_def by (rule map_of_filter_entry[OF assms])

section \<open>Secrets stay in the Secret\<close>

text \<open>
  Property C33. Secrets stay in the Secret. Two runs of the script with the same arguments and
  static manifests, on env files that agree on every key outside \<open>SENSITIVE_KEYS\<close>, write the same
  files but for \<open>secret.rendered.yaml\<close>: neither the ConfigMap nor any other manifest depends on a
  secret, in value or in presence.
\<close>

theorem secrets_stay_in_the_secret:
  assumes "parse_env_file (arg_env_file args) file1 = Inr vs1" and "parse_env_file (arg_env_file args) file2 = Inr vs2"
    and "\<forall>k. k \<notin> set SENSITIVE_KEYS \<longrightarrow> map_of vs1 k = map_of vs2 k"
    and "render_main args src file1 dir = (Inr res1, dir1)" and "render_main args src file2 dir = (Inr res2, dir2)"
    and "n \<noteq> ''secret.rendered.yaml''"
  shows "dir1 n = dir2 n"
proof -
  note ok = parsed_distinct[OF assms(1)] parsed_distinct[OF assms(2)]
  have "map_of (config_values (with_defaults vs1)) = map_of (config_values (with_defaults vs2))"
    using assms(3) by (auto simp: map_of_config ok map_of_with_defaults fun_eq_iff split: option.splits)
  then have "config_text ns (with_defaults vs1) = config_text ns (with_defaults vs2)" for ns
    unfolding config_text_def by (subst manifest_lines_of_map) (auto simp: config_values_def ok distinct_filter_keys)
  with assms(6) show ?thesis
    by (rule_tac render_main_success[OF assms(4)], rule_tac render_main_success[OF assms(5)])
      (simp add: assms(1,2))
qed

section \<open>Missing secrets\<close>

definition required_secret_present :: "env_dict \<Rightarrow> string \<Rightarrow> bool" where
  "required_secret_present vs k \<longleftrightarrow> (\<exists>v. map_of vs k = Some v \<and> v \<noteq> [])"

lemma not_defaulted: "k \<in> set SENSITIVE_KEYS \<Longrightarrow> map_of (with_defaults vs) k = map_of vs k"
  by (auto simp: map_of_with_defaults SENSITIVE_KEYS_def)

lemma required_are_sensitive: "k \<in> set REQUIRED_SECRET_KEYS \<Longrightarrow> k \<in> set SENSITIVE_KEYS"
  by (auto simp: REQUIRED_SECRET_KEYS_def SENSITIVE_KEYS_def)

lemma env_dict_ok_strip: "env_dict_ok vs \<Longrightarrow> map_of vs k = Some v \<Longrightarrow> strip v = v"
  by (auto simp: env_dict_ok_def dest!: map_of_SomeD)

lemma missing_keys:
  assumes "parse_env_file path file = Inr vs"
  shows "missing_secret_keys (with_defaults vs) =
    sort (filter (\<lambda>k. \<not> required_secret_present vs k) REQUIRED_SECRET_KEYS)"
proof -
  note ok = parse_env_file_ok[OF assms]
  note d = parsed_distinct[OF assms]
  have "k \<in> fst ` set (secret_values (with_defaults vs)) \<longleftrightarrow> required_secret_present vs k"
    if "k \<in> set REQUIRED_SECRET_KEYS" for k
  proof -
    have "k \<in> fst ` set (secret_values (with_defaults vs)) \<longleftrightarrow> map_of (secret_values (with_defaults vs)) k \<noteq> None"
      by (simp add: map_of_eq_None_iff)
    also have "\<dots> \<longleftrightarrow> required_secret_present vs k"
      using required_are_sensitive[OF that] env_dict_ok_strip[OF ok, of k]
      by (auto simp: map_of_secret d not_defaulted required_secret_present_def split: option.splits
          simp del: strip_Nil_iff)
    finally show ?thesis .
  qed
  then show ?thesis unfolding missing_secret_keys_def by (intro arg_cong[where f = sort] filter_cong) simp_all
qed

text \<open>
  Property C36. Nothing is rendered without the required secrets. When one of the four required
  secrets is absent or blank in the env file, the script stops with a message that names exactly
  the missing ones, sorted, and has written no file.
\<close>

theorem missing_secrets_stop_the_rendering:
  assumes "normalize_image_ref (arg_image args) = Inr img" and "parse_env_file (arg_env_file args) file = Inr vs"
    and "k \<in> set REQUIRED_SECRET_KEYS" and "\<not> required_secret_present vs k"
  shows "\<exists>ks. render_main args src file dir =
      (Inl (SystemExit (''Missing required secret keys in env file: '' @ join '', '' ks)), dir) \<and>
    set ks = {k \<in> set REQUIRED_SECRET_KEYS. \<not> required_secret_present vs k} \<and> sorted ks \<and> distinct ks"
proof (intro exI conjI)
  let ?ks = "sort (filter (\<lambda>k. \<not> required_secret_present vs k) REQUIRED_SECRET_KEYS)"
  show "set ?ks = {k \<in> set REQUIRED_SECRET_KEYS. \<not> required_secret_present vs k}" by simp
  have "?ks \<noteq> []" using assms(3,4) by (auto simp: filter_empty_conv simp flip: set_empty)
  then show "render_main args src file dir =
      (Inl (SystemExit (''Missing required secret keys in env file: '' @ join '', '' ?ks)), dir)"
    using assms(1,2) by (simp add: render_main_def missing_keys)
  show "distinct ?ks" by (simp add: REQUIRED_SECRET_KEYS_def)
qed simp

section \<open>The rendered values are read back\<close>

text \<open>
  A reader of the two manifests the script writes itself: after the line of the section, every line
  holds a key and a value in JSON, which is the form of YAML the script uses.
\<close>

definition read_entry :: "(string \<Rightarrow> string) \<Rightarrow> string \<Rightarrow> string \<times> (py_error + json)" where
  "read_entry flt line = (case partition_at CHR '':'' (drop 2 line) of (key, _, value) \<Rightarrow> (key, loads flt (drop 1 value)))"

definition section_entries :: "(string \<Rightarrow> string) \<Rightarrow> string \<Rightarrow> string \<Rightarrow> (string \<times> (py_error + json)) list" where
  "section_entries flt section_name content =
     map (read_entry flt) (tl (dropWhile (\<lambda>line. line \<noteq> section_name @ '':'') (splitlines content)))"

lemma read_entry_line:
  assumes "CHR '':'' \<notin> set k"
  shows "read_entry flt (''  '' @ k @ '': '' @ yaml_quote v) = (k, Inr (JStr v))"
proof -
  have "loads flt (dumps_str v) = Inr (JStr v)" using loads_dumps[of flt "JStr v"] by simp
  then show ?thesis
    using partition_at_found[OF assms, of "CHR '' '' # yaml_quote v"] by (simp add: read_entry_def yaml_quote_def)
qed

lemma literals_no_break:
  "no_break ''ConfigMap''" "no_break ''service-order-billing-service-config''"
  "no_break ''Secret''" "no_break ''service-order-billing-service-secret''"
  by code_simp+

lemma section_of_manifest:
  assumes "no_break kind" "no_break name" "no_break ns" "sec = ''data'' \<or> sec = ''stringData''"
    and "\<forall>k \<in> set (map fst vs). no_break k \<and> CHR '':'' \<notin> set k"
  shows "section_entries flt sec (write_lines (manifest_lines kind name ns sec vs)) =
    map (\<lambda>k. (k, Inr (JStr (value_at vs k)))) (sort (map fst vs))"
proof -
  have "no_break (yaml_quote v)" for v unfolding yaml_quote_def by (rule printable_no_break[OF dumps_str_printable])
  moreover have "no_break sec" using assms(4) by (auto simp: is_break_def code_point_def)
  ultimately have lines: "list_all no_break (manifest_lines kind name ns sec vs)"
    using assms by (auto simp: manifest_lines_def list_all_iff is_break_def code_point_def)
  have "splitlines (write_lines (manifest_lines kind name ns sec vs)) = manifest_lines kind name ns sec vs"
    by (rule splitlines_write_lines[OF _ lines]) (simp add: manifest_lines_def)
  moreover have "tl (dropWhile (\<lambda>line. line \<noteq> sec @ '':'') (manifest_lines kind name ns sec vs)) =
      map (\<lambda>key. ''  '' @ key @ '': '' @ yaml_quote (value_at vs key)) (sort (map fst vs))"
    using assms(4) by (auto simp: manifest_lines_def)
  ultimately show ?thesis using assms(5) read_entry_line[of _ flt] by (simp add: section_entries_def)
qed

lemma map_of_tabulate: "map_of (map (\<lambda>k. (k, f k)) ks) k = (if k \<in> set ks then Some (f k) else None)"
  by (induction ks) auto

lemma map_of_section:
  assumes "no_break kind" "no_break name" "no_break ns" "sec = ''data'' \<or> sec = ''stringData''"
    and "\<forall>k \<in> set (map fst vs). no_break k \<and> CHR '':'' \<notin> set k"
  shows "map_of (section_entries flt sec (write_lines (manifest_lines kind name ns sec vs))) k =
    map_option (Inr \<circ> JStr) (map_of vs k)"
proof -
  have "k \<in> set (map fst vs) \<longleftrightarrow> map_of vs k \<noteq> None" by (simp add: map_of_eq_None_iff)
  then show ?thesis
    by (auto simp: section_of_manifest[OF assms] map_of_tabulate value_at_def split: option.splits)
qed

text \<open>What the script gives the service: the values of the env file, with the two defaults, but not the blank ones.\<close>

definition configured :: "env_dict \<Rightarrow> string \<Rightarrow> string option" where
  "configured vs k =
     (if k = ''MIGRATE_ON_STARTUP'' then Some ''false''
      else if k = ''EMAIL_PROVIDER'' \<and> map_of vs k = None then Some ''NOOP''
      else if map_of vs k = Some [] then None else map_of vs k)"

lemma configured_nonblank:
  assumes "parse_env_file path file = Inr vs"
  shows "(case map_of (with_defaults vs) k of None \<Rightarrow> None | Some v \<Rightarrow> if P \<and> strip v \<noteq> [] then Some v else None) =
    (if P then configured vs k else None)"
  using env_dict_ok_strip[OF with_defaults_ok[OF parse_env_file_ok[OF assms]], of k]
  by (auto simp: configured_def map_of_with_defaults split: option.splits simp del: strip_Nil_iff)

text \<open>
  Property C34. The configuration reaches the service complete and split correctly. After a
  successful run on an env file whose keys hold no colon, reading the ConfigMap back gives exactly
  the configured values of the keys outside \<open>SENSITIVE_KEYS\<close> and reading the Secret back exactly
  those of the keys in it; no value is lost, altered by quoting, or in both.
\<close>

theorem rendered_values_are_read_back:
  assumes "render_main args src file dir = (Inr res, dir')" and "parse_env_file (arg_env_file args) file = Inr vs"
    and "no_break (arg_namespace args)" and "\<forall>k \<in> fst ` set vs. CHR '':'' \<notin> set k"
  shows "\<exists>c s. dir' ''configmap.rendered.yaml'' = Some c \<and> dir' ''secret.rendered.yaml'' = Some s \<and>
    map_of (section_entries flt ''data'' c) =
      (\<lambda>k. if k \<in> set SENSITIVE_KEYS then None else map_option (Inr \<circ> JStr) (configured vs k)) \<and>
    map_of (section_entries flt ''stringData'' s) =
      (\<lambda>k. if k \<in> set SENSITIVE_KEYS then map_option (Inr \<circ> JStr) (configured vs k) else None)"
proof -
  let ?vs = "with_defaults vs"
  note d = parsed_distinct[OF assms(2)]
  have "fst ` set ?vs \<subseteq> {''MIGRATE_ON_STARTUP'', ''EMAIL_PROVIDER''} \<union> fst ` set vs"
    by (cases "map_of vs ''EMAIL_PROVIDER''") (simp_all add: with_defaults_def dom_update, blast+)
  then have "\<forall>k \<in> fst ` set ?vs. CHR '':'' \<notin> set k" using assms(4) by fastforce
  moreover have "\<forall>k \<in> fst ` set ?vs. no_break k"
    using with_defaults_ok[OF parse_env_file_ok[OF assms(2)]] by (auto simp: env_dict_ok_def)
  ultimately have keys: "\<forall>k \<in> set (map fst (config_values ?vs)). no_break k \<and> CHR '':'' \<notin> set k"
    "\<forall>k \<in> set (map fst (secret_values ?vs)). no_break k \<and> CHR '':'' \<notin> set k"
    by (auto simp: config_values_def secret_values_def)
  have read: "map_of (section_entries flt ''data'' (config_text (arg_namespace args) ?vs)) k =
      (if k \<in> set SENSITIVE_KEYS then None else map_option (Inr \<circ> JStr) (configured vs k))"
    "map_of (section_entries flt ''stringData'' (secret_text (arg_namespace args) ?vs)) k =
      (if k \<in> set SENSITIVE_KEYS then map_option (Inr \<circ> JStr) (configured vs k) else None)" for k
    unfolding config_text_def secret_text_def
    using map_of_section[OF literals_no_break(1,2) assms(3) disjI1[OF refl] keys(1), of flt k]
      map_of_section[OF literals_no_break(3,4) assms(3) disjI2[OF refl] keys(2), of flt k]
    by (simp_all add: map_of_config[OF d] map_of_secret[OF d] configured_nonblank[OF assms(2)])
  show ?thesis
    by (rule render_main_success[OF assms(1)]) (auto simp: assms(2) read fun_eq_iff)
qed

section \<open>The deployed images\<close>

lemma padded: "\<exists>u v. s = u @ strip s @ v \<and> (\<forall>c \<in> set u \<union> set v. is_space c)"
proof -
  have "s = takeWhile is_space s @ lstrip s" by (simp add: lstrip_def)
  moreover have "lstrip s = strip s @ rev (takeWhile is_space (rev (lstrip s)))"
    unfolding strip_def rstrip_def by (metis rev_append rev_rev_ident takeWhile_dropWhile_id)
  ultimately have "s = takeWhile is_space s @ strip s @ rev (takeWhile is_space (rev (lstrip s)))" by metis
  then show ?thesis by (metis (no_types, lifting) Un_iff set_rev set_takeWhileD)
qed

lemma strip_padded:
  assumes "\<forall>c \<in> set u \<union> set v. is_space c" and "s \<noteq> []" and "\<not> is_space (hd s)" and "\<not> is_space (last s)"
  shows "strip (u @ s @ v) = s"
proof -
  have "lstrip (u @ s @ v) = s @ v"
    using assms(1-3) by (cases s) (simp_all add: lstrip_def dropWhile_append)
  moreover have "rstrip (s @ v) = s"
    using assms(1,2,4) by (cases s rule: rev_cases) (simp_all add: rstrip_def dropWhile_append)
  ultimately show ?thesis by (simp add: strip_def)
qed

lemma image_marks: "\<not> is_space CHR ''_''" "\<not> is_space CHR ''$''" "\<not> is_space CHR ''s''" "\<not> is_space CHR ''i''"
  "\<not> is_space CHR '':''" "is_space CHR '' ''"
  by (simp_all add: is_space_def code_point_def)

definition image_line :: "string \<Rightarrow> bool" where
  "image_line l \<longleftrightarrow> strip l = ''image: '' @ IMAGE_PLACEHOLDER"

lemma image_line_replaced:
  assumes "image_line l" and "list_all (\<lambda>c. \<not> is_space c) img" and "img \<noteq> []" and "CHR ''$'' \<notin> set img"
  shows "let l' = replace_all LEGACY_IMAGE_PLACEHOLDER img (replace_all IMAGE_PLACEHOLDER img
      (replace_all ''namespace: service-order'' ns l)) in
    startswith (strip l') ''image:'' \<and> strip (snd (snd (partition_at CHR '':'' (strip l')))) = img"
proof -
  obtain u v where l: "l = u @ ''image: '' @ IMAGE_PLACEHOLDER @ v" and sp: "\<forall>c \<in> set u \<union> set v. is_space c"
    using padded[of l] assms(1) unfolding image_line_def by (metis append_assoc)
  have "CHR ''s'' \<notin> set l" using sp image_marks by (auto simp: l IMAGE_PLACEHOLDER_def)
  then have 1: "replace_all ''namespace: service-order'' ns l = l" by (intro replace_all_absent[of "CHR ''s''"]) simp
  have u: "hd IMAGE_PLACEHOLDER \<notin> set (u @ ''image: '')" "IMAGE_PLACEHOLDER \<noteq> []"
    using sp image_marks by (auto simp: IMAGE_PLACEHOLDER_def)
  have v: "replace_all IMAGE_PLACEHOLDER img v = v"
    using sp image_marks by (intro replace_all_absent[of "CHR ''_''"]) (auto simp: IMAGE_PLACEHOLDER_def)
  have 2: "replace_all IMAGE_PLACEHOLDER img l = u @ (''image: '' @ img) @ v"
    using replace_all_skip[OF u] replace_all_here[OF u(2)] by (simp add: l v)
  have 3: "replace_all LEGACY_IMAGE_PLACEHOLDER img (u @ (''image: '' @ img) @ v) = u @ (''image: '' @ img) @ v"
    using sp image_marks assms(4)
    by (intro replace_all_absent[of "CHR ''$''"]) (auto simp: LEGACY_IMAGE_PLACEHOLDER_def)
  have 4: "strip (u @ (''image: '' @ img) @ v) = ''image: '' @ img"
    using assms(2,3) image_marks by (intro strip_padded[OF sp]) (auto simp: list_all_iff)
  have "strip ('' '' @ img) = img"
    using assms(2,3) image_marks strip_padded[of "'' ''" "[]" img] by (auto simp: list_all_iff)
  then have 5: "strip (snd (snd (partition_at CHR '':'' (''image: '' @ img)))) = img"
    using partition_at_found[of "CHR '':''" "''image''" "'' '' @ img"] by simp
  show ?thesis by (simp only: 1 2 3 4 5 Let_def) (simp add: startswith_def)
qed

lemma given_image_extracted:
  assumes "l \<in> set (splitlines content)" and "image_line l" and "normalize_image_ref raw = Inr img"
    and "CHR ''$'' \<notin> set img" and "no_break ns"
  shows "img \<in> set (extract_image_values (rendered_text ns img content))"
proof -
  let ?r1 = "replace_all ''namespace: service-order'' (''namespace: '' @ ns)"
  let ?c1 = "?r1 content"
  let ?c2 = "replace_first (''name: service-order'' @ [newline]) (''name: '' @ ns @ [newline]) ?c1"
  let ?r2 = "\<lambda>s. replace_all LEGACY_IMAGE_PLACEHOLDER img (replace_all IMAGE_PLACEHOLDER img s)"
  have img: "img \<noteq> []" "list_all (\<lambda>c. \<not> is_space c) img"
    using assms(3) by (auto simp: normalize_image_ref_def Let_def list_ex_iff list_all_iff split: if_splits)
  then have nb: "no_break img" by (auto simp: no_break_def list_all_iff dest: break_space)
  have parts: "no_break ''namespace: service-order''" "no_break ''name: service-order''" "no_break (''namespace: '' @ ns)"
    "no_break (''name: '' @ ns)" "no_break IMAGE_PLACEHOLDER" "no_break LEGACY_IMAGE_PLACEHOLDER"
    using assms(5) by (simp_all add: is_break_def code_point_def IMAGE_PLACEHOLDER_def LEGACY_IMAGE_PLACEHOLDER_def)
  from image_line_replaced[OF assms(2) img(2,1) assms(4), of "''namespace: '' @ ns"]
  have l: "startswith (strip (?r2 (?r1 l))) ''image:'' \<and> strip (snd (snd (partition_at CHR '':'' (strip (?r2 (?r1 l)))))) = img"
    by (simp add: Let_def)
  obtain u v where "l = u @ (''image: '' @ IMAGE_PLACEHOLDER) @ v" and sp: "\<forall>c \<in> set u \<union> set v. is_space c"
    using padded[of l] assms(2) unfolding image_line_def by metis
  then have s: "CHR ''s'' \<notin> set l" using image_marks by (auto simp: IMAGE_PLACEHOLDER_def)
  then have same: "?r1 l = l" by (intro replace_all_absent[of "CHR ''s''"]) simp
  have line: "l \<in> set (splitlines ?c1)"
    using splitlines_replace[OF parts(1,3), of content] assms(1) same by force
  have "l \<noteq> x @ ''name: service-order''" for x using s by auto
  then have "l \<in> set (splitlines (replace_first (''name: service-order'' @ [newline]) ((''name: '' @ ns) @ [newline]) ?c1))"
    by (intro replace_first_keeps_line[OF parts(2) _ parts(4) _ line]) simp_all
  then have "l \<in> set (splitlines ?c2)" by (simp only: append_assoc)
  then have "?r2 l \<in> set (splitlines (?r2 ?c2))"
    using splitlines_replace[OF parts(5) nb img(1)] splitlines_replace[OF parts(6) nb img(1)] by simp
  with l show ?thesis
    unfolding same extract_image_values_def rendered_text_def by (auto simp: image_iff intro!: bexI[of _ "?r2 l"])
qed

text \<open>
  Property C35. The given image is deployed, and only concrete images are. After a successful run
  every manifest that names containers is in the output directory with at least one image field,
  none of its images is empty or a placeholder, no image token is left in the text; and where a
  line of the static manifest asks for the image token, the image given on the command line
  stands among its images.
\<close>

theorem given_image_is_deployed:
  assumes "render_main args src file dir = (Inr res, dir')" and "n \<in> set IMAGE_MANIFESTS"
  shows "\<exists>t. dir' n = Some t \<and> concrete_images (universal_newlines t) \<and>
    (\<forall>content l. src n = Some content \<and> l \<in> set (splitlines (universal_newlines content)) \<and> image_line l \<and>
       no_break (arg_namespace args) \<and> CHR ''$'' \<notin> set (arg_image args) \<longrightarrow>
       strip (arg_image args) \<in> set (extract_image_values t))"
proof (rule render_main_success[OF assms(1)])
  fix img vs
  assume i: "normalize_image_ref (arg_image args) = Inr img" and
    d: "\<And>n. dir' n =
      (if n = ''secret.rendered.yaml'' then Some (secret_text (arg_namespace args) (with_defaults vs))
       else if n = ''configmap.rendered.yaml'' then Some (config_text (arg_namespace args) (with_defaults vs))
       else if n \<in> set STATIC_MANIFESTS then static_manifest src (arg_namespace args) img n else dir n)"
    and c: "\<And>n. n \<in> set IMAGE_MANIFESTS \<Longrightarrow>
      \<exists>t. static_manifest src (arg_namespace args) img n = Some t \<and> concrete_images (universal_newlines t)"
  have img: "strip (arg_image args) = img"
    using i by (auto simp: normalize_image_ref_def Let_def split: if_splits)
  have "CHR ''$'' \<notin> set img" if "CHR ''$'' \<notin> set (arg_image args)"
    using that set_strip[of "arg_image args"] by (auto simp: img)
  then have given: "img \<in> set (extract_image_values (rendered_text (arg_namespace args) img (universal_newlines content)))"
    if "l \<in> set (splitlines (universal_newlines content))" "image_line l" "no_break (arg_namespace args)"
      "CHR ''$'' \<notin> set (arg_image args)" for content l
    using given_image_extracted[OF that(1,2) i _ that(3)] that(4) by blast
  have "dir' n = static_manifest src (arg_namespace args) img n"
    using assms(2) d[of n] by (auto simp: IMAGE_MANIFESTS_def STATIC_MANIFESTS_def)
  then show ?thesis using c[OF assms(2)] given by (auto simp: static_manifest_def img)
qed

section \<open>Rendering a prepared file\<close>

lemma parse_line_assign: "map_of (parse_line vs l) = assign l (map_of vs)"
  by (auto simp: parse_line_def assign_def classify.simps Let_def update_conv' partition_at_def)

lemma parse_agrees:
  assumes "load_env_file path file = Inr (entries, m)"
  shows "\<exists>vs. parse_env_file path' file = Inr vs \<and> map_of vs = m"
proof -
  have "map_of (foldl parse_line vs ls) = fold assign ls (map_of vs)" for vs ls
    by (induction ls arbitrary: vs) (simp_all add: parse_line_assign)
  then show ?thesis
    using assms by (auto simp: load_env_file_def parse_env_file_def load_lines_assign split: option.splits)
qed

lemma filled_present:
  assumes "parse_env_file path file = Inr vs"
  shows "filled (map_of vs) k \<longleftrightarrow> required_secret_present vs k"
  using env_dict_ok_strip[OF parse_env_file_ok[OF assms], of k]
  by (cases "map_of vs k") (auto simp: filled_def value_of_def required_secret_present_def simp del: strip_Nil_iff)

text \<open>
  Property C37. The two scripts of a deployment agree but for secrets in files. On a file that
  \<open>prepare_env\<close> wrote, with a concrete image and static manifests that render, the rendering
  succeeds exactly when the required secrets are in the file themselves; a secret that is missing
  then is never the database URL, and the file names its \<open>_FILE\<close> variant instead, which satisfies
  \<open>prepare_env\<close> but not the rendering.
\<close>

theorem prepared_file_renders_with_direct_secrets:
  assumes "prepare_env flt path file = Inr out" and "normalize_image_ref (arg_image args) = Inr img"
    and "\<forall>n \<in> set STATIC_MANIFESTS. src n \<noteq> None"
    and "\<forall>n \<in> set IMAGE_MANIFESTS. \<exists>t. static_manifest src (arg_namespace args) img n = Some t \<and>
      concrete_images (universal_newlines t)"
  shows "\<exists>vs. parse_env_file (arg_env_file args) (Some out) = Inr vs \<and>
    ((\<exists>res dir'. render_main args src (Some out) dir = (Inr res, dir')) \<longleftrightarrow>
       (\<forall>k \<in> set REQUIRED_SECRET_KEYS. required_secret_present vs k)) \<and>
    (\<forall>k \<in> set REQUIRED_SECRET_KEYS. \<not> required_secret_present vs k \<longrightarrow>
       k \<noteq> ''DATABASE_URL'' \<and> required_secret_present vs (k @ ''_FILE''))"
proof -
  obtain entries m where p: "prepared m" and l: "load_env_file path (Some out) = Inr (entries, m)"
    by (rule prepare_envE[OF assms(1)]) (rule that)
  obtain vs where v: "parse_env_file (arg_env_file args) (Some out) = Inr vs" and m: "map_of vs = m"
    using parse_agrees[OF l] by blast
  note present = filled_present[OF v]
  have miss: "missing_secret_keys (with_defaults vs) = [] \<longleftrightarrow> (\<forall>k \<in> set REQUIRED_SECRET_KEYS. required_secret_present vs k)"
    unfolding missing_keys[OF v] by (auto simp: filter_empty_conv simp flip: set_empty)
  have "(\<exists>res dir'. render_main args src (Some out) dir = (Inr res, dir')) \<longleftrightarrow> missing_secret_keys (with_defaults vs) = []"
    using render_main_succeeds[OF assms(2) v _ assms(3,4)] render_main_success v by (metis sum.inject(2))
  moreover have "k \<noteq> ''DATABASE_URL'' \<and> required_secret_present vs (k @ ''_FILE'')"
    if "k \<in> set REQUIRED_SECRET_KEYS" "\<not> required_secret_present vs k" for k
  proof -
    have "filled (map_of vs) ''DATABASE_URL''" "checks_of (map_of vs)"
      using p by (simp_all add: m prepared_def required_text_fields_def rest_normal_def)
    then show ?thesis using that unfolding checks_of_def present by (auto simp: REQUIRED_SECRET_KEYS_def)
  qed
  ultimately show ?thesis using v miss by blast
qed

section \<open>A concrete deployment\<close>

definition sample_manifest :: string where
  "sample_manifest = ''metadata:'' @ [newline] @ ''  namespace: service-order'' @ [newline] @ ''spec:'' @ [newline] @
     ''  image: __API_IMAGE__'' @ [newline]"

definition sample_source :: text_dir where
  "sample_source = (\<lambda>n. if n \<in> set STATIC_MANIFESTS then Some sample_manifest else None)"

definition sample_args :: render_args where
  "sample_args = \<lparr>arg_env_file = ''.env'', arg_output_dir = ''out'', arg_image = ''ghcr.io/shop/billing:1'',
     arg_namespace = ''shop''\<rparr>"

definition sample_secrets :: "string \<Rightarrow> string" where
  "sample_secrets s = ''LOG_LEVEL=INFO'' @ [newline] @ ''JWT_SECRET='' @ s @ [newline] @
     ''CUSTOMER_JWT_SECRET='' @ s @ [newline] @ ''APPROVAL_TOKEN_SECRET='' @ s @ [newline] @ ''DATABASE_URL=db'' @ [newline]"

definition sample_values :: "string \<Rightarrow> env_dict" where
  "sample_values s = [(''LOG_LEVEL'', ''INFO''), (''JWT_SECRET'', s), (''CUSTOMER_JWT_SECRET'', s),
     (''APPROVAL_TOKEN_SECRET'', s), (''DATABASE_URL'', ''db'')]"

lemma sample_image: "normalize_image_ref (arg_image sample_args) = Inr ''ghcr.io/shop/billing:1''"
  by code_simp

lemma sample_parsed: "parse_env_file (arg_env_file sample_args) (Some (sample_secrets ''x'')) = Inr (sample_values ''x'')"
  "parse_env_file (arg_env_file sample_args) (Some (sample_secrets ''y'')) = Inr (sample_values ''y'')"
  "parse_env_file (arg_env_file sample_args) (Some (sample_secrets [])) = Inr (sample_values [])"
  by code_simp+

lemma sample_rendered: "rendered_text ''shop'' ''ghcr.io/shop/billing:1'' (universal_newlines sample_manifest) =
    ''metadata:'' @ [newline] @ ''  namespace: shop'' @ [newline] @ ''spec:'' @ [newline] @
    ''  image: ghcr.io/shop/billing:1'' @ [newline]"
  by code_simp

lemma sample_concrete: "concrete_images (universal_newlines
    (''metadata:'' @ [newline] @ ''  namespace: shop'' @ [newline] @ ''spec:'' @ [newline] @
     ''  image: ghcr.io/shop/billing:1'' @ [newline]))"
  by code_simp

lemma sample_complete: "missing_secret_keys (with_defaults (sample_values ''x'')) = []"
  "missing_secret_keys (with_defaults (sample_values ''y'')) = []"
  by code_simp+

lemma sample_statics:
  "\<forall>n \<in> set STATIC_MANIFESTS. sample_source n \<noteq> None"
  "\<forall>n \<in> set IMAGE_MANIFESTS. \<exists>t. static_manifest sample_source (arg_namespace sample_args) ''ghcr.io/shop/billing:1'' n = Some t \<and>
     concrete_images (universal_newlines t)"
proof -
  have ns: "arg_namespace sample_args = ''shop''" by (simp add: sample_args_def)
  have "set IMAGE_MANIFESTS \<subseteq> set STATIC_MANIFESTS" by (simp add: IMAGE_MANIFESTS_def STATIC_MANIFESTS_def)
  moreover have "concrete_images (universal_newlines (rendered_text ''shop'' ''ghcr.io/shop/billing:1''
      (universal_newlines sample_manifest)))"
    unfolding sample_rendered by (rule sample_concrete)
  ultimately show "\<forall>n \<in> set IMAGE_MANIFESTS. \<exists>t. static_manifest sample_source (arg_namespace sample_args)
      ''ghcr.io/shop/billing:1'' n = Some t \<and> concrete_images (universal_newlines t)"
    unfolding ns static_manifest_def sample_source_def by (simp add: subset_iff)
qed (simp add: sample_source_def)

lemma sample_run:
  "\<exists>d. render_main sample_args sample_source (Some (sample_secrets ''x'')) Map.empty =
     (Inr (0, ''Rendered manifests into '' @ arg_output_dir sample_args), d)"
  "\<exists>d. render_main sample_args sample_source (Some (sample_secrets ''y'')) Map.empty =
     (Inr (0, ''Rendered manifests into '' @ arg_output_dir sample_args), d)"
  by (rule render_main_succeeds[OF sample_image sample_parsed(1) sample_complete(1) sample_statics],
      rule render_main_succeeds[OF sample_image sample_parsed(2) sample_complete(2) sample_statics])

theorem secrets_stay_in_the_secret_witness:
  "snd (render_main sample_args sample_source (Some (sample_secrets ''x'')) Map.empty) ''configmap.rendered.yaml'' =
   snd (render_main sample_args sample_source (Some (sample_secrets ''y'')) Map.empty) ''configmap.rendered.yaml''"
proof -
  obtain d1 d2 where r: "render_main sample_args sample_source (Some (sample_secrets ''x'')) Map.empty =
      (Inr (0, ''Rendered manifests into '' @ arg_output_dir sample_args), d1)"
    "render_main sample_args sample_source (Some (sample_secrets ''y'')) Map.empty =
      (Inr (0, ''Rendered manifests into '' @ arg_output_dir sample_args), d2)"
    using sample_run by blast
  have "\<forall>k. k \<notin> set SENSITIVE_KEYS \<longrightarrow> map_of (sample_values ''x'') k = map_of (sample_values ''y'') k"
    by (simp add: sample_values_def SENSITIVE_KEYS_def)
  from secrets_stay_in_the_secret[OF sample_parsed(1,2) this r] show ?thesis by (simp add: r)
qed

theorem missing_secrets_stop_the_rendering_witness:
  "\<exists>ks. render_main sample_args sample_source (Some (sample_secrets [])) Map.empty =
      (Inl (SystemExit (''Missing required secret keys in env file: '' @ join '', '' ks)), Map.empty) \<and>
    set ks = {k \<in> set REQUIRED_SECRET_KEYS. \<not> required_secret_present (sample_values []) k} \<and> sorted ks \<and> distinct ks"
  by (rule missing_secrets_stop_the_rendering[OF sample_image sample_parsed(3), of "''JWT_SECRET''"])
    (simp_all add: REQUIRED_SECRET_KEYS_def required_secret_present_def sample_values_def)

theorem rendered_values_are_read_back_witness:
  "\<exists>c s. snd (render_main sample_args sample_source (Some (sample_secrets ''x'')) Map.empty) ''configmap.rendered.yaml'' = Some c \<and>
    snd (render_main sample_args sample_source (Some (sample_secrets ''x'')) Map.empty) ''secret.rendered.yaml'' = Some s \<and>
    map_of (section_entries id ''data'' c) ''LOG_LEVEL'' = Some (Inr (JStr ''INFO'')) \<and>
    map_of (section_entries id ''data'' c) ''JWT_SECRET'' = None \<and>
    map_of (section_entries id ''stringData'' s) ''JWT_SECRET'' = Some (Inr (JStr ''x''))"
proof -
  obtain d where r: "render_main sample_args sample_source (Some (sample_secrets ''x'')) Map.empty =
      (Inr (0, ''Rendered manifests into '' @ arg_output_dir sample_args), d)"
    using sample_run by blast
  have ns: "no_break (arg_namespace sample_args)" by code_simp
  have keys: "\<forall>k \<in> fst ` set (sample_values ''x''). CHR '':'' \<notin> set k" by (simp add: sample_values_def)
  from rendered_values_are_read_back[OF r sample_parsed(1) ns keys, of id] show ?thesis
    by (auto simp: r SENSITIVE_KEYS_def configured_def sample_values_def)
qed

theorem given_image_is_deployed_witness:
  "\<exists>t. snd (render_main sample_args sample_source (Some (sample_secrets ''x'')) Map.empty) ''deployment.yaml'' = Some t \<and>
    concrete_images (universal_newlines t) \<and> ''ghcr.io/shop/billing:1'' \<in> set (extract_image_values t)"
proof -
  obtain d where r: "render_main sample_args sample_source (Some (sample_secrets ''x'')) Map.empty =
      (Inr (0, ''Rendered manifests into '' @ arg_output_dir sample_args), d)"
    using sample_run by blast
  have n: "''deployment.yaml'' \<in> set IMAGE_MANIFESTS" by (simp add: IMAGE_MANIFESTS_def)
  have src: "sample_source ''deployment.yaml'' = Some sample_manifest" by (simp add: sample_source_def STATIC_MANIFESTS_def)
  have line: "''  image: __API_IMAGE__'' \<in> set (splitlines (universal_newlines sample_manifest))"
    "image_line ''  image: __API_IMAGE__''" "no_break (arg_namespace sample_args)" "CHR ''$'' \<notin> set (arg_image sample_args)"
    "strip (arg_image sample_args) = ''ghcr.io/shop/billing:1''"
    by code_simp+
  from given_image_is_deployed[OF r n] src line show ?thesis by (metis r snd_conv)
qed

theorem prepared_file_renders_with_direct_secrets_witness:
  "\<exists>vs. parse_env_file ''.env'' (Some sample_env_out) = Inr vs \<and>
    ((\<exists>res dir'. render_main sample_args sample_source (Some sample_env_out) Map.empty = (Inr res, dir')) \<longleftrightarrow>
       (\<forall>k \<in> set REQUIRED_SECRET_KEYS. required_secret_present vs k)) \<and>
    (\<forall>k \<in> set REQUIRED_SECRET_KEYS. required_secret_present vs k \<or>
       k \<noteq> ''DATABASE_URL'' \<and> required_secret_present vs (k @ ''_FILE''))"
  using prepared_file_renders_with_direct_secrets[OF sample_prepared sample_image sample_statics, of Map.empty]
  by (auto simp: sample_args_def)

end
