(* ===== verification/Schema.thy ===== *)
theory Schema
  imports Repositories
begin

text \<open>
  The database schema: the tables the repositories declare
  (\<open>sqlalchemy_billing_repositories.py\<close>, \<open>processed_event_repositories.py\<close>), the combined metadata
  (\<open>sqlalchemy_metadata.py\<close>) and the migration (\<open>alembic/versions/001_initial_schema.py\<close>). A
  repository creates its tables when it is opened and a deployment runs the migration, so the two
  descriptions of the schema have to agree.

  What SQLAlchemy and Alembic do with a description is modelled as it is documented: creating what
  exists and dropping what does not exist are database errors, a dropped table takes its
  indexes along, \<open>create_all\<close> creates the tables that are absent with their indexes, and
  a column with \<open>index=True\<close> has the index \<open>ix_<table>_<column>\<close>.
\<close>

section \<open>Schemas\<close>

datatype sql_type = String_Type nat | Json_Type | Date_Time bool

record column =
  column_name :: string
  column_type :: sql_type
  primary_key :: bool
  nullable :: bool

record table_index =
  index_table :: string
  index_columns :: "string list"
  index_unique :: bool

record schema =
  db_tables :: "string \<rightharpoonup> column list"
  db_indexes :: "string \<rightharpoonup> table_index"

definition Key :: "string \<Rightarrow> sql_type \<Rightarrow> column" where
  "Key name ty = \<lparr>column_name = name, column_type = ty, primary_key = True, nullable = False\<rparr>"

definition Column :: "string \<Rightarrow> sql_type \<Rightarrow> bool \<Rightarrow> column" where
  "Column name ty null = \<lparr>column_name = name, column_type = ty, primary_key = False, nullable = null\<rparr>"

definition has_table :: "string \<Rightarrow> (schema, bool) exec" where
  "has_table name = reads (\<lambda>s. db_tables s name \<noteq> None)"

definition create_table :: "string \<Rightarrow> column list \<Rightarrow> (schema, unit) exec" where
  "create_table name cols s =
     (if db_tables s name \<noteq> None then (Inl (DatabaseError (''relation already exists: '' @ name)), s)
      else (Inr (), s\<lparr>db_tables := (db_tables s)(name \<mapsto> cols)\<rparr>))"

definition create_index :: "string \<Rightarrow> string \<Rightarrow> string list \<Rightarrow> bool \<Rightarrow> (schema, unit) exec" where
  "create_index name table cols unique s =
     (case db_tables s table of
        None \<Rightarrow> (Inl (DatabaseError (''relation does not exist: '' @ table)), s)
      | Some cs \<Rightarrow>
          if \<not> set cols \<subseteq> column_name ` set cs then (Inl (DatabaseError (''column does not exist: '' @ table)), s)
          else if db_indexes s name \<noteq> None then (Inl (DatabaseError (''relation already exists: '' @ name)), s)
          else (Inr (), s\<lparr>db_indexes := (db_indexes s)(name \<mapsto>
            \<lparr>index_table = table, index_columns = cols, index_unique = unique\<rparr>)\<rparr>))"

definition drop_index :: "string \<Rightarrow> (schema, unit) exec" where
  "drop_index name s =
     (if db_indexes s name = None then (Inl (DatabaseError (''index does not exist: '' @ name)), s)
      else (Inr (), s\<lparr>db_indexes := (db_indexes s)(name := None)\<rparr>))"

definition drop_table :: "string \<Rightarrow> (schema, unit) exec" where
  "drop_table name s =
     (if db_tables s name = None then (Inl (DatabaseError (''table does not exist: '' @ name)), s)
      else (Inr (), s\<lparr>db_tables := (db_tables s)(name := None),
        db_indexes := (\<lambda>n. case db_indexes s n of None \<Rightarrow> None
          | Some ix \<Rightarrow> if index_table ix = name then None else Some ix)\<rparr>))"

section \<open>The tables of the repositories\<close>

record table_meta =
  table_name :: string
  table_columns :: "(column \<times> bool) list"

text \<open>A column is paired with its \<open>index\<close> flag.\<close>

definition quotes :: table_meta where
  "quotes = \<lparr>table_name = ''quotes'', table_columns =
     [(Key ''quote_id'' (String_Type 64), False),
      (Column ''service_order_id'' (String_Type 64) False, True),
      (Column ''items'' Json_Type False, False),
      (Column ''amount'' (String_Type 32) False, False),
      (Column ''currency'' (String_Type 8) False, False),
      (Column ''status'' (String_Type 64) False, False)]\<rparr>"

definition payments :: table_meta where
  "payments = \<lparr>table_name = ''payments'', table_columns =
     [(Key ''payment_id'' (String_Type 64), False),
      (Column ''quote_id'' (String_Type 64) False, True),
      (Column ''service_order_id'' (String_Type 64) False, True),
      (Column ''amount'' (String_Type 32) False, False),
      (Column ''currency'' (String_Type 8) False, False),
      (Column ''status'' (String_Type 64) False, False),
      (Column ''preference'' Json_Type True, False)]\<rparr>"

definition processed_events :: table_meta where
  "processed_events = \<lparr>table_name = ''processed_events'', table_columns =
     [(Key ''event_id'' (String_Type 64), False),
      (Column ''event_type'' (String_Type 128) False, False),
      (Column ''correlation_id'' (String_Type 128) False, False),
      (Column ''processed_at'' (Date_Time True) False, False)]\<rparr>"

definition billing_metadata :: "table_meta list" where
  "billing_metadata = [quotes, payments]"

definition processed_event_metadata :: "table_meta list" where
  "processed_event_metadata = [processed_events]"

definition ALL_METADATA :: "table_meta list list" where
  "ALL_METADATA = [billing_metadata, processed_event_metadata]"

definition to_metadata :: "table_meta list \<Rightarrow> table_meta \<Rightarrow> table_meta list" where
  "to_metadata metadata table =
     (if table_name table \<in> table_name ` set metadata then metadata else metadata @ [table])"

definition build_combined_metadata :: "table_meta list" where
  "build_combined_metadata = foldl (\<lambda>metadata source. foldl to_metadata metadata source) [] ALL_METADATA"

definition create_missing :: "table_meta \<Rightarrow> (schema, unit) exec" where
  "create_missing t =
     andthen (create_table (table_name t) (map fst (table_columns t))) (\<lambda>_.
       for_each (\<lambda>c. create_index (''ix_'' @ table_name t @ ''_'' @ column_name c) (table_name t) [column_name c] False)
         (map fst (filter snd (table_columns t))))"

definition create_all :: "table_meta list \<Rightarrow> (schema, unit) exec" where
  "create_all metadata s = for_each create_missing (filter (\<lambda>t. db_tables s (table_name t) = None) metadata) s"

text \<open>
  \<open>create_all\<close> of the constructors and of \<open>from_engine\<close>, in the order in which the application
  opens its two repositories and the worker its third.
\<close>

definition open_all_repositories :: "(schema, unit) exec" where
  "open_all_repositories =
     andthen (create_all billing_metadata) (\<lambda>_.
     andthen (create_all billing_metadata) (\<lambda>_. create_all processed_event_metadata))"

section \<open>The migration\<close>

definition upgrade :: "(schema, unit) exec" where
  "upgrade =
     andthen (has_table ''quotes'') (\<lambda>found.
     andthen (if found then ret () else
       andthen (create_table ''quotes''
         [Key ''quote_id'' (String_Type 64),
          Column ''service_order_id'' (String_Type 64) False,
          Column ''items'' Json_Type False,
          Column ''amount'' (String_Type 32) False,
          Column ''currency'' (String_Type 8) False,
          Column ''status'' (String_Type 64) False]) (\<lambda>_.
       create_index ''ix_quotes_service_order_id'' ''quotes'' [''service_order_id''] False)) (\<lambda>_.
     andthen (has_table ''payments'') (\<lambda>found.
     andthen (if found then ret () else
       andthen (create_table ''payments''
         [Key ''payment_id'' (String_Type 64),
          Column ''quote_id'' (String_Type 64) False,
          Column ''service_order_id'' (String_Type 64) False,
          Column ''amount'' (String_Type 32) False,
          Column ''currency'' (String_Type 8) False,
          Column ''status'' (String_Type 64) False,
          Column ''preference'' Json_Type True]) (\<lambda>_.
       andthen (create_index ''ix_payments_quote_id'' ''payments'' [''quote_id''] False) (\<lambda>_.
       create_index ''ix_payments_service_order_id'' ''payments'' [''service_order_id''] False))) (\<lambda>_.
     andthen (has_table ''processed_events'') (\<lambda>found.
       if found then ret () else
         create_table ''processed_events''
           [Key ''event_id'' (String_Type 64),
            Column ''event_type'' (String_Type 128) False,
            Column ''correlation_id'' (String_Type 128) False,
            Column ''processed_at'' (Date_Time True) False])))))"

definition downgrade :: "(schema, unit) exec" where
  "downgrade =
     andthen (has_table ''processed_events'') (\<lambda>found.
     andthen (if found then drop_table ''processed_events'' else ret ()) (\<lambda>_.
     andthen (has_table ''payments'') (\<lambda>found.
     andthen (if found then
         andthen (drop_index ''ix_payments_service_order_id'') (\<lambda>_.
         andthen (drop_index ''ix_payments_quote_id'') (\<lambda>_. drop_table ''payments''))
       else ret ()) (\<lambda>_.
     andthen (has_table ''quotes'') (\<lambda>found.
       if found then
         andthen (drop_index ''ix_quotes_service_order_id'') (\<lambda>_. drop_table ''quotes'')
       else ret ())))))"

section \<open>Agreement\<close>

text \<open>The schema every description leads to: what is there stays, what is absent is added with its indexes.\<close>

definition declared_tables :: "string \<rightharpoonup> column list" where
  "declared_tables = map_of (map (\<lambda>t. (table_name t, map fst (table_columns t))) build_combined_metadata)"

definition declared_indexes :: "string \<rightharpoonup> table_index" where
  "declared_indexes = map_of (concat (map (\<lambda>t.
     map (\<lambda>c. (''ix_'' @ table_name t @ ''_'' @ column_name c,
        \<lparr>index_table = table_name t, index_columns = [column_name c], index_unique = False\<rparr>))
       (map fst (filter snd (table_columns t)))) build_combined_metadata))"

definition completed :: "schema \<Rightarrow> schema" where
  "completed s = s\<lparr>
     db_tables := (\<lambda>n. case db_tables s n of Some cols \<Rightarrow> Some cols | None \<Rightarrow> declared_tables n),
     db_indexes := (\<lambda>n. case declared_indexes n of
        None \<Rightarrow> db_indexes s n
      | Some ix \<Rightarrow> if db_tables s (index_table ix) = None then Some ix else db_indexes s n)\<rparr>"

text \<open>No other index has the name of an index that is to be created.\<close>

definition names_free :: "schema \<Rightarrow> bool" where
  "names_free s \<longleftrightarrow>
     (db_tables s ''quotes'' = None \<longrightarrow> db_indexes s ''ix_quotes_service_order_id'' = None) \<and>
     (db_tables s ''payments'' = None \<longrightarrow>
        db_indexes s ''ix_payments_quote_id'' = None \<and> db_indexes s ''ix_payments_service_order_id'' = None)"

lemmas schema_defs = quotes_def payments_def processed_events_def Key_def Column_def billing_metadata_def
  processed_event_metadata_def

lemma combined [simp]: "build_combined_metadata = [quotes, payments, processed_events]"
  by (simp add: build_combined_metadata_def ALL_METADATA_def to_metadata_def schema_defs)

lemmas ddl_defs = create_table_def create_index_def has_table_def create_missing_def create_all_def andthen_def

lemma declared_tables_simp: "declared_tables n =
    (if n = ''quotes'' then Some (map fst (table_columns quotes))
     else if n = ''payments'' then Some (map fst (table_columns payments))
     else if n = ''processed_events'' then Some (map fst (table_columns processed_events)) else None)"
  by (simp add: declared_tables_def schema_defs)

definition plain_index :: "string \<Rightarrow> string \<Rightarrow> table_index" where
  "plain_index t c = \<lparr>index_table = t, index_columns = [c], index_unique = False\<rparr>"

lemma declared_indexes_simp: "declared_indexes n =
    (if n = ''ix_quotes_service_order_id'' then Some (plain_index ''quotes'' ''service_order_id'')
     else if n = ''ix_payments_quote_id'' then Some (plain_index ''payments'' ''quote_id'')
     else if n = ''ix_payments_service_order_id'' then Some (plain_index ''payments'' ''service_order_id'') else None)"
  by (simp add: declared_indexes_def schema_defs plain_index_def)

text \<open>Each table in turn.\<close>

definition with_quotes :: "schema \<Rightarrow> schema" where
  "with_quotes s = (if db_tables s ''quotes'' = None
     then s\<lparr>db_tables := (db_tables s)(''quotes'' \<mapsto> map fst (table_columns quotes)),
       db_indexes := (db_indexes s)(''ix_quotes_service_order_id'' \<mapsto> plain_index ''quotes'' ''service_order_id'')\<rparr>
     else s)"

definition with_payments :: "schema \<Rightarrow> schema" where
  "with_payments s = (if db_tables s ''payments'' = None
     then s\<lparr>db_tables := (db_tables s)(''payments'' \<mapsto> map fst (table_columns payments)),
       db_indexes := (db_indexes s)(''ix_payments_quote_id'' \<mapsto> plain_index ''payments'' ''quote_id'',
         ''ix_payments_service_order_id'' \<mapsto> plain_index ''payments'' ''service_order_id'')\<rparr>
     else s)"

definition with_processed :: "schema \<Rightarrow> schema" where
  "with_processed s = (if db_tables s ''processed_events'' = None
     then s\<lparr>db_tables := (db_tables s)(''processed_events'' \<mapsto> map fst (table_columns processed_events))\<rparr> else s)"

lemma completed_steps: "completed s = with_processed (with_payments (with_quotes s))"
  by (auto simp: completed_def with_quotes_def with_payments_def with_processed_def declared_tables_simp
      declared_indexes_simp plain_index_def fun_eq_iff intro!: schema.equality split: option.splits)

lemma create_quotes: "db_tables s ''quotes'' = None \<Longrightarrow> names_free s \<Longrightarrow> create_missing quotes s = (Inr (), with_quotes s)"
  by (simp add: ddl_defs with_quotes_def names_free_def schema_defs plain_index_def)

lemma create_payments: "db_tables s ''payments'' = None \<Longrightarrow> names_free s \<Longrightarrow> create_missing payments s = (Inr (), with_payments s)"
  by (simp add: ddl_defs with_payments_def names_free_def schema_defs plain_index_def)

lemma create_processed:
  "db_tables s ''processed_events'' = None \<Longrightarrow> create_missing processed_events s = (Inr (), with_processed s)"
  by (simp add: ddl_defs with_processed_def schema_defs)

lemma names_free_steps: "names_free s \<Longrightarrow> names_free (with_quotes s)" "names_free s \<Longrightarrow> names_free (with_payments s)"
  by (auto simp: names_free_def with_quotes_def with_payments_def)

lemma other_tables [simp]:
  "db_tables (with_quotes s) ''payments'' = db_tables s ''payments''"
  "db_tables (with_quotes s) ''processed_events'' = db_tables s ''processed_events''"
  "db_tables (with_payments s) ''quotes'' = db_tables s ''quotes''"
  "db_tables (with_payments s) ''processed_events'' = db_tables s ''processed_events''"
  "db_tables (with_processed s) ''quotes'' = db_tables s ''quotes''"
  "db_tables (with_processed s) ''payments'' = db_tables s ''payments''"
  "db_tables (with_quotes s) ''quotes'' \<noteq> None" "db_tables (with_payments s) ''payments'' \<noteq> None"
  "db_tables (with_processed s) ''processed_events'' \<noteq> None"
  by (simp_all add: with_quotes_def with_payments_def with_processed_def)

lemma present_steps:
  "db_tables s ''quotes'' \<noteq> None \<Longrightarrow> with_quotes s = s" "db_tables s ''payments'' \<noteq> None \<Longrightarrow> with_payments s = s"
  "db_tables s ''processed_events'' \<noteq> None \<Longrightarrow> with_processed s = s"
  unfolding with_quotes_def with_payments_def with_processed_def by (simp_all only: if_False)

lemma names [simp]: "table_name quotes = ''quotes''" "table_name payments = ''payments''"
  "table_name processed_events = ''processed_events''"
  by (simp_all add: quotes_def payments_def processed_events_def)

lemma create_billing:
  assumes "names_free s"
  shows "create_all billing_metadata s = (Inr (), with_payments (with_quotes s))"
  using create_quotes[OF _ assms] create_payments[OF _ assms] create_payments[OF _ names_free_steps(1)[OF assms]]
    present_steps[of s]
  by (cases "db_tables s ''quotes''"; cases "db_tables s ''payments''")
    (simp_all add: create_all_def billing_metadata_def present_steps)

lemma create_events: "create_all processed_event_metadata s = (Inr (), with_processed s)"
  using create_processed[of s] present_steps(3)[of s]
  by (cases "db_tables s ''processed_events''") (simp_all add: create_all_def processed_event_metadata_def)

lemma create_combined:
  assumes "names_free s"
  shows "create_all build_combined_metadata s = (Inr (), completed s)"
proof -
  let ?q = "if db_tables s ''quotes'' = None then [quotes] else []"
  let ?p = "if db_tables s ''payments'' = None then [payments] else []"
  let ?e = "if db_tables s ''processed_events'' = None then [processed_events] else []"
  have split: "for_each create_missing (xs @ ys) s' = andthen (for_each create_missing xs) (\<lambda>_. for_each create_missing ys) s'"
    for xs ys s' by (induction xs arbitrary: s') (simp_all add: andthen_def split: prod.splits sum.splits)
  have "filter (\<lambda>t. db_tables s (table_name t) = None) build_combined_metadata =
      filter (\<lambda>t. db_tables s (table_name t) = None) billing_metadata @ ?e"
    by (simp add: billing_metadata_def)
  then have "create_all build_combined_metadata s =
      andthen (create_all billing_metadata) (\<lambda>_. for_each create_missing ?e) s"
    unfolding create_all_def by (simp add: split andthen_def)
  then show ?thesis
    using create_billing[OF assms] create_processed[of "with_payments (with_quotes s)"]
      present_steps(3)[of "with_payments (with_quotes s)"]
    by (cases "db_tables s ''processed_events''") (simp_all add: completed_steps)
qed

lemma completed_free: "names_free (completed s)"
  by (simp add: names_free_def completed_steps)

lemma completed_again: "completed (completed s) = completed s"
  unfolding completed_steps by (simp add: present_steps)

lemma opened:
  assumes "names_free s"
  shows "open_all_repositories s = (Inr (), completed s)"
proof -
  let ?b = "with_payments (with_quotes s)"
  have "names_free ?b" using assms by (intro names_free_steps)
  then have "create_all billing_metadata ?b = (Inr (), ?b)" by (simp add: create_billing present_steps)
  then show ?thesis
    by (simp add: open_all_repositories_def create_billing[OF assms] create_events completed_steps)
qed

lemma column_names [simp]: "column_name (Key n ty) = n" "column_name (Column n ty null) = n"
  by (simp_all add: Key_def Column_def)

lemma andthen_ret_unit: "andthen m ret = (m :: ('s, unit) exec)"
  by (rule ext) (simp add: andthen_def split: prod.splits sum.splits)

lemma three_steps:
  "m s = (Inr x, s1) \<Longrightarrow> m' s1 = (Inr y, s2) \<Longrightarrow> m'' s2 = r \<Longrightarrow> andthen m (\<lambda>_. andthen m' (\<lambda>_. m'')) s = r"
  by simp

text \<open>The migration creates each table as \<open>create_all\<close> does.\<close>

lemma migration_tables:
  "upgrade =
     andthen (has_table ''quotes'') (\<lambda>found.
     andthen (if found then ret () else create_missing quotes) (\<lambda>_.
     andthen (has_table ''payments'') (\<lambda>found.
     andthen (if found then ret () else create_missing payments) (\<lambda>_.
     andthen (has_table ''processed_events'') (\<lambda>found.
       if found then ret () else create_missing processed_events)))))"
proof -
  have q: "create_missing quotes = andthen (create_table ''quotes'' (map fst (table_columns quotes)))
      (\<lambda>_. create_index ''ix_quotes_service_order_id'' ''quotes'' [''service_order_id''] False)"
    by (simp add: create_missing_def quotes_def andthen_ret_unit)
  have p: "create_missing payments = andthen (create_table ''payments'' (map fst (table_columns payments)))
      (\<lambda>_. andthen (create_index ''ix_payments_quote_id'' ''payments'' [''quote_id''] False)
      (\<lambda>_. create_index ''ix_payments_service_order_id'' ''payments'' [''service_order_id''] False))"
    by (simp add: create_missing_def payments_def andthen_ret_unit)
  have e: "create_missing processed_events = create_table ''processed_events'' (map fst (table_columns processed_events))"
    by (simp add: create_missing_def processed_events_def andthen_ret_unit)
  have columns: "map fst (table_columns quotes) = [Key ''quote_id'' (String_Type 64),
      Column ''service_order_id'' (String_Type 64) False, Column ''items'' Json_Type False,
      Column ''amount'' (String_Type 32) False, Column ''currency'' (String_Type 8) False,
      Column ''status'' (String_Type 64) False]"
    "map fst (table_columns payments) = [Key ''payment_id'' (String_Type 64),
      Column ''quote_id'' (String_Type 64) False, Column ''service_order_id'' (String_Type 64) False,
      Column ''amount'' (String_Type 32) False, Column ''currency'' (String_Type 8) False,
      Column ''status'' (String_Type 64) False, Column ''preference'' Json_Type True]"
    "map fst (table_columns processed_events) = [Key ''event_id'' (String_Type 64),
      Column ''event_type'' (String_Type 128) False, Column ''correlation_id'' (String_Type 128) False,
      Column ''processed_at'' (Date_Time True) False]"
    by (simp_all add: quotes_def payments_def processed_events_def)
  show ?thesis unfolding q p e columns upgrade_def by (rule refl)
qed

lemma upgraded:
  assumes "names_free s"
  shows "upgrade s = (Inr (), completed s)"
proof -
  let ?q = "with_quotes s" let ?p = "with_payments ?q"
  let ?block = "\<lambda>n t. andthen (has_table n) (\<lambda>found. if found then ret () else create_missing t)"
  have 1: "?block ''quotes'' quotes s = (Inr (), ?q)"
    using create_quotes[OF _ assms] present_steps(1)[of s] by (auto simp: has_table_def)
  have 2: "?block ''payments'' payments ?q = (Inr (), ?p)"
    using create_payments[OF _ names_free_steps(1)[OF assms]] present_steps(2)[of ?q] by (auto simp: has_table_def)
  have 3: "?block ''processed_events'' processed_events ?p = (Inr (), with_processed ?p)"
    using create_processed[of ?p] present_steps(3)[of ?p] by (auto simp: has_table_def)
  have u: "upgrade = andthen (?block ''quotes'' quotes) (\<lambda>_. andthen (?block ''payments'' payments)
      (\<lambda>_. ?block ''processed_events'' processed_events))"
    unfolding migration_tables by (simp only: andthen_assoc)
  show ?thesis unfolding u completed_steps by (rule three_steps, rule 1, rule 2, rule 3)
qed

text \<open>A schema without the tables of the service, whose indexes belong to tables it has.\<close>

definition foreign :: "schema \<Rightarrow> bool" where
  "foreign s \<longleftrightarrow> db_tables s ''quotes'' = None \<and> db_tables s ''payments'' = None \<and> db_tables s ''processed_events'' = None \<and>
     (\<forall>n ix. db_indexes s n = Some ix \<longrightarrow> db_tables s (index_table ix) \<noteq> None)"

lemma foreign_index: "foreign s \<Longrightarrow> db_indexes s n = Some ix \<Longrightarrow> t \<in> {''quotes'', ''payments'', ''processed_events''} \<Longrightarrow>
    index_table ix \<noteq> t"
  unfolding foreign_def by fastforce

lemma downgraded:
  assumes "foreign s" and "names_free s"
  shows "downgrade (completed s) = (Inr (), s)"
proof -
  have absent: "db_tables s ''quotes'' = None" "db_tables s ''payments'' = None" "db_tables s ''processed_events'' = None"
    using assms(1) by (simp_all add: foreign_def)
  have free: "db_indexes s ''ix_quotes_service_order_id'' = None" "db_indexes s ''ix_payments_quote_id'' = None"
    "db_indexes s ''ix_payments_service_order_id'' = None"
    using assms(2) absent by (simp_all add: names_free_def)
  let ?q = "with_quotes s" let ?p = "with_payments ?q"
  note defs = has_table_def drop_table_def drop_index_def with_quotes_def with_payments_def with_processed_def
    plain_index_def fun_eq_iff
  have 1: "andthen (has_table ''processed_events'') (\<lambda>found. if found then drop_table ''processed_events'' else ret ())
      (completed s) = (Inr (), ?p)"
    using absent foreign_index[OF assms(1)] by (auto simp: completed_steps defs intro!: schema.equality split: option.splits)
  have 2: "andthen (has_table ''payments'') (\<lambda>found. if found then
         andthen (drop_index ''ix_payments_service_order_id'') (\<lambda>_.
         andthen (drop_index ''ix_payments_quote_id'') (\<lambda>_. drop_table ''payments''))
       else ret ()) ?p = (Inr (), ?q)"
    using absent free foreign_index[OF assms(1)] by (auto simp: defs intro!: schema.equality split: option.splits)
  have 3: "andthen (has_table ''quotes'') (\<lambda>found. if found then
         andthen (drop_index ''ix_quotes_service_order_id'') (\<lambda>_. drop_table ''quotes'') else ret ()) ?q = (Inr (), s)"
    using absent free foreign_index[OF assms(1)] by (auto simp: defs intro!: schema.equality split: option.splits)
  have d: "downgrade = andthen (andthen (has_table ''processed_events'')
      (\<lambda>found. if found then drop_table ''processed_events'' else ret ())) (\<lambda>_.
      andthen (andthen (has_table ''payments'') (\<lambda>found. if found then
         andthen (drop_index ''ix_payments_service_order_id'') (\<lambda>_.
         andthen (drop_index ''ix_payments_quote_id'') (\<lambda>_. drop_table ''payments''))
       else ret ())) (\<lambda>_.
      andthen (has_table ''quotes'') (\<lambda>found. if found then
         andthen (drop_index ''ix_quotes_service_order_id'') (\<lambda>_. drop_table ''quotes'') else ret ())))"
    unfolding downgrade_def by (simp only: andthen_assoc)
  show ?thesis unfolding d by (rule three_steps, rule 1, rule 2, rule 3)
qed

text \<open>
  Property C38. The schema is described once. From any state of the database in which the names of
  the missing indexes are free, the migration, \<open>create_all\<close> of the combined metadata that Alembic
  compares with, and opening the repositories succeed with the same schema, which has every
  declared table; each of them leaves that schema alone afterwards, so the order of migrating and
  starting does not matter; and where none of the tables was there, the downgrade gives back the
  schema from before.
\<close>

theorem migration_and_repositories_agree:
  assumes "names_free s"
  shows "\<exists>s'. upgrade s = (Inr (), s') \<and> create_all build_combined_metadata s = (Inr (), s') \<and>
    open_all_repositories s = (Inr (), s') \<and>
    (\<forall>t \<in> set build_combined_metadata. db_tables s (table_name t) = None \<longrightarrow>
       db_tables s' (table_name t) = Some (map fst (table_columns t))) \<and>
    upgrade s' = (Inr (), s') \<and> open_all_repositories s' = (Inr (), s') \<and>
    (foreign s \<longrightarrow> downgrade s' = (Inr (), s))"
proof (intro exI conjI)
  show "\<forall>t \<in> set build_combined_metadata. db_tables s (table_name t) = None \<longrightarrow>
      db_tables (completed s) (table_name t) = Some (map fst (table_columns t))"
    by (simp add: completed_def declared_tables_simp)
qed (use assms in \<open>simp_all add: upgraded create_combined opened downgraded completed_free completed_again del: combined\<close>)

definition other_schema :: schema where
  "other_schema = \<lparr>db_tables = [''alembic_version'' \<mapsto> [Key ''version_num'' (String_Type 32)]], db_indexes = Map.empty\<rparr>"

theorem migration_and_repositories_agree_witness:
  "\<exists>s'. upgrade other_schema = (Inr (), s') \<and> create_all build_combined_metadata other_schema = (Inr (), s') \<and>
    open_all_repositories other_schema = (Inr (), s') \<and> upgrade s' = (Inr (), s') \<and> downgrade s' = (Inr (), other_schema)"
proof -
  have "names_free other_schema" "foreign other_schema" by (simp_all add: names_free_def foreign_def other_schema_def)
  then show ?thesis using migration_and_repositories_agree[of other_schema] by (auto simp del: combined)
qed

section \<open>Rows and columns\<close>

text \<open>What \<open>save\<close> writes, as the dictionary it builds, and the columns it has to fit.\<close>

definition quote_values :: "quote_row \<Rightarrow> (string \<times> json) list" where
  "quote_values r =
     [(''quote_id'', JStr (qr_quote_id r)), (''service_order_id'', JStr (qr_service_order_id r)),
      (''items'', qr_items r), (''amount'', JStr (qr_amount r)), (''currency'', JStr (qr_currency r)),
      (''status'', JStr (qr_status r))]"

definition payment_values :: "payment_row \<Rightarrow> (string \<times> json) list" where
  "payment_values r =
     [(''payment_id'', JStr (pr_payment_id r)), (''quote_id'', JStr (pr_quote_id r)),
      (''service_order_id'', JStr (pr_service_order_id r)), (''amount'', JStr (pr_amount r)),
      (''currency'', JStr (pr_currency r)), (''status'', JStr (pr_status r)), (''preference'', pr_preference r)]"

fun fits :: "sql_type \<Rightarrow> json \<Rightarrow> bool" where
  "fits (String_Type n) (JStr s) = (length s \<le> n)"
| "fits Json_Type v = True"
| "fits _ _ = False"

definition row_fits :: "table_meta \<Rightarrow> (string \<times> json) list \<Rightarrow> bool" where
  "row_fits t row \<longleftrightarrow> list_all2 (\<lambda>c (k, v). column_name c = k \<and> fits (column_type c) v) (map fst (table_columns t)) row"

lemma column_types [simp]: "column_type (Key n ty) = ty" "column_type (Column n ty null) = ty"
  by (simp_all add: Key_def Column_def)

lemma status_lengths [simp]: "length (quote_status_value s) \<le> 64" "length (payment_status_value s') \<le> 64"
  by (cases s; simp) (cases s'; simp)

text \<open>
  A quote whose identifier is a UUID fits its row exactly when the order identifier and the printed
  amount are short enough; so does a payment of the quote, in whatever state. \<open>Money\<close> bounds
  neither, so an accepted amount of 33 digits fails in the database only.
\<close>

lemma quote_row_fits:
  assumes "length (q_quote_id q) \<le> 64" and "length (currency (q_total q)) \<le> 8"
  shows "row_fits quotes (quote_values (quote_to_row q)) \<longleftrightarrow>
    length (q_service_order_id q) \<le> 64 \<and> length (decimal_str (amount (q_total q))) \<le> 32"
  using assms by (simp add: row_fits_def quotes_def quote_values_def quote_to_row_def)

lemma payment_row_fits:
  assumes "length (p_quote_id p) \<le> 64" and "length (p_payment_id p) \<le> 64" and "length (currency (p_total p)) \<le> 8"
  shows "row_fits payments (payment_values (payment_to_row p)) \<longleftrightarrow>
    length (p_service_order_id p) \<le> 64 \<and> length (decimal_str (amount (p_total p))) \<le> 32"
  using assms by (simp add: row_fits_def payments_def payment_values_def payment_to_row_def)

lemma show_nat_long: "10 ^ k \<le> n \<Longrightarrow> k < length (show_nat n)"
proof (induction k arbitrary: n)
  case 0
  then show ?case by (subst show_nat.simps) simp
next
  case (Suc k)
  then have "10 ^ k \<le> n div 10" by simp
  moreover have "\<not> n < 10"
  proof -
    have "(1::nat) \<le> 10 ^ k" by simp
    moreover have "10 * 10 ^ k \<le> n" using Suc.prems by simp
    ultimately show ?thesis by linarith
  qed
  ultimately show ?case using Suc.IH[of "n div 10"] by (subst show_nat.simps) simp
qed

lemma long_amount_is_money_but_no_row:
  assumes "10 ^ 32 \<le> n"
  shows "Money (Finite False n 0) ''BRL'' = Inr \<lparr>amount = Finite False n 0, currency = ''BRL''\<rparr> \<and>
    \<not> row_fits quotes (quote_values (quote_to_row (q\<lparr>q_total := \<lparr>amount = Finite False n 0, currency = ''BRL''\<rparr>\<rparr>)))"
proof -
  have "strip ''BRL'' \<noteq> []" by code_simp
  moreover have "n \<noteq> 0" using assms by auto
  moreover have "decimal_str (Finite False n 0) = show_nat n" by (simp add: finite_text_def sign_text_def)
  ultimately show ?thesis
    using show_nat_long[OF assms]
    by (simp add: Money_iff valid_money_def row_fits_def quotes_def quote_values_def quote_to_row_def del: strip_Nil_iff)
qed

end
