(* ===== verification/Migrations.thy ===== *)
theory Migrations
  imports Operations Schema Lines
begin

text \<open>
  \<open>alembic/env.py\<close>: from the environment to the connection the migration runs on. Alembic keeps
  the URL in a \<open>ConfigParser\<close> of the standard library, whose interpolation gives a per cent sign a
  meaning: \<open>before_set\<close> refuses some texts and reading the option back expands it. A parameter
  \<open>lookup\<close> stands for the other options of the ini file.
\<close>

section \<open>ConfigParser\<close>

text \<open>What stands after \<open>%(\<close> when it is a reference \<open>%(name)s\<close>: the name, and the rest of the text.\<close>

definition reference :: "string \<Rightarrow> (string \<times> string) option" where
  "reference s =
     (case partition_at CHR '')'' s of
        (name, found, r) \<Rightarrow>
          if found \<and> name \<noteq> [] \<and> startswith r ''s'' then Some (name, drop 1 r) else None)"

lemma reference_length: "reference s = Some (name, r) \<Longrightarrow> length r < length s"
proof -
  assume "reference s = Some (name, r)"
  then have "r = drop 1 (drop 1 (dropWhile (\<lambda>x. x \<noteq> CHR '')'') s))" and "s \<noteq> []"
    by (auto simp: reference_def partition_at_def split: if_splits)
  then show ?thesis using length_dropWhile_le[of "\<lambda>x. x \<noteq> CHR '')''" s] by (cases s) auto
qed

function without_references :: "string \<Rightarrow> string" where
  "without_references [] = []"
| "without_references (c # s) =
     (if c = CHR ''%'' \<and> startswith s ''('' then
        (case reference (drop 1 s) of
           Some (name, r) \<Rightarrow> without_references r
         | None \<Rightarrow> c # without_references s)
      else c # without_references s)"
  by pat_completeness auto

termination
  by (relation "measure length") (auto dest!: reference_length)

definition before_set :: "string \<Rightarrow> py_error + string" where
  "before_set value =
     (if CHR ''%'' \<in> set (without_references (replace_all ''%%'' [] value))
      then Inl (ValueError (''invalid interpolation syntax in '' @ repr_str value)) else Inr value)"

function interpolate :: "(string \<Rightarrow> py_error + string) \<Rightarrow> string \<Rightarrow> py_error + string" where
  "interpolate lookup [] = Inr []"
| "interpolate lookup (c # s) =
     (if c \<noteq> CHR ''%'' then bind_sum (interpolate lookup s) (\<lambda>t. Inr (c # t))
      else if startswith s ''%'' then bind_sum (interpolate lookup (drop 1 s)) (\<lambda>t. Inr (c # t))
      else if startswith s ''('' then
        (case reference (drop 1 s) of
           None \<Rightarrow> Inl (ConfigError ''bad interpolation variable reference'')
         | Some (name, r) \<Rightarrow>
             bind_sum (lookup (lower name)) (\<lambda>v. bind_sum (interpolate lookup r) (\<lambda>t. Inr (v @ t))))
      else Inl (ConfigError (repr_str ''%'' @ '' must be followed by %% or ('')))"
  by pat_completeness auto

termination
  by (relation "measure (\<lambda>(l, s). length s)") (auto dest!: reference_length)

section \<open>env.py\<close>

definition get_sqlalchemy_url :: "(string \<rightharpoonup> string) \<Rightarrow> py_error + settings \<Rightarrow> py_error + string" where
  "get_sqlalchemy_url environ loaded_settings =
     bind_sum
       (let database_url = strip (case environ ''DATABASE_URL'' of None \<Rightarrow> [] | Some v \<Rightarrow> v) in
        if database_url = [] then bind_sum loaded_settings (\<lambda>st. Inr (strip (DATABASE_URL st))) else Inr database_url)
       (\<lambda>database_url.
         if database_url = [] then Inl (RuntimeError ''DATABASE_URL is required for Alembic migrations.'')
         else Inr (normalize_sync_database_url database_url))"

text \<open>The URL after \<open>set_main_option\<close> and \<open>get_section\<close>, which the engine is built from.\<close>

definition connection_url ::
    "(string \<Rightarrow> py_error + string) \<Rightarrow> (string \<rightharpoonup> string) \<Rightarrow> py_error + settings \<Rightarrow> py_error + string" where
  "connection_url lookup environ loaded_settings =
     bind_sum (get_sqlalchemy_url environ loaded_settings) (\<lambda>url.
     bind_sum (before_set url) (interpolate lookup))"

text \<open>
  What Alembic does inside \<open>with context.begin_transaction(): context.run_migrations()\<close> is not
  under \<open>src\<close>: it looks up which revisions are recorded in its table \<open>alembic_version\<close> (its own,
  and no part of the schema here), runs the pending ones and commits, or rolls back as far as
  the database can (SQLite cannot undo a table). It is the parameter \<open>run_migrations\<close>, whose
  result and state are the result and state of the run, whatever they are. The engine is built
  before it; the connection is opened by it. Offline the revisions are written as a script for the
  URL.
\<close>

definition run_migrations_online ::
    "driver \<Rightarrow> (string \<Rightarrow> py_error + string) \<Rightarrow> (string \<rightharpoonup> string) \<Rightarrow> py_error + settings \<Rightarrow>
     (schema, unit) exec \<Rightarrow> (schema, unit) exec" where
  "run_migrations_online db lookup environ loaded_settings run_migrations s =
     (case bind_sum (connection_url lookup environ loaded_settings) (\<lambda>url. attempt (engine db url)) of
        Inl x \<Rightarrow> (Inl x, s)
      | Inr _ \<Rightarrow> run_migrations s)"

definition run_migrations_offline :: "(string \<rightharpoonup> string) \<Rightarrow> py_error + settings \<Rightarrow> py_error + string" where
  "run_migrations_offline environ loaded_settings =
     bind_sum (get_sqlalchemy_url environ loaded_settings) (\<lambda>url. bind_sum (before_set url) (\<lambda>_. Inr url))"

section \<open>Which database is migrated\<close>

lemma without_references_plain: "CHR ''%'' \<notin> set s \<Longrightarrow> without_references s = s"
  by (induction s) auto

lemma interpolate_plain: "CHR ''%'' \<notin> set s \<Longrightarrow> interpolate lookup s = Inr s"
  by (induction s) (auto simp: bind_sum_def)

lemma before_set_plain: "CHR ''%'' \<notin> set s \<Longrightarrow> before_set s = Inr s"
  using replace_all_absent[of "CHR ''%''" "''%%''" s "[]"] by (simp add: before_set_def without_references_plain)

lemma interpolate_shrinks:
  assumes "interpolate lookup s = Inr t" and "CHR ''('' \<notin> set s"
  shows "length t \<le> length s \<and> (CHR ''%'' \<in> set s \<longrightarrow> length t < length s)"
  using assms
proof (induction s arbitrary: t rule: measure_induct_rule[where f = length])
  case (less s)
  show ?case
  proof (cases s)
    case (Cons c r)
    have open': "\<not> startswith r ''(''" using less.prems(2) by (cases r) (auto simp: Cons startswith_def)
    show ?thesis
    proof (cases "c = CHR ''%''")
      case False
      then obtain u where "interpolate lookup r = Inr u" "t = c # u"
        using less.prems(1) by (auto simp: Cons bind_sum_def split: sum.splits)
      then show ?thesis using less.IH[of r u] less.prems(2) False by (simp add: Cons)
    next
      case True
      with less.prems(1) open' obtain u where step: "startswith r ''%''" "interpolate lookup (drop 1 r) = Inr u" "t = c # u"
        by (auto simp: Cons bind_sum_def split: if_splits sum.splits)
      have "CHR ''('' \<notin> set (drop 1 r)" using less.prems(2) by (auto simp: Cons dest: in_set_dropD)
      then have "length u \<le> length r - 1" using less.IH[of "drop 1 r" u] step(2) by (simp add: Cons)
      moreover have "0 < length r" using step(1) by (cases r) (auto simp: startswith_def)
      ultimately have "length u < length r" by linarith
      then show ?thesis by (simp add: Cons step(3))
    qed
  qed (use less.prems in simp)
qed

text \<open>
  Property C39. The migration runs on the database of the service. With the URL the service has,
  the engine of Alembic gets the URL the repositories use exactly when that has no per cent sign
  (which percent-encodes a character of the password). An error in finding that URL ends the
  run before Alembic has started, with the schema as it was. Without a per cent sign, and if the
  driver takes the URL, the run is what Alembic makes of the revisions, success or failure, and
  nothing else; if it runs the pending revision of the repository, and the index names are free,
  it ends with the schema the repositories expect, which opening them leaves alone.
\<close>

theorem migration_reaches_the_database_of_the_service:
  assumes "environ ''DATABASE_URL'' = Some (DATABASE_URL st)" and "strip (DATABASE_URL st) = DATABASE_URL st"
    and "DATABASE_URL st \<noteq> []" and "CHR ''('' \<notin> set (normalize_sync_database_url (DATABASE_URL st))"
  shows "let url = normalize_sync_database_url (DATABASE_URL st);
             run = run_migrations_online db lookup environ loaded_settings run_migrations in
    (connection_url lookup environ loaded_settings = Inr url \<longleftrightarrow> CHR ''%'' \<notin> set url) \<and>
    (\<forall>x. connection_url lookup environ loaded_settings = Inl x \<longrightarrow> run s = (Inl x, s)) \<and>
    (CHR ''%'' \<notin> set url \<and> open_repository db (DATABASE_URL st) = Inr () \<longrightarrow>
       run s = run_migrations s \<and>
       (run_migrations s = upgrade s \<and> names_free s \<longrightarrow>
          run s = (Inr (), completed s) \<and> open_all_repositories (completed s) = (Inr (), completed s)))"
proof -
  let ?url = "normalize_sync_database_url (DATABASE_URL st)"
  have url: "connection_url lookup environ loaded_settings = bind_sum (before_set ?url) (interpolate lookup)"
    using assms(1-3) by (simp add: connection_url_def get_sqlalchemy_url_def bind_sum_def del: strip_Nil_iff)
  have reach: "connection_url lookup environ loaded_settings = Inr ?url \<longleftrightarrow> CHR ''%'' \<notin> set ?url"
  proof
    assume "connection_url lookup environ loaded_settings = Inr ?url"
    then have "interpolate lookup ?url = Inr ?url"
      unfolding url by (auto simp: before_set_def bind_sum_def split: if_splits)
    then show "CHR ''%'' \<notin> set ?url" using interpolate_shrinks[OF _ assms(4)] by blast
  next
    assume "CHR ''%'' \<notin> set ?url"
    then show "connection_url lookup environ loaded_settings = Inr ?url"
      unfolding url by (simp add: before_set_plain interpolate_plain bind_sum_def)
  qed
  have stopped: "run_migrations_online db lookup environ loaded_settings run_migrations s = (Inl x, s)"
    if "connection_url lookup environ loaded_settings = Inl x" for x
    using that by (simp add: run_migrations_online_def bind_sum_def)
  have ran: "run_migrations_online db lookup environ loaded_settings run_migrations s = run_migrations s"
    if "CHR ''%'' \<notin> set ?url" "open_repository db (DATABASE_URL st) = Inr ()"
  proof -
    have "engine db ?url = None"
      using that(2) by (auto simp: open_repository_def Let_def bind_sum_def attempt_def split: sum.splits option.splits)
    moreover have "connection_url lookup environ loaded_settings = Inr ?url" using reach that(1) by simp
    ultimately show ?thesis by (simp add: run_migrations_online_def bind_sum_def attempt_def)
  qed
  show ?thesis unfolding Let_def
    using reach ran stopped opened[OF completed_free] by (simp add: completed_again upgraded)
qed

definition migrating_settings :: settings where
  "migrating_settings = default_settings\<lparr>DATABASE_URL := ''postgresql+asyncpg://u:p@db/billing''\<rparr>"

definition quiet_driver :: driver where
  "quiet_driver = \<lparr>engine = (\<lambda>_. None), create_tables = (\<lambda>_. None), session_user = (\<lambda>_ _. Inl ''down'')\<rparr>"

definition no_option :: "string \<Rightarrow> py_error + string" where
  "no_option name = Inl (ConfigError name)"

theorem migration_reaches_the_database_of_the_service_witness:
  "connection_url no_option [''DATABASE_URL'' \<mapsto> DATABASE_URL migrating_settings] (Inr migrating_settings) =
     Inr ''postgresql+psycopg://u:p@db/billing'' \<and>
   run_migrations_online quiet_driver no_option [''DATABASE_URL'' \<mapsto> DATABASE_URL migrating_settings]
     (Inr migrating_settings) upgrade other_schema = (Inr (), completed other_schema) \<and>
   open_all_repositories (completed other_schema) = (Inr (), completed other_schema)"
proof -
  have url: "normalize_sync_database_url (DATABASE_URL migrating_settings) = ''postgresql+psycopg://u:p@db/billing''"
    and strip: "strip (DATABASE_URL migrating_settings) = DATABASE_URL migrating_settings"
    and some: "DATABASE_URL migrating_settings \<noteq> []"
    by code_simp+
  have env: "[''DATABASE_URL'' \<mapsto> DATABASE_URL migrating_settings] ''DATABASE_URL'' = Some (DATABASE_URL migrating_settings)"
    by simp
  have "open_repository quiet_driver (DATABASE_URL migrating_settings) = Inr ()"
    by (simp add: open_repository_def quiet_driver_def attempt_def bind_sum_def Let_def)
  moreover have "names_free other_schema" by (simp add: names_free_def other_schema_def)
  ultimately show ?thesis
    using migration_reaches_the_database_of_the_service[where st = migrating_settings and db = quiet_driver
        and lookup = no_option and loaded_settings = "Inr migrating_settings" and s = other_schema
        and run_migrations = upgrade
        and environ = "[''DATABASE_URL'' \<mapsto> DATABASE_URL migrating_settings]", OF env strip some]
    by (simp add: url Let_def upgraded)
qed

text \<open>
  A password with a percent-encoded character: the repositories open the database, the migration
  stops with a ValueError before it connects.
\<close>

lemma encoded_password_stops_the_migration:
  "connection_url no_option [''DATABASE_URL'' \<mapsto> ''postgresql://u:p%40ss@db/billing''] (Inr default_settings) =
     Inl (ValueError (''invalid interpolation syntax in '' @ repr_str ''postgresql://u:p%40ss@db/billing'')) \<and>
   open_repository quiet_driver ''postgresql://u:p%40ss@db/billing'' = Inr ()"
proof
  show "connection_url no_option [''DATABASE_URL'' \<mapsto> ''postgresql://u:p%40ss@db/billing''] (Inr default_settings) =
     Inl (ValueError (''invalid interpolation syntax in '' @ repr_str ''postgresql://u:p%40ss@db/billing''))"
    by code_simp
  show "open_repository quiet_driver ''postgresql://u:p%40ss@db/billing'' = Inr ()"
    by (simp add: open_repository_def quiet_driver_def attempt_def bind_sum_def Let_def)
qed

end
