(* ===== verification/Mock_Provider.thy ===== *)
theory Mock_Provider
  imports Gateway Py_Input Json_Proofs
begin

text \<open>
  \<open>scripts/local/mercado_pago_mock.py\<close>: the HTTP server that stands in for Mercado Pago on a
  developer's machine, as functions from a request to the response or to the exception that ends
  the handler; and its fit with the checkout adapter.
\<close>

record mock_response =
  mock_status :: int
  mock_headers :: "(string \<times> string) list"
  mock_body :: string

text \<open>\<open>json.dumps\<close> with its default separators.\<close>

definition send_json :: "int \<Rightarrow> json \<Rightarrow> mock_response" where
  "send_json status reply =
     (let body = utf8_encode (dumps '', '' '': '' reply) in
      \<lparr>mock_status = status,
       mock_headers = [(''Content-Type'', ''application/json''), (''Content-Length'', show_nat (length body))],
       mock_body = body\<rparr>)"

definition do_GET :: "string \<Rightarrow> mock_response" where
  "do_GET path =
     (if path = ''/health'' then send_json 200 (JObj [(''status'', JStr ''ok'')])
      else send_json 404 (JObj [(''detail'', JStr ''Not found'')]))"

text \<open>\<open>v.get(k, preset)\<close> and \<open>v[0]\<close> of a decoded value.\<close>

definition get_of :: "json \<Rightarrow> string \<Rightarrow> json \<Rightarrow> py_error + json" where
  "get_of v k preset =
     (case v of JObj d \<Rightarrow> Inr (get_default d k preset) | _ \<Rightarrow> Inl (AttributeError ''object has no attribute get''))"

fun first_item :: "json \<Rightarrow> py_error + json" where
  "first_item (JArr (x # xs)) = Inr x"
| "first_item (JArr []) = Inl (IndexError ''list index out of range'')"
| "first_item (JStr (c # s)) = Inr (JStr [c])"
| "first_item (JStr []) = Inl (IndexError ''string index out of range'')"
| "first_item (JObj d) = Inl (KeyError ''0'')"
| "first_item _ = Inl (TypeError ''object is not subscriptable'')"

text \<open>\<open>rfile.read(n)\<close>; a negative length reads to the end.\<close>

definition read_body :: "int \<Rightarrow> string \<Rightarrow> string" where
  "read_body n sent = (if n < 0 then sent else take (nat n) sent)"

definition do_POST :: "(string \<Rightarrow> string) \<Rightarrow> string \<Rightarrow> string option \<Rightarrow> string \<Rightarrow> py_error + mock_response" where
  "do_POST flt path length_header sent =
     (if path \<noteq> ''/checkout/preferences'' then Inr (send_json 404 (JObj [(''detail'', JStr ''Not found'')]))
      else
        bind_sum (case py_int (case length_header of None \<Rightarrow> ''0'' | Some h \<Rightarrow> h) of
            None \<Rightarrow> Inl (ValueError ''invalid literal for int()'') | Some n \<Rightarrow> Inr n) (\<lambda>content_length.
        bind_sum (loads_bytes flt (let b = read_body content_length sent in if b = [] then ''{}'' else b)) (\<lambda>reply.
        bind_sum (get_of reply ''external_reference'' (JStr ''local-demo'')) (\<lambda>external_reference.
        bind_sum (get_of reply ''items'' (JArr [JObj []])) (\<lambda>items.
        bind_sum (first_item items) (\<lambda>quote_item.
        bind_sum (get_of quote_item ''id'' (JStr ''pref-local-demo'')) (\<lambda>preference_id.
          let url = ''http://localhost:8002/mock-checkout/'' @ str_json external_reference in
          Inr (send_json 201 (JObj
            [(''id'', JStr (''pref-'' @ str_json preference_id)), (''init_point'', JStr url),
             (''sandbox_init_point'', JStr url)])))))))))"

section \<open>The mock and the checkout adapter\<close>

definition mock_preference :: "string \<Rightarrow> string \<Rightarrow> dict" where
  "mock_preference quote_id so =
     [(''id'', JStr (''pref-'' @ quote_id)), (''init_point'', JStr (''http://localhost:8002/mock-checkout/'' @ so)),
      (''sandbox_init_point'', JStr (''http://localhost:8002/mock-checkout/'' @ so))]"

text \<open>The mock understands the request of the adapter, and the adapter the answer of the mock.\<close>

lemma mock_answers_the_adapter:
  assumes "loads_bytes flt body = Inr (JObj (preference_request st quote_id so tot price))" and "body \<noteq> []"
    and "py_int h = Some (int (length body))"
  shows "do_POST flt ''/checkout/preferences'' (Some h) body = Inr (send_json 201 (JObj (mock_preference quote_id so)))"
  using assms
  by (simp add: do_POST_def read_body_def bind_sum_def get_of_def get_default_def preference_request_def
      mock_preference_def Let_def)

lemma adapter_takes_the_mock:
  assumes "\<And>calls c. mp_reply e calls c =
      SdkReturned (JObj [(''status'', JInt 201), (''response'', JObj (mock_preference quote_id so))])"
    and "quote_id \<noteq> []" and "\<not> is_space (last quote_id)"
  shows "fst (adapter_create_checkout_preference st (sdk_client n) quote_id so tot e) =
    Inr \<lparr>preference_id = ''pref-'' @ quote_id, checkout_url = ''http://localhost:8002/mock-checkout/'' @ so,
         external_reference = JStr so\<rparr>"
proof -
  have "strip (''pref-'' @ quote_id) = ''pref-'' @ quote_id"
    using assms(2,3) by (intro strip_id) (simp_all add: is_space_def code_point_def)
  then show ?thesis
    by (simp add: adapter_create_checkout_preference_def sdk_client_def execute_def sdk_call_def assms(1) new_idempotency_key_def
        uuid4_def andthen_def mock_preference_def get_default_def or_else_def Let_def)
qed

end
