(* ===== verification/Spec2Isabelle.thy ===== *)
theory Spec2Isabelle
  imports Json_Total Deliveries Unknown Notifications Render_K8s Migrations Mock_Provider
begin

text \<open>
  A verification library of the service-order billing service: a Python service (FastAPI,
  SQLAlchemy, RabbitMQ through pika, the Mercado Pago SDK) that quotes a service order, opens
  a payment for an approved quote and follows the payment to its end; its worker, which opens
  quotes from integration events; and the scripts that deploy it. Paths are those of the
  repository.

  \<^bold>\<open>How the program is modelled.\<close> A method that reads or changes state is a function
  \<open>('s, 'a) exec\<close>, from the state to an exception or a value, and the state afterwards (theory
  Prelude); \<open>andthen\<close> is sequence, \<open>try_except\<close> and \<open>try_finally\<close> are the statements, and
  \<open>zoom\<close> runs a method of a part on the whole. Exceptions are the datatype \<open>py_error\<close>, and the
  \<open>except\<close> clauses of the source are written as predicates on it. Objects are records and,
  where aliasing matters (the in-memory repositories keep references), addresses into a heap.
  One state \<open>world\<close> serves the HTTP application and the worker: in real mode both are processes
  on one database and one broker. Text is a \<open>string\<close>, a list of the code points up to U+00FF;
  JSON escapes, UTF-8 and text of larger code points are outside the model and treated as
  errors where they are read.

  \<^bold>\<open>Layers and theories.\<close>

  \<^item> Python itself: Prelude (exceptions, executions, loops), Py\_Text (\<open>strip\<close>, case, \<open>replace\<close>,
    \<open>split\<close>, \<open>repr\<close>), Py\_Decimal (\<open>decimal.Decimal\<close> as sign, digits and exponent), Py\_Json
    (decoded values), Json\_Text, Json\_Proofs and Json\_Total (\<open>json.dumps\<close>, \<open>json.loads\<close>, UTF-8,
    that reading inverts writing, and that its fuel is enough), Py\_Input (\<open>splitlines\<close>, \<open>int\<close>), Py\_Url (\<open>urllib.parse\<close>), Lines
    (how \<open>replace\<close> and \<open>splitlines\<close> fit together).
  \<^item> The domain: Environment (clock, UUIDs and the provider as oracles that log their calls) and
    Domain (\<open>domain/payment.py\<close>, \<open>domain/events.py\<close>: \<open>money\<close>, \<open>quote\<close>, \<open>payment\<close> and their
    methods, refined by explicit life cycles).
  \<^item> Ports and adapters: Storage and Repositories (the two repositories of quotes and payments,
    in memory and in SQL, behind the locale \<open>repository\<close>; processed events), Gateway
    (\<open>infrastructure/payment\<close>), Messaging (\<open>infrastructure/messaging\<close>: contracts, publishers,
    consumer, worker, over a broker whose every call may fail).
  \<^item> The application: Use\_Cases (\<open>application\<close>), Config (\<open>settings.py\<close>), Runtime
    (\<open>runtime.py\<close>), Logging (\<open>logging.py\<close>), Auth (\<open>auth.py\<close>), Routes (\<open>billing_routes.py\<close>, \<open>event_routes.py\<close>), System
    (the process: requests and deliveries in any order, \<open>reachable\<close>), Operations (\<open>main.py\<close> from
    the environment to the answered and logged request, \<open>readiness.py\<close>, \<open>health_routes.py\<close>,
    \<open>worker.py\<close>).
  \<^item> Deployment: Database\_Url (\<open>url_utils.py\<close>), Schema (declared tables, migration), Migrations
    (\<open>alembic/env.py\<close>), Prepare\_Env, Prepared and Prepared\_File (\<open>prepare_env.py\<close>), Render\_K8s
    (\<open>render_k8s_manifests.py\<close>), Mock\_Provider (\<open>mercado_pago_mock.py\<close>).

  \<^bold>\<open>What is shown.\<close>

  \<^item> State of the service. Ledger gives the abstract specification: quotes, payments and
    events as maps with a handful of moves. Billing and System show that every operation of the
    code, in both modes and whatever fails, is a sequence of moves (\<open>service_refines_ledger\<close>), so
    invariants are proved once on the ledger: payments belong to approved quotes, at most
    one for each, announcements are true, and no status goes back in the order of its life
    cycle (the types of the statuses are ordered in Domain).
  \<^item> Requests. Exactly the administrators' tokens are admitted, and nothing else changes state;
    in real mode a request that a route answers with an error leaves no trace, as long as the
    broker client raises its own exceptions only (Refusals); an unknown identifier is a 404
    (Unknown); a quote can be carried to its confirmed payment in memory mode (Journeys); in both
    modes, while the payments database and the broker answer, the first final notification of the
    provider decides (Notifications, behind the locale \<open>payment_desk\<close>). Refusals and Notifications
    also hold the concrete runs in which a failure does leave a trace. Operations shows what every
    answer carries, counts and logs, and Logging that a log record is one line of JSON for a reader
    that splits at line feeds, whatever the client put into its identifiers.
  \<^item> Messages. What an entity announces survives the wire, the consumer accepts exactly valid
    messages, each delivery is settled once, and redelivered events change nothing (Messaging,
    Deliveries).
  \<^item> Adapters. Both quote repositories agree in all three operations (with several quotes of one
    service order they may name different ones of them), rows are read back equal, SDK failures
    are gateway errors, a status is taken from the one matching provider payment only
    (Repositories, Gateway).
  \<^item> Deployment. URLs are described as rendered, and normalising them replaces the scheme and
    nothing else; a prepared env file is a fixed point, and its checked fields are what the
    settings expect, but for a blank health-check timeout; rendered manifests keep secrets apart
    and are read back; migration and repositories agree on the schema and, unless the URL holds a
    per cent sign, meet in the same database.

  \<^bold>\<open>Bounds and fuel.\<close> Integers of the source are unbounded. \<open>loads\<close> is a reader with fuel, one
  unit for each nested call; \<open>2 * length s + 2\<close> units are enough for every text, since every second
  call has consumed a character (Json\_Total: more fuel changes no result and no refusal). Python's
  own limit on nested calls, which a text of brackets a thousand deep can reach, is not modelled.
  \<open>int\<close> refuses more than 4300 digits, in text and in JSON; a JSON number that long is a
  \<open>JSONDecodeError\<close> in the model where Python raises a plain \<open>ValueError\<close> (the consumer refuses the
  message either way, \<open>prepare_env\<close> ends in a traceback and not in an \<open>EnvValidationError\<close>). Every other recursion is structural
  or has a measure, so a use case, a handler and a script always return.

  \<^bold>\<open>Parameters.\<close> What is not under \<open>src\<close> is an argument or an oracle: \<open>jwt.decode\<close>
  (\<open>srv_jwt\<close>), the Mercado Pago SDK (\<open>mp_reply\<close>, any value or exception for every call), the
  failures of database sessions (\<open>db_fault\<close>, \<open>pe_fault\<close>) and the row a query without order
  takes (\<open>db_pick\<close>), the calls of the broker (\<open>amqp_fault\<close>: each may raise an exception of pika or
  a \<open>ValueError\<close>), the driver behind a URL (\<open>driver\<close>),
  the reading of the environment by pydantic (\<open>source\<close>), the middlewares of the framework
  (\<open>wrap\<close>), what Alembic does with the pending revisions (\<open>run_migrations\<close>), \<open>repr(float)\<close>, the clock
  and \<open>uuid4\<close>, the files a secret is read from. A database session that fails applies nothing, as
  its transaction is rolled back, and a call of the broker that raises is taken to have had no
  effect. The lengths of the columns are part of the schema but no check of \<open>sql_save\<close>: a value
  that is too long fails through \<open>db_fault\<close>, which is arbitrary. Only a table of the same
  name is in the way of a new table (in PostgreSQL an index or a view would be, too).

  \<^bold>\<open>Not modelled.\<close> What pydantic and FastAPI do before a route runs (validation of bodies,
  conversion of the plain fields of \<open>Settings\<close>, the matching of paths to routes); the log
  records of other libraries; the text of the metrics page (its counters are modelled) and the
  observed durations; \<open>argparse\<close>, sockets and directories in the scripts; concurrency: requests and
  deliveries are taken one after the other, each to its end. The routes of one process run in a
  thread pool and \<open>k8s/deployment.yaml\<close> starts two replicas, and nothing in the code locks a quote
  while it is approved, so what is shown of reachable states (one payment for each quote, for one)
  holds for runs whose requests do not overlap.
  Package \<open>__init__\<close> files only re-export names.
\<close>

end
